theory Spec2Isabelle
  imports Complex_Main "HOL-Library.Log_Nat"
begin

section \<open>JavaScript numbers, as far as the pool ledger uses them\<close>

text \<open>
  The ledger stores amounts in \<^verbatim>\<open>numeric(18, 8)\<close> columns and computes on them with
  \<^verbatim>\<open>parseFloat\<close>, \<^verbatim>\<open>+\<close>, \<^verbatim>\<open>-\<close>, \<^verbatim>\<open><\<close> and \<^verbatim>\<open>toFixed(8)\<close>.
  A column value (and an amount string with at most eight fractional digits) is an \<open>int\<close>
  counting units of \<open>10\<^sup>-\<^sup>8\<close>. A JavaScript number is the rational it denotes: every
  finite binary64 value is one. \<open>to_double\<close> is IEEE 754 round-to-nearest, ties-to-even,
  to a 53 bit significand; the magnitudes of the ledger (from \<open>10\<^sup>-\<^sup>8\<close> to below
  \<open>10\<^sup>1\<^sup>1\<close>) are far from the subnormal and the overflow range, which are not modelled,
  and so are \<^verbatim>\<open>NaN\<close> and the range check of the column itself.
\<close>

definition binexp :: "rat \<Rightarrow> int" where
  \<comment> \<open>for \<open>x > 0\<close>: the exponent \<open>e\<close> with \<open>2\<^sup>e \<le> x < 2\<^sup>e\<^sup>+\<^sup>1\<close>\<close>
  "binexp x = (let (p, q) = quotient_of x; k = bitlen p - bitlen q
               in if 2 powi k \<le> x then k else k - 1)"

definition round_half_even :: "rat \<Rightarrow> int" where
  "round_half_even m =
     (let f = \<lfloor>m\<rfloor>; d = m - of_int f
      in if d < 1 / 2 then f else if 1 / 2 < d then f + 1
         else if even f then f else f + 1)"

definition to_double :: "rat \<Rightarrow> rat" where
  "to_double x =
     (if x = 0 then 0
      else let a = \<bar>x\<bar>; u = 2 powi (binexp a - 52)
           in sgn x * of_int (round_half_even (a / u)) * u)"

definition parseFloat :: "int \<Rightarrow> rat" where
  \<comment> \<open>the Number value of a decimal string with eight fractional digits\<close>
  "parseFloat n = to_double (of_int n / 10 ^ 8)"

definition toFixed8 :: "rat \<Rightarrow> int" where
  \<comment> \<open>\<^verbatim>\<open>x.toFixed(8)\<close>: the \<open>n\<close> with \<open>n / 10\<^sup>8\<close> closest to \<open>x\<close>, the larger \<open>n\<close> on a tie,
      computed on the absolute value for a negative \<open>x\<close>\<close>
  "toFixed8 x = (if x < 0 then - \<lfloor>(- x) * 10 ^ 8 + 1 / 2\<rfloor> else \<lfloor>x * 10 ^ 8 + 1 / 2\<rfloor>)"

definition fadd :: "rat \<Rightarrow> rat \<Rightarrow> rat" where
  "fadd a b = to_double (a + b)"

definition fsub :: "rat \<Rightarrow> rat \<Rightarrow> rat" where
  "fsub a b = to_double (a - b)"

definition exact_limit :: int where
  \<comment> \<open>\<open>10\<^sup>7\<close> in units of \<open>10\<^sup>-\<^sup>8\<close>: up to this magnitude one addition or subtraction of
      two parsed amounts, printed with \<^verbatim>\<open>toFixed(8)\<close>, is exact\<close>
  "exact_limit = 10 ^ 15"

section \<open>The tables of the schema\<close>

text \<open>
  One record per table, with the columns the storage layer reads or writes in the
  operations below. The generated columns (\<^verbatim>\<open>createdAt\<close>, \<^verbatim>\<open>timestamp\<close>,
  \<^verbatim>\<open>lastActivity\<close>, and the ids of trades and pool transactions) are left out: no
  modelled code reads them. A table is the list of its rows in the order a query returns
  them; \<^verbatim>\<open>pool_balances\<close> has a unique \<^verbatim>\<open>account_hash\<close> and is the map from that
  key to the rest of the row.
\<close>

record collection =
  c_id :: string
  c_contractAddress :: "string option"

record nft =
  n_id :: string
  n_collectionId :: "string option"
  n_tokenId :: int
  n_encryptedOwner :: string

record listing =
  l_id :: string
  l_nftId :: string
  l_encryptedSeller :: string
  l_price :: int
  l_isActive :: bool

record trade =
  t_nftId :: string
  t_encryptedBuyer :: string
  t_encryptedSeller :: string
  t_price :: int

record poolBalance =
  pb_encryptedOwner :: string
  pb_balance :: int
  pb_totalDeposited :: int
  pb_totalSpent :: int

datatype txType = deposit | withdraw | mint_payment | nft_purchase | nft_sale

record poolTransaction =
  pt_accountHash :: string
  pt_type :: txType
  pt_amount :: int
  pt_txHash :: "string option"
  pt_nftId :: "string option"

record db =
  collections :: "collection list"
  nfts :: "nft list"
  listings :: "listing list"
  trades :: "trade list"
  poolBalances :: "string \<rightharpoonup> poolBalance"
  poolTransactions :: "poolTransaction list"

datatype error =
    InsufficientBalance
  | InsufficientBalanceForPayment
  | CannotSpendWithoutBalance
  | NoPoolBalanceFound
  | InsufficientPoolBalance int int
  | ForeignKeyViolation
  | NumericFieldOverflow

section \<open>The storage layer (\<^verbatim>\<open>DatabaseStorage\<close>)\<close>

definition getCollectionById :: "db \<Rightarrow> string option \<Rightarrow> collection option" where
  \<comment> \<open>a \<^verbatim>\<open>null\<close> id matches no row\<close>
  "getCollectionById s cid =
     (case cid of None \<Rightarrow> None | Some i \<Rightarrow> find (\<lambda>c. c_id c = i) (collections s))"

definition getNftById :: "db \<Rightarrow> string \<Rightarrow> nft option" where
  "getNftById s i = find (\<lambda>n. n_id n = i) (nfts s)"

definition updateNftOwner :: "string \<Rightarrow> string \<Rightarrow> db \<Rightarrow> db" where
  "updateNftOwner nftId encryptedOwner s =
     s\<lparr>nfts := map (\<lambda>n. if n_id n = nftId then n\<lparr>n_encryptedOwner := encryptedOwner\<rparr> else n)
                    (nfts s)\<rparr>"

definition getListingByNftId :: "db \<Rightarrow> string \<Rightarrow> listing option" where
  "getListingByNftId s nftId = find (\<lambda>l. l_nftId l = nftId \<and> l_isActive l) (listings s)"

definition deactivateListing :: "string \<Rightarrow> db \<Rightarrow> db" where
  "deactivateListing listingId s =
     s\<lparr>listings := map (\<lambda>l. if l_id l = listingId then l\<lparr>l_isActive := False\<rparr> else l)
                        (listings s)\<rparr>"

record insertListing =
  il_nftId :: string
  il_encryptedSeller :: string
  il_price :: int
  il_isActive :: "bool option"

definition numericFits :: "int \<Rightarrow> bool" where
  \<comment> \<open>a column \<^verbatim>\<open>numeric(18, 8)\<close> holds the amounts below \<open>10\<^sup>1\<^sup>0\<close> in magnitude\<close>
  "numericFits x = (\<bar>x\<bar> < 10 ^ 18)"

definition createListing :: "string \<Rightarrow> insertListing \<Rightarrow> db \<Rightarrow> (error + listing) \<times> db" where
  \<comment> \<open>\<open>newId\<close> is the id the database generates for the inserted row. The two statements
      are not in a transaction: when the insert throws, the deactivation before it stays.
      The insert throws for a price that the column cannot hold, and for an asset without
      a row, which \<^verbatim>\<open>listings.nft_id\<close> references\<close>
  "createListing newId il s =
     (let s1 = (case getListingByNftId s (il_nftId il) of
                  Some existingListing \<Rightarrow> deactivateListing (l_id existingListing) s
                | None \<Rightarrow> s);
          row = \<lparr>l_id = newId, l_nftId = il_nftId il,
                 l_encryptedSeller = il_encryptedSeller il, l_price = il_price il,
                 l_isActive = (case il_isActive il of Some b \<Rightarrow> b | None \<Rightarrow> True)\<rparr>
      in if \<not> numericFits (il_price il) then (Inl NumericFieldOverflow, s1)
         else if getNftById s1 (il_nftId il) = None then (Inl ForeignKeyViolation, s1)
         else (Inr row, s1\<lparr>listings := listings s1 @ [row]\<rparr>))"

definition createTrade :: "trade \<Rightarrow> db \<Rightarrow> db" where
  "createTrade t s = s\<lparr>trades := trades s @ [t]\<rparr>"

definition getPoolBalance :: "db \<Rightarrow> string \<Rightarrow> poolBalance option" where
  "getPoolBalance s accountHash = poolBalances s accountHash"

definition createOrUpdatePoolBalance ::
  "string \<Rightarrow> string \<Rightarrow> int \<Rightarrow> txType \<Rightarrow> db \<Rightarrow> error + poolBalance \<times> db" where
  "createOrUpdatePoolBalance accountHash encryptedOwner amount type s =
     (let amountNum = parseFloat amount in
      case poolBalances s accountHash of
        Some existing \<Rightarrow>
          (let currentBalance = parseFloat (pb_balance existing);
               currentDeposited = parseFloat (pb_totalDeposited existing);
               currentSpent = parseFloat (pb_totalSpent existing);
               write = (\<lambda>newBalance newDeposited newSpent.
                 let updated = existing\<lparr>pb_balance := toFixed8 newBalance,
                                         pb_totalDeposited := toFixed8 newDeposited,
                                         pb_totalSpent := toFixed8 newSpent\<rparr>
                 in Inr (updated, s\<lparr>poolBalances := (poolBalances s)(accountHash \<mapsto> updated)\<rparr>))
           in if type = deposit \<or> type = nft_sale then
                write (fadd currentBalance amountNum)
                      (if type = deposit then fadd currentDeposited amountNum
                       else currentDeposited)
                      currentSpent
              else if type = withdraw then
                (let newBalance = fsub currentBalance amountNum
                 in if newBalance < 0 then Inl InsufficientBalance
                    else write newBalance currentDeposited currentSpent)
              else
                (let newBalance = fsub currentBalance amountNum;
                     newSpent = fadd currentSpent amountNum
                 in if newBalance < 0 then Inl InsufficientBalanceForPayment
                    else write newBalance currentDeposited newSpent))
      | None \<Rightarrow>
          if type \<noteq> deposit \<and> type \<noteq> nft_sale then Inl CannotSpendWithoutBalance
          else (let created = \<lparr>pb_encryptedOwner = encryptedOwner, pb_balance = amount,
                                pb_totalDeposited = (if type = deposit then amount else 0),
                                pb_totalSpent = 0\<rparr>
                in Inr (created, s\<lparr>poolBalances := (poolBalances s)(accountHash \<mapsto> created)\<rparr>)))"

definition recordPoolTransaction :: "poolTransaction \<Rightarrow> db \<Rightarrow> db" where
  "recordPoolTransaction t s = s\<lparr>poolTransactions := poolTransactions s @ [t]\<rparr>"

record poolBuyParams =
  bp_nftId :: string
  bp_listingId :: string
  bp_buyerAccountHash :: string
  bp_encryptedBuyer :: string
  bp_encryptedSeller :: string
  bp_price :: int
  bp_txHash :: "string option"

record poolBuyResult =
  br_trade :: trade
  br_buyerBalance :: "poolBalance option"
  br_sellerBalance :: "poolBalance option"

definition updatePoolRow ::
  "string \<Rightarrow> (poolBalance \<Rightarrow> poolBalance) \<Rightarrow> db \<Rightarrow> poolBalance option \<times> db" where
  \<comment> \<open>\<^verbatim>\<open>UPDATE pool_balances SET ... WHERE account_hash = h RETURNING *\<close>: the columns are
      set on the row as it is now; the first returned row is \<^verbatim>\<open>undefined\<close> when none matches\<close>
  "updatePoolRow h f s =
     (case poolBalances s h of
        None \<Rightarrow> (None, s)
      | Some r \<Rightarrow> (Some (f r), s\<lparr>poolBalances := (poolBalances s)(h \<mapsto> f r)\<rparr>))"

definition atomicPoolBuy :: "poolBuyParams \<Rightarrow> db \<Rightarrow> error + poolBuyResult \<times> db" where
  \<comment> \<open>one database transaction: an error rolls back what was written, so that the two
      errors of the database are told at the end. A statement throws when a value it writes
      does not fit its column \<^verbatim>\<open>numeric(18, 8)\<close>; the rows inserted into
      \<^verbatim>\<open>pool_transactions\<close> and \<^verbatim>\<open>trades\<close> reference \<^verbatim>\<open>nfts.id\<close>, and for an asset
      without a row the first of these inserts throws\<close>
  "atomicPoolBuy p s =
     (let priceNum = parseFloat (bp_price p) in
      case poolBalances s (bp_buyerAccountHash p) of
        None \<Rightarrow> Inl NoPoolBalanceFound
      | Some buyerPoolBalance \<Rightarrow>
          (let buyerCurrentBalance = parseFloat (pb_balance buyerPoolBalance) in
           if buyerCurrentBalance < priceNum
           then Inl (InsufficientPoolBalance (toFixed8 buyerCurrentBalance) (toFixed8 priceNum))
           else
             (let existingSellerPool = poolBalances s (bp_encryptedSeller p);
                  buyerNewBalance = fsub buyerCurrentBalance priceNum;
                  buyerNewSpent = fadd (parseFloat (pb_totalSpent buyerPoolBalance)) priceNum;
                  (updatedBuyerBalance, s3) =
                     updatePoolRow (bp_buyerAccountHash p)
                       (\<lambda>r. r\<lparr>pb_balance := toFixed8 buyerNewBalance,
                               pb_totalSpent := toFixed8 buyerNewSpent\<rparr>) s;
                  (updatedSellerBalance, s4) =
                     (case existingSellerPool of
                        Some sellerPool \<Rightarrow>
                          updatePoolRow (bp_encryptedSeller p)
                            (\<lambda>r. r\<lparr>pb_balance :=
                                      toFixed8 (fadd (parseFloat (pb_balance sellerPool)) priceNum)\<rparr>)
                            s3
                      | None \<Rightarrow>
                          (let created = \<lparr>pb_encryptedOwner = bp_encryptedSeller p,
                                          pb_balance = bp_price p,
                                          pb_totalDeposited = 0, pb_totalSpent = 0\<rparr>
                           in (Some created,
                               s3\<lparr>poolBalances :=
                                    (poolBalances s3)(bp_encryptedSeller p \<mapsto> created)\<rparr>)));
                  s5 = s4\<lparr>poolTransactions := poolTransactions s4 @
                          [\<lparr>pt_accountHash = bp_buyerAccountHash p, pt_type = nft_purchase,
                            pt_amount = bp_price p, pt_txHash = bp_txHash p,
                            pt_nftId = Some (bp_nftId p)\<rparr>,
                           \<lparr>pt_accountHash = bp_encryptedSeller p, pt_type = nft_sale,
                            pt_amount = bp_price p, pt_txHash = bp_txHash p,
                            pt_nftId = Some (bp_nftId p)\<rparr>]\<rparr>;
                  trade = \<lparr>t_nftId = bp_nftId p, t_encryptedBuyer = bp_encryptedBuyer p,
                           t_encryptedSeller = bp_encryptedSeller p, t_price = bp_price p\<rparr>;
                  s6 = s5\<lparr>trades := trades s5 @ [trade]\<rparr>;
                  s7 = updateNftOwner (bp_nftId p) (bp_encryptedBuyer p) s6;
                  s8 = deactivateListing (bp_listingId p) s7
              in if \<not> (numericFits (toFixed8 buyerNewBalance)
                        \<and> numericFits (toFixed8 buyerNewSpent)
                        \<and> (case updatedSellerBalance of
                              Some written \<Rightarrow> numericFits (pb_balance written)
                            | None \<Rightarrow> True)
                        \<and> numericFits (bp_price p))
                 then Inl NumericFieldOverflow
                 else if getNftById s (bp_nftId p) = None
                 then Inl ForeignKeyViolation
                 else Inr (\<lparr>br_trade = trade, br_buyerBalance = updatedBuyerBalance,
                             br_sellerBalance = updatedSellerBalance\<rparr>, s8))))"

section \<open>Request authorization (\<^verbatim>\<open>verifySignature\<close>, \<^verbatim>\<open>verifySignedRequest\<close>)\<close>

text \<open>
  The two cryptographic primitives are parameters: \<open>keccak\<close> stands for
  \<^verbatim>\<open>ethers.keccak256(ethers.toUtf8Bytes(_))\<close> and \<open>recover\<close> for
  \<^verbatim>\<open>ethers.verifyTypedData(EIP712_DOMAIN, types, data, signature)\<close>, which returns the
  recovered address or throws (\<open>None\<close>). Times are milliseconds since the epoch
  (\<^verbatim>\<open>Date.now()\<close>); \<^verbatim>\<open>expiresAt\<close> is in seconds. The nonce and \<^verbatim>\<open>expiresAt\<close> are
  the unsigned integers the typed data declares them to be.
\<close>

record signatureData =
  sd_action :: string
  sd_fields :: "string list"
  sd_nonce :: nat
  sd_expiresAt :: nat

record signedRequest =
  sr_data :: signatureData
  sr_signature :: string
  sr_signer :: string

definition toLowerCase :: "string \<Rightarrow> string" where
  \<comment> \<open>on the ASCII letters, the only ones with a lower case among bytes\<close>
  "toLowerCase s =
     map (\<lambda>c. case map_of (zip ''ABCDEFGHIJKLMNOPQRSTUVWXYZ'' ''abcdefghijklmnopqrstuvwxyz'') c of
                 Some l \<Rightarrow> l
               | None \<Rightarrow> c) s"

fun String_number :: "nat \<Rightarrow> string" where
  \<comment> \<open>\<^verbatim>\<open>String(n)\<close> for a non-negative integer below \<open>10\<^sup>2\<^sup>1\<close>: its decimal digits\<close>
  "String_number n =
     (if n < 10 then [''0123456789'' ! n]
      else String_number (n div 10) @ [''0123456789'' ! (n mod 10)])"

declare String_number.simps [simp del]

definition isSignatureExpired :: "nat \<Rightarrow> nat \<Rightarrow> bool" where
  \<comment> \<open>\<^verbatim>\<open>Math.floor(Date.now() / 1000) > expiresAt\<close>\<close>
  "isSignatureExpired now expiresAt = (now div 1000 > expiresAt)"

definition getTypeName :: "string \<Rightarrow> string option" where
  \<comment> \<open>\<open>None\<close>: the \<^verbatim>\<open>default\<close> case throws\<close>
  "getTypeName action =
     (if action = ''mint'' then Some ''Mint''
      else if action = ''list'' then Some ''List''
      else if action = ''unlist'' then Some ''Unlist''
      else if action = ''buy'' then Some ''Buy''
      else if action = ''offer'' then Some ''Offer''
      else if action = ''pool_deposit'' then Some ''PoolDeposit''
      else if action = ''pool_withdraw'' then Some ''PoolWithdraw''
      else None)"

type_synonym recover = "string \<Rightarrow> signatureData \<Rightarrow> string \<Rightarrow> string option"

definition verifySignature :: "recover \<Rightarrow> nat \<Rightarrow> signedRequest \<Rightarrow> string \<Rightarrow> bool" where
  "verifySignature recover now signedRequest expectedSigner =
     (let data = sr_data signedRequest; signer = sr_signer signedRequest in
      if toLowerCase signer \<noteq> toLowerCase expectedSigner then False
      else if isSignatureExpired now (sd_expiresAt data) then False
      else case getTypeName (sd_action data) of
             None \<Rightarrow> False
           | Some typeName \<Rightarrow>
               (case recover typeName data (sr_signature signedRequest) of
                  None \<Rightarrow> False
                | Some recoveredAddress \<Rightarrow>
                    toLowerCase recoveredAddress = toLowerCase signer))"

record nonceStore =
  usedNonces :: "string \<rightharpoonup> string set"
  nonceTimestamps :: "(string \<times> nat) list"

definition NONCE_EXPIRY_MS :: nat where
  "NONCE_EXPIRY_MS = 5 * 60 * 1000"

fun map_set :: "string \<Rightarrow> nat \<Rightarrow> (string \<times> nat) list \<Rightarrow> (string \<times> nat) list" where
  \<comment> \<open>\<^verbatim>\<open>Map.prototype.set\<close>: an existing key keeps its place\<close>
  "map_set k v [] = [(k, v)]"
| "map_set k v ((k', v') # rest) =
     (if k' = k then (k, v) # rest else (k', v') # map_set k v rest)"

datatype authError = AccountHashMismatch | InvalidSignature | RequestExpired | ReplayDetected

definition verifySignedRequest ::
  "(string \<Rightarrow> string) \<Rightarrow> recover \<Rightarrow> nat \<Rightarrow> signedRequest \<Rightarrow> string \<Rightarrow> nonceStore
     \<Rightarrow> (authError + string) \<times> nonceStore" where
  "verifySignedRequest keccak recover now signedRequest expectedAccountHash ns =
     (let computedHash = keccak (toLowerCase (sr_signer signedRequest)) in
      if computedHash \<noteq> expectedAccountHash then (Inl AccountHashMismatch, ns)
      else if \<not> verifySignature recover now signedRequest (sr_signer signedRequest)
      then (Inl InvalidSignature, ns)
      else
        (let nonce = String_number (sd_nonce (sr_data signedRequest));
             expiresAt = sd_expiresAt (sr_data signedRequest);
             signerLower = toLowerCase (sr_signer signedRequest)
         in if expiresAt \<noteq> 0 \<and> now > 1000 * expiresAt then (Inl RequestExpired, ns)
            else
              (let ns1 = (if usedNonces ns signerLower = None
                          then ns\<lparr>usedNonces := (usedNonces ns)(signerLower \<mapsto> {})\<rparr>
                          else ns);
                   signerNonces = (case usedNonces ns1 signerLower of
                                     Some ns' \<Rightarrow> ns' | None \<Rightarrow> {})
               in if nonce \<in> signerNonces then (Inl ReplayDetected, ns1)
                  else (Inr (sr_signer signedRequest),
                        ns1\<lparr>usedNonces :=
                              (usedNonces ns1)(signerLower \<mapsto> insert nonce signerNonces),
                            nonceTimestamps :=
                              map_set (signerLower @ '':'' @ nonce) now
                                (nonceTimestamps ns1)\<rparr>))))"

fun split_colon :: "string \<Rightarrow> string list" where
  \<comment> \<open>\<^verbatim>\<open>s.split(':')\<close>\<close>
  "split_colon [] = [[]]"
| "split_colon (c # cs) =
     (if c = CHR '':'' then [] # split_colon cs
      else (case split_colon cs of [] \<Rightarrow> [[c]] | w # ws \<Rightarrow> (c # w) # ws))"

definition forgetNonce :: "string \<Rightarrow> nonceStore \<Rightarrow> nonceStore" where
  \<comment> \<open>the body of \<^verbatim>\<open>expiredNonces.forEach\<close>; a destructured element that is missing is
      \<^verbatim>\<open>undefined\<close>, which is in no set of strings\<close>
  "forgetNonce nonceKey ns =
     (let ns1 = ns\<lparr>nonceTimestamps := filter (\<lambda>(k, t). k \<noteq> nonceKey) (nonceTimestamps ns)\<rparr>
      in case split_colon nonceKey of
           [] \<Rightarrow> ns1
         | signer # rest \<Rightarrow>
             (case usedNonces ns1 signer of
                None \<Rightarrow> ns1
              | Some signerNonces \<Rightarrow>
                  (let signerNonces' = (case rest of
                                          [] \<Rightarrow> signerNonces
                                        | nonce # _ \<Rightarrow> signerNonces - {nonce})
                   in if signerNonces' = {}
                      then ns1\<lparr>usedNonces := (usedNonces ns1)(signer := None)\<rparr>
                      else ns1\<lparr>usedNonces := (usedNonces ns1)(signer \<mapsto> signerNonces')\<rparr>)))"

definition cleanupNonces :: "nat \<Rightarrow> nonceStore \<Rightarrow> nonceStore" where
  \<comment> \<open>the callback of \<^verbatim>\<open>setInterval\<close>, run at time \<open>now\<close>\<close>
  "cleanupNonces now ns =
     (let expiredNonces =
            map fst (filter (\<lambda>(nonceKey, timestamp).
                               int now - int timestamp > int (NONCE_EXPIRY_MS * 2))
                            (nonceTimestamps ns))
      in fold forgetNonce expiredNonces ns)"

section \<open>The external ledger, as the relayer sees it\<close>

text \<open>
  Every call that leaves the process is an oracle of the environment \<open>env\<close>: its answer
  is arbitrary, and a call that throws answers with the thrown message (\<open>Inl\<close>) or with
  \<open>None\<close>. The read inside \<^verbatim>\<open>checkOnChainListingStatus\<close> and the read inside
  \<^verbatim>\<open>buyNFTViaRelayer\<close> are separate oracles, since the ledger may change in between.
\<close>

record env =
  e_now :: nat
  e_keccak :: "string \<Rightarrow> string"
  e_recover :: recover
  e_relayerConfigured :: bool
  e_serverFhevmConfigured :: bool
  e_statusIsListed :: "string \<Rightarrow> int \<Rightarrow> bool option"
  e_statusPrice :: "string \<Rightarrow> int \<Rightarrow> string option"
  e_encryptedInput :: "string \<Rightarrow> string \<Rightarrow> string + string \<times> string"
  e_buyIsListed :: "string \<Rightarrow> int \<Rightarrow> string + bool"
  e_buyNFT :: "string \<Rightarrow> int \<Rightarrow> string \<Rightarrow> string \<Rightarrow> int \<Rightarrow> string + string"

record onChainListingStatus =
  ocs_isListed :: bool
  ocs_price :: "string option"

definition checkOnChainListingStatus :: "env \<Rightarrow> string \<Rightarrow> int \<Rightarrow> onChainListingStatus" where
  "checkOnChainListingStatus e collectionAddress tokenId =
     (case e_statusIsListed e collectionAddress tokenId of
        None \<Rightarrow> \<lparr>ocs_isListed = False, ocs_price = None\<rparr>
      | Some isListed \<Rightarrow>
          if isListed then
            (case e_statusPrice e collectionAddress tokenId of
               None \<Rightarrow> \<lparr>ocs_isListed = False, ocs_price = None\<rparr>
             | Some price \<Rightarrow> \<lparr>ocs_isListed = True, ocs_price = Some price\<rparr>)
          else \<lparr>ocs_isListed = False, ocs_price = None\<rparr>)"

record relayerBuyRequest =
  rq_collectionAddress :: string
  rq_tokenId :: int
  rq_price :: int
  rq_encryptedBuyer :: string
  rq_inputProof :: string

record relayerBuyResult =
  rb_success :: bool
  rb_txHash :: "string option"
  rb_error :: "string option"

definition String_int :: "int \<Rightarrow> string" where
  "String_int i = (if i < 0 then CHR ''-'' # String_number (nat (- i)) else String_number (nat i))"

definition buyNFTViaRelayer :: "env \<Rightarrow> relayerBuyRequest \<Rightarrow> relayerBuyResult" where
  \<comment> \<open>a thrown error is reported as
      \<^verbatim>\<open>error.reason || error.message || 'Failed to buy NFT via relayer'\<close>\<close>
  "buyNFTViaRelayer e request =
     (let failed = (\<lambda>m. \<lparr>rb_success = False, rb_txHash = None,
                          rb_error = Some (if m = [] then ''Failed to buy NFT via relayer'' else m)\<rparr>)
      in case e_buyIsListed e (rq_collectionAddress request) (rq_tokenId request) of
           Inl m \<Rightarrow> failed m
         | Inr listed \<Rightarrow>
             if \<not> listed
             then \<lparr>rb_success = False, rb_txHash = None,
                   rb_error = Some (''Token '' @ String_int (rq_tokenId request) @
                                    '' is not listed for sale'')\<rparr>
             else (case e_buyNFT e (rq_collectionAddress request) (rq_tokenId request)
                          (rq_encryptedBuyer request) (rq_inputProof request) (rq_price request) of
                     Inl m \<Rightarrow> failed m
                   | Inr txHash \<Rightarrow>
                       \<lparr>rb_success = True, rb_txHash = Some txHash, rb_error = None\<rparr>))"

section \<open>The two buy routes\<close>

text \<open>
  A route handler maps the request body and the state of the process (the database and
  the in-memory nonce store) to the response, the new state, and the list of calls it made
  to the relayer, in order. A request body is one that the route's schema accepts as to
  the types of its fields; the checks of the schema on values are in the model. A storage
  call that throws inside a database transaction leaves the database as it was.
\<close>

record app =
  app_db :: db
  app_nonces :: nonceStore

datatype chainCall =
    CheckOnChainListingStatus string int
  | CreateServerEncryptedAddressInput string string
  | BuyNFTViaRelayer relayerBuyRequest

datatype body =
    ErrorBody string
  | AuthorizationFailed authError
  | InsufficientBody int int
  | FailedPrivately string
  | FailedPrivatelyStorage error
  | Purchased int
  | PurchasedPrivately "string option" int

record routeResult =
  rr_status :: nat
  rr_body :: body
  rr_app :: app
  rr_calls :: "chainCall list"

definition reply :: "app \<Rightarrow> chainCall list \<Rightarrow> nat \<Rightarrow> body \<Rightarrow> routeResult" where
  "reply a calls code b = \<lparr>rr_status = code, rr_body = b, rr_app = a, rr_calls = calls\<rparr>"

definition deployedAddress :: "collection option \<Rightarrow> string option" where
  \<comment> \<open>\<^verbatim>\<open>collection?.contractAddress\<close> when it is truthy\<close>
  "deployedAddress collection =
     (case collection of
        None \<Rightarrow> None
      | Some c \<Rightarrow> (case c_contractAddress c of
                    None \<Rightarrow> None
                  | Some a \<Rightarrow> if a = [] then None else Some a))"

record buyBody =
  bb_nftId :: string
  bb_listingId :: string
  bb_encryptedBuyer :: string

definition buyRoute :: "env \<Rightarrow> buyBody \<Rightarrow> app \<Rightarrow> routeResult" where
  \<comment> \<open>\<^verbatim>\<open>POST /api/buy\<close>\<close>
  "buyRoute e b a =
     (let s = app_db a in
      case getNftById s (bb_nftId b) of
        None \<Rightarrow> reply a [] 404 (ErrorBody ''NFT not found'')
      | Some nft \<Rightarrow>
          (let collection = getCollectionById s (n_collectionId nft) in
           case getListingByNftId s (bb_nftId b) of
             None \<Rightarrow> reply a [] 400 (ErrorBody ''NFT is not listed for sale'')
           | Some listing \<Rightarrow>
               if \<not> l_isActive listing \<or> l_id listing \<noteq> bb_listingId b
               then reply a [] 400 (ErrorBody ''NFT is not listed for sale'')
               else
                 (let settle = (\<lambda>calls.
                        if n_encryptedOwner nft = bb_encryptedBuyer b
                        then reply a calls 400 (ErrorBody ''You already own this NFT'')
                        else
                          (let s1 = createTrade \<lparr>t_nftId = bb_nftId b,
                                                 t_encryptedBuyer = bb_encryptedBuyer b,
                                                 t_encryptedSeller = l_encryptedSeller listing,
                                                 t_price = l_price listing\<rparr> s;
                               s2 = updateNftOwner (bb_nftId b) (bb_encryptedBuyer b) s1;
                               s3 = deactivateListing (bb_listingId b) s2
                           in reply (a\<lparr>app_db := s3\<rparr>) calls 200 (Purchased (l_price listing))))
                  in case deployedAddress collection of
                       None \<Rightarrow> settle []
                     | Some contractAddress \<Rightarrow>
                         (let calls = [CheckOnChainListingStatus contractAddress (n_tokenId nft)];
                              onChainStatus =
                                checkOnChainListingStatus e contractAddress (n_tokenId nft)
                          in if \<not> ocs_isListed onChainStatus
                             then reply (a\<lparr>app_db := deactivateListing (l_id listing) s\<rparr>) calls 400
                                    (ErrorBody ''NFT is no longer listed for sale. The listing has been updated.'')
                             else settle calls))))"

record privateBuyBody =
  pv_nftId :: string
  pv_encryptedBuyer :: string
  pv_buyerAddress :: string
  pv_accountHash :: string
  pv_signedRequest :: signedRequest

definition isHexDigit :: "char \<Rightarrow> bool" where
  "isHexDigit c = (c \<in> set ''0123456789abcdefABCDEF'')"

definition isEthereumAddress :: "string \<Rightarrow> bool" where
  \<comment> \<open>\<^verbatim>\<open>/^0x[a-fA-F0-9]{40}$/i\<close>\<close>
  "isEthereumAddress s =
     (length s = 42 \<and> toLowerCase (take 2 s) = ''0x'' \<and> list_all isHexDigit (drop 2 s))"

definition privateBuySettle ::
  "env \<Rightarrow> privateBuyBody \<Rightarrow> nft \<Rightarrow> string \<Rightarrow> listing \<Rightarrow> chainCall list \<Rightarrow> app \<Rightarrow> routeResult" where
  \<comment> \<open>\<^verbatim>\<open>POST /api/buy/private\<close> from the line "Prevent buying your own NFT" on: the part
      of the handler that runs once the ledger has confirmed the listing\<close>
  "privateBuySettle e data nft contractAddress listing calls a =
     (let s = app_db a in
      if n_encryptedOwner nft = pv_encryptedBuyer data
      then reply a calls 400 (ErrorBody ''You already own this NFT'')
      else case getPoolBalance s (pv_accountHash data) of
        None \<Rightarrow> reply a calls 400
                 (ErrorBody ''No pool balance found. Please deposit ETH to your privacy pool first.'')
      | Some buyerPoolBalance \<Rightarrow>
          (let buyerBalance = parseFloat (pb_balance buyerPoolBalance);
               requiredAmount = parseFloat (l_price listing)
           in if buyerBalance < requiredAmount
              then reply a calls 400
                     (InsufficientBody (toFixed8 buyerBalance) (toFixed8 requiredAmount))
              else
                (let calls1 = calls @
                       [CreateServerEncryptedAddressInput contractAddress (pv_buyerAddress data)]
                 in case e_encryptedInput e contractAddress (pv_buyerAddress data) of
                      Inl m \<Rightarrow> reply a calls1 500 (FailedPrivately m)
                    | Inr (handle, proof) \<Rightarrow>
                        (let request = \<lparr>rq_collectionAddress = contractAddress,
                                        rq_tokenId = n_tokenId nft,
                                        rq_price = l_price listing,
                                        rq_encryptedBuyer = handle,
                                        rq_inputProof = proof\<rparr>;
                             calls2 = calls1 @ [BuyNFTViaRelayer request];
                             result = buyNFTViaRelayer e request
                         in if \<not> rb_success result
                            then reply a calls2 500
                                   (ErrorBody (case rb_error result of
                                                 None \<Rightarrow> ''Private buy failed''
                                               | Some m \<Rightarrow> if m = [] then ''Private buy failed'' else m))
                            else
                              (case atomicPoolBuy
                                      \<lparr>bp_nftId = pv_nftId data, bp_listingId = l_id listing,
                                       bp_buyerAccountHash = pv_accountHash data,
                                       bp_encryptedBuyer = pv_encryptedBuyer data,
                                       bp_encryptedSeller = l_encryptedSeller listing,
                                       bp_price = l_price listing,
                                       bp_txHash = rb_txHash result\<rparr> s of
                                 Inl err \<Rightarrow> reply a calls2 500 (FailedPrivatelyStorage err)
                               | Inr (poolResult, s') \<Rightarrow>
                                   reply (a\<lparr>app_db := s'\<rparr>) calls2 200
                                     (PurchasedPrivately (rb_txHash result) (l_price listing)))))))"

definition privateBuySchema :: "privateBuyBody \<Rightarrow> bool" where
  \<comment> \<open>\<^verbatim>\<open>privateBuySchema.parse\<close> accepts the body: of the fields modelled, the buyer address
      matches the address pattern and the signed action is the literal \<^verbatim>\<open>buy\<close>\<close>
  "privateBuySchema data =
     (isEthereumAddress (pv_buyerAddress data)
      \<and> sd_action (sr_data (pv_signedRequest data)) = ''buy'')"

declare privateBuySchema_def [simp]

definition privateBuyRoute :: "env \<Rightarrow> privateBuyBody \<Rightarrow> app \<Rightarrow> routeResult" where
  \<comment> \<open>\<^verbatim>\<open>POST /api/buy/private\<close>\<close>
  "privateBuyRoute e data a =
     (if \<not> e_relayerConfigured e
      then reply a [] 503 (ErrorBody ''Private buying not available - relayer not configured'')
      else if \<not> e_serverFhevmConfigured e
      then reply a [] 503
             (ErrorBody ''Private buying not available - server-side FHEVM not configured'')
      else if \<not> privateBuySchema data
      then reply a [] 400 (ErrorBody ''Validation error'')
      else
        (case verifySignedRequest (e_keccak e) (e_recover e) (e_now e) (pv_signedRequest data)
                (pv_accountHash data) (app_nonces a) of
           (Inl err, ns) \<Rightarrow> reply (a\<lparr>app_nonces := ns\<rparr>) [] 401 (AuthorizationFailed err)
         | (Inr signer, ns) \<Rightarrow>
             (let a1 = a\<lparr>app_nonces := ns\<rparr>; s = app_db a1 in
              case getNftById s (pv_nftId data) of
                None \<Rightarrow> reply a1 [] 404 (ErrorBody ''NFT not found'')
              | Some nft \<Rightarrow>
                  (case deployedAddress (getCollectionById s (n_collectionId nft)) of
                     None \<Rightarrow> reply a1 [] 400 (ErrorBody ''Collection contract address not found'')
                   | Some contractAddress \<Rightarrow>
                       (case getListingByNftId s (pv_nftId data) of
                          None \<Rightarrow> reply a1 [] 400 (ErrorBody ''NFT is not listed for sale'')
                        | Some listing \<Rightarrow>
                            if \<not> l_isActive listing
                            then reply a1 [] 400 (ErrorBody ''NFT is not listed for sale'')
                            else
                              (let calls = [CheckOnChainListingStatus contractAddress (n_tokenId nft)];
                                   onChainStatus =
                                     checkOnChainListingStatus e contractAddress (n_tokenId nft)
                               in if \<not> ocs_isListed onChainStatus
                                  then reply (a1\<lparr>app_db := deactivateListing (l_id listing) s\<rparr>)
                                         calls 400
                                         (ErrorBody ''NFT is no longer listed for sale. The listing has been updated.'')
                                  else privateBuySettle e data nft contractAddress listing
                                         calls a1))))))"

section \<open>Properties of states\<close>

definition oneActivePerNft :: "db \<Rightarrow> bool" where
  \<comment> \<open>at most one active listing per asset\<close>
  "oneActivePerNft s = distinct (map l_nftId (filter l_isActive (listings s)))"

text \<open>
  The pool ledger in exact arithmetic: the range of stored values in which the double
  arithmetic of the code agrees with it, and what a settlement is then to leave behind.
\<close>

definition rowInRange :: "poolBalance option \<Rightarrow> bool" where
  "rowInRange row =
     (case row of
        None \<Rightarrow> True
      | Some r \<Rightarrow> \<bar>pb_balance r\<bar> \<le> exact_limit \<and> \<bar>pb_totalDeposited r\<bar> \<le> exact_limit
                  \<and> \<bar>pb_totalSpent r\<bar> \<le> exact_limit)"

definition settledSeller :: "poolBuyParams \<Rightarrow> db \<Rightarrow> poolBalance" where
  \<comment> \<open>the seller's row after a sale at the listed price, in exact arithmetic\<close>
  "settledSeller p s =
     (case poolBalances s (bp_encryptedSeller p) of
        Some rs \<Rightarrow> rs\<lparr>pb_balance := pb_balance rs + bp_price p\<rparr>
      | None \<Rightarrow> \<lparr>pb_encryptedOwner = bp_encryptedSeller p, pb_balance = bp_price p,
                 pb_totalDeposited = 0, pb_totalSpent = 0\<rparr>)"

definition settledTrade :: "poolBuyParams \<Rightarrow> trade" where
  "settledTrade p = \<lparr>t_nftId = bp_nftId p, t_encryptedBuyer = bp_encryptedBuyer p,
                     t_encryptedSeller = bp_encryptedSeller p, t_price = bp_price p\<rparr>"

definition debitedRow :: "poolBuyParams \<Rightarrow> poolBalance \<Rightarrow> poolBalance" where
  \<comment> \<open>the buyer's row as \<^verbatim>\<open>atomicPoolBuy\<close> writes it, in the arithmetic of the code\<close>
  "debitedRow p rb =
     rb\<lparr>pb_balance := toFixed8 (fsub (parseFloat (pb_balance rb)) (parseFloat (bp_price p))),
        pb_totalSpent := toFixed8 (fadd (parseFloat (pb_totalSpent rb)) (parseFloat (bp_price p)))\<rparr>"

definition creditedRow :: "poolBuyParams \<Rightarrow> db \<Rightarrow> poolBalance" where
  \<comment> \<open>the seller's row as \<^verbatim>\<open>atomicPoolBuy\<close> writes it, in the arithmetic of the code\<close>
  "creditedRow p s =
     (case poolBalances s (bp_encryptedSeller p) of
        Some rs \<Rightarrow>
          rs\<lparr>pb_balance := toFixed8 (fadd (parseFloat (pb_balance rs)) (parseFloat (bp_price p)))\<rparr>
      | None \<Rightarrow> \<lparr>pb_encryptedOwner = bp_encryptedSeller p, pb_balance = bp_price p,
                 pb_totalDeposited = 0, pb_totalSpent = 0\<rparr>)"

definition balanceOf :: "db \<Rightarrow> string \<Rightarrow> int option" where
  "balanceOf s h = map_option pb_balance (poolBalances s h)"

definition balanceInRange :: "db \<Rightarrow> string \<Rightarrow> bool" where
  \<comment> \<open>the balance of the account, if it has a row, is within the exact range\<close>
  "balanceInRange s h = (case balanceOf s h of None \<Rightarrow> True | Some b \<Rightarrow> \<bar>b\<bar> \<le> exact_limit)"

definition buyOutcome :: "error + poolBuyResult \<times> db \<Rightarrow> string \<Rightarrow> int option" where
  \<comment> \<open>the balance of an account after an \<^verbatim>\<open>atomicPoolBuy\<close> that returned\<close>
  "buyOutcome r h = (case r of Inl err \<Rightarrow> None | Inr (res, s') \<Rightarrow> balanceOf s' h)"

text \<open>
  Sequences of ledger operations. An operation is a call of \<^verbatim>\<open>createOrUpdatePoolBalance\<close>
  or of \<^verbatim>\<open>atomicPoolBuy\<close>; a call that throws leaves the database as it was. Along a
  sequence, \<open>proceeds\<close> and \<open>withdrawn\<close> add up what the successful operations credit to an
  account as sale proceeds and take from it as withdrawals.
\<close>

datatype ledgerOp =
    Update string string int txType
  | PoolBuy poolBuyParams

definition applyOp :: "ledgerOp \<Rightarrow> db \<Rightarrow> db" where
  \<comment> \<open>one ledger operation; a call that throws rolls its transaction back\<close>
  "applyOp op s =
     (case op of
        Update accountHash encryptedOwner amount type \<Rightarrow>
          (case createOrUpdatePoolBalance accountHash encryptedOwner amount type s of
             Inl err \<Rightarrow> s
           | Inr (row, s') \<Rightarrow> s')
      | PoolBuy p \<Rightarrow>
          (case atomicPoolBuy p s of
             Inl err \<Rightarrow> s
           | Inr (res, s') \<Rightarrow> s'))"

fun run :: "db \<Rightarrow> ledgerOp list \<Rightarrow> db" where
  "run s [] = s"
| "run s (op # ops) = run (applyOp op s) ops"

definition succeeds :: "ledgerOp \<Rightarrow> db \<Rightarrow> bool" where
  "succeeds op s =
     (case op of
        Update accountHash encryptedOwner amount type \<Rightarrow>
          (case createOrUpdatePoolBalance accountHash encryptedOwner amount type s of
             Inl err \<Rightarrow> False | Inr r \<Rightarrow> True)
      | PoolBuy p \<Rightarrow> (case atomicPoolBuy p s of Inl err \<Rightarrow> False | Inr r \<Rightarrow> True))"

definition proceedsOf :: "string \<Rightarrow> ledgerOp \<Rightarrow> db \<Rightarrow> int" where
  \<comment> \<open>the sale proceeds that the operation, run in state \<open>s\<close>, credits to account \<open>h\<close>\<close>
  "proceedsOf h op s =
     (case op of
        Update accountHash encryptedOwner amount type \<Rightarrow>
          (if accountHash = h \<and> type = nft_sale \<and> succeeds op s then amount else 0)
      | PoolBuy p \<Rightarrow>
          (if bp_encryptedSeller p = h \<and> succeeds op s then bp_price p else 0))"

definition withdrawnOf :: "string \<Rightarrow> ledgerOp \<Rightarrow> db \<Rightarrow> int" where
  "withdrawnOf h op s =
     (case op of
        Update accountHash encryptedOwner amount type \<Rightarrow>
          (if accountHash = h \<and> type = withdraw \<and> succeeds op s then amount else 0)
      | PoolBuy p \<Rightarrow> 0)"

fun proceeds :: "string \<Rightarrow> db \<Rightarrow> ledgerOp list \<Rightarrow> int" where
  "proceeds h s [] = 0"
| "proceeds h s (op # ops) = proceedsOf h op s + proceeds h (applyOp op s) ops"

fun withdrawn :: "string \<Rightarrow> db \<Rightarrow> ledgerOp list \<Rightarrow> int" where
  "withdrawn h s [] = 0"
| "withdrawn h s (op # ops) = withdrawnOf h op s + withdrawn h (applyOp op s) ops"

definition net :: "poolBalance option \<Rightarrow> int" where
  \<comment> \<open>balance - totalDeposited + totalSpent\<close>
  "net row = (case row of
                None \<Rightarrow> 0
              | Some r \<Rightarrow> pb_balance r - pb_totalDeposited r + pb_totalSpent r)"

definition opInRange :: "ledgerOp \<Rightarrow> bool" where
  "opInRange op =
     (case op of
        Update accountHash encryptedOwner amount type \<Rightarrow> \<bar>amount\<bar> \<le> exact_limit
      | PoolBuy p \<Rightarrow> \<bar>bp_price p\<bar> \<le> exact_limit
                     \<and> bp_buyerAccountHash p \<noteq> bp_encryptedSeller p)"

fun safeRun :: "string \<Rightarrow> db \<Rightarrow> ledgerOp list \<Rightarrow> bool" where
  \<comment> \<open>before each operation the row of account \<open>h\<close> is within the exact range, and so is
      the amount of the operation; no purchase is from the buyer's own account\<close>
  "safeRun h s [] = True"
| "safeRun h s (op # ops) =
     (rowInRange (poolBalances s h) \<and> opInRange op \<and> safeRun h (applyOp op s) ops)"

definition nonnegAt :: "string \<Rightarrow> db \<Rightarrow> bool" where
  "nonnegAt h s = (case balanceOf s h of None \<Rightarrow> True | Some b \<Rightarrow> 0 \<le> b)"

definition opNonneg :: "ledgerOp \<Rightarrow> bool" where
  "opNonneg op =
     (case op of
        Update accountHash encryptedOwner amount type \<Rightarrow> 0 \<le> amount
      | PoolBuy p \<Rightarrow> 0 \<le> bp_price p)"

definition failure :: "ledgerOp \<Rightarrow> db \<Rightarrow> error option" where
  \<comment> \<open>the error that the operation throws in state \<open>s\<close>, if it throws\<close>
  "failure op s =
     (case op of
        Update accountHash encryptedOwner amount type \<Rightarrow>
          (case createOrUpdatePoolBalance accountHash encryptedOwner amount type s of
             Inl err \<Rightarrow> Some err | Inr r \<Rightarrow> None)
      | PoolBuy p \<Rightarrow> (case atomicPoolBuy p s of Inl err \<Rightarrow> Some err | Inr r \<Rightarrow> None))"

definition insufficient :: "error option \<Rightarrow> bool" where
  \<comment> \<open>one of the three insufficient-balance errors\<close>
  "insufficient res =
     (case res of
        Some InsufficientBalance \<Rightarrow> True
      | Some InsufficientBalanceForPayment \<Rightarrow> True
      | Some (InsufficientPoolBalance available required) \<Rightarrow> True
      | _ \<Rightarrow> False)"

definition overdraws :: "ledgerOp \<Rightarrow> db \<Rightarrow> bool" where
  \<comment> \<open>a debit of an existing account by more than its balance, both within the exact range\<close>
  "overdraws op s =
     (case op of
        Update accountHash encryptedOwner amount type \<Rightarrow>
          type \<noteq> deposit \<and> type \<noteq> nft_sale \<and> \<bar>amount\<bar> \<le> exact_limit
          \<and> (case poolBalances s accountHash of
                None \<Rightarrow> False
              | Some r \<Rightarrow> rowInRange (Some r) \<and> pb_balance r < amount)
      | PoolBuy p \<Rightarrow>
          \<bar>bp_price p\<bar> \<le> exact_limit
          \<and> (case poolBalances s (bp_buyerAccountHash p) of
                None \<Rightarrow> False
              | Some r \<Rightarrow> rowInRange (Some r) \<and> pb_balance r < bp_price p))"

text \<open>
  The life of the nonce store: it starts empty, and then requests are authorized and the
  periodic sweep runs, one after the other (the handler and the sweep are synchronous), each
  at its time. With it the bookkeeping the claims about replay speak of: the pair under
  which a request is recorded, whether a pair is recorded, and the checks that come before
  the look-up of the nonce.
\<close>

definition nonceKey :: "signedRequest \<Rightarrow> string \<times> string" where
  \<comment> \<open>the (signer, nonce) pair as the nonce store keys it\<close>
  "nonceKey sr = (toLowerCase (sr_signer sr), String_number (sd_nonce (sr_data sr)))"

definition nonceUsed :: "nonceStore \<Rightarrow> string \<times> string \<Rightarrow> bool" where
  "nonceUsed ns k = (case usedNonces ns (fst k) of None \<Rightarrow> False | Some used \<Rightarrow> snd k \<in> used)"

record authRequest =
  ar_now :: nat
  ar_signedRequest :: signedRequest
  ar_expectedAccountHash :: string

definition authorized :: "authError + string \<Rightarrow> bool" where
  "authorized res = (case res of Inr signer \<Rightarrow> True | Inl err \<Rightarrow> False)"

definition passesChecks :: "(string \<Rightarrow> string) \<Rightarrow> recover \<Rightarrow> nat \<Rightarrow> signedRequest \<Rightarrow> string \<Rightarrow> bool" where
  \<comment> \<open>the account-hash, signature and expiry checks that precede the look-up of the nonce\<close>
  "passesChecks keccak recover now sr expectedAccountHash =
     (keccak (toLowerCase (sr_signer sr)) = expectedAccountHash
      \<and> verifySignature recover now sr (sr_signer sr)
      \<and> \<not> (sd_expiresAt (sr_data sr) \<noteq> 0 \<and> now > 1000 * sd_expiresAt (sr_data sr)))"

datatype event = Request authRequest | Sweep nat
  \<comment> \<open>a call of \<^verbatim>\<open>verifySignedRequest\<close>, or a run of the \<^verbatim>\<open>setInterval\<close> callback at a time\<close>

definition eventTime :: "event \<Rightarrow> nat" where
  "eventTime ev = (case ev of Request q \<Rightarrow> ar_now q | Sweep now \<Rightarrow> now)"

definition initialStore :: nonceStore where
  \<comment> \<open>the two maps as the module creates them\<close>
  "initialStore = \<lparr>usedNonces = Map.empty, nonceTimestamps = []\<rparr>"

fun serve :: "(string \<Rightarrow> string) \<Rightarrow> recover \<Rightarrow> event list \<Rightarrow> nonceStore \<Rightarrow> nonceStore" where
  "serve keccak recover [] ns = ns"
| "serve keccak recover (ev # evs) ns =
     serve keccak recover evs
       (case ev of
          Request q \<Rightarrow> snd (verifySignedRequest keccak recover (ar_now q) (ar_signedRequest q)
                             (ar_expectedAccountHash q) ns)
        | Sweep now \<Rightarrow> cleanupNonces now ns)"

definition recoversAddresses :: "recover \<Rightarrow> bool" where
  \<comment> \<open>what \<^verbatim>\<open>verifyTypedData\<close> returns is an address, \<^verbatim>\<open>0x\<close> and hexadecimal digits: in
      particular it has no colon, the separator of the keys of \<^verbatim>\<open>nonceTimestamps\<close>\<close>
  "recoversAddresses recover =
     (\<forall>typeName data signature a.
        recover typeName data signature = Some a \<longrightarrow> CHR '':'' \<notin> set a)"

definition storeKeyed :: "nonceStore \<Rightarrow> bool" where
  \<comment> \<open>the keys of \<^verbatim>\<open>nonceTimestamps\<close> are distinct, each a signer and a nonce around one colon\<close>
  "storeKeyed ns =
     (distinct (map fst (nonceTimestamps ns))
      \<and> (\<forall>key \<in> set (map fst (nonceTimestamps ns)).
            \<exists>sg n. key = sg @ '':'' @ n \<and> CHR '':'' \<notin> set sg \<and> CHR '':'' \<notin> set n))"

definition recordedSince :: "string \<times> string \<Rightarrow> nat \<Rightarrow> nonceStore \<Rightarrow> bool" where
  \<comment> \<open>the pair is recorded, with no timestamp before \<open>t0\<close>\<close>
  "recordedSince k t0 ns =
     (nonceUsed ns k
      \<and> (\<forall>ts. (fst k @ '':'' @ snd k, ts) \<in> set (nonceTimestamps ns) \<longrightarrow> t0 \<le> ts))"

section \<open>Example states\<close>

text \<open>
  The scenario of the specification: account \<open>H0xab\<close> has deposited 0.50000000 and buys
  the listing \<open>lst1\<close> of asset \<open>nft1\<close>, priced 0.20000000.
\<close>

definition ex_listing :: listing where
  "ex_listing = \<lparr>l_id = ''lst1'', l_nftId = ''nft1'', l_encryptedSeller = ''Hseller'',
                  l_price = 20000000, l_isActive = True\<rparr>"

definition ex_nft :: nft where
  "ex_nft = \<lparr>n_id = ''nft1'', n_collectionId = Some ''col1'', n_tokenId = 7,
              n_encryptedOwner = ''Hseller''\<rparr>"

definition ex_db :: db where
  "ex_db = \<lparr>collections = [\<lparr>c_id = ''col1'', c_contractAddress = Some ''0xc0''\<rparr>],
             nfts = [ex_nft], listings = [ex_listing], trades = [],
             poolBalances = [''H0xab'' \<mapsto> \<lparr>pb_encryptedOwner = ''H0xab'', pb_balance = 50000000,
                                           pb_totalDeposited = 50000000, pb_totalSpent = 0\<rparr>],
             poolTransactions = []\<rparr>"

definition ex_app :: app where
  "ex_app = \<lparr>app_db = ex_db, app_nonces = \<lparr>usedNonces = Map.empty, nonceTimestamps = []\<rparr>\<rparr>"

definition ex_env :: env where
  "ex_env = \<lparr>e_now = 1700000000000, e_keccak = (\<lambda>s. ''H'' @ s),
              e_recover = (\<lambda>typeName data signature. Some ''0xAB''),
              e_relayerConfigured = True, e_serverFhevmConfigured = True,
              e_statusIsListed = (\<lambda>a t. Some True), e_statusPrice = (\<lambda>a t. Some ''0.2''),
              e_encryptedInput = (\<lambda>a b. Inr (''0x01'', ''0x02'')),
              e_buyIsListed = (\<lambda>a t. Inr True),
              e_buyNFT = (\<lambda>a t h p v. Inr ''0xtx'')\<rparr>"

definition ex_buyBody :: buyBody where
  "ex_buyBody = \<lparr>bb_nftId = ''nft1'', bb_listingId = ''lst1'', bb_encryptedBuyer = ''Hbuyer''\<rparr>"

definition ex_signedRequest :: signedRequest where
  "ex_signedRequest =
     \<lparr>sr_data = \<lparr>sd_action = ''buy'', sd_fields = [''nft1'', ''0.2''], sd_nonce = 41,
                  sd_expiresAt = 1700000300\<rparr>,
      sr_signature = ''0xsig'', sr_signer = ''0xAb''\<rparr>"

definition ex_privateBuyBody :: privateBuyBody where
  "ex_privateBuyBody =
     \<lparr>pv_nftId = ''nft1'', pv_encryptedBuyer = ''H0xab'',
      pv_buyerAddress = ''0x00000000000000000000000000000000000000ab'',
      pv_accountHash = ''H0xab'', pv_signedRequest = ex_signedRequest\<rparr>"

definition ex_env_unlisted :: env where
  "ex_env_unlisted = ex_env\<lparr>e_statusIsListed := (\<lambda>a t. Some False)\<rparr>"

definition ex_env_failing :: env where
  "ex_env_failing = ex_env\<lparr>e_buyNFT := (\<lambda>a t h p v. Inl ''execution reverted'')\<rparr>"

definition ex_request :: relayerBuyRequest where
  "ex_request = \<lparr>rq_collectionAddress = ''0xc0'', rq_tokenId = 7, rq_price = 20000000,
                  rq_encryptedBuyer = ''0x01'', rq_inputProof = ''0x02''\<rparr>"

definition ex_relistBody :: insertListing where
  "ex_relistBody = \<lparr>il_nftId = ''nft1'', il_encryptedSeller = ''Hseller'', il_price = 0,
                     il_isActive = None\<rparr>"

definition ex_overpricedBody :: insertListing where
  \<comment> \<open>a price of 10000000000.00000000\<close>
  "ex_overpricedBody = \<lparr>il_nftId = ''nft1'', il_encryptedSeller = ''Hseller'',
                         il_price = 1000000000000000000, il_isActive = None\<rparr>"

definition ex_authRequest :: authRequest where
  "ex_authRequest = \<lparr>ar_now = 1700000000000, ar_signedRequest = ex_signedRequest,
                      ar_expectedAccountHash = ''H0xab''\<rparr>"

definition ex_env_late :: env where
  "ex_env_late = ex_env\<lparr>e_now := 1700000302000\<rparr>"

definition ex_buyParams :: poolBuyParams where
  "ex_buyParams = \<lparr>bp_nftId = ''nft1'', bp_listingId = ''lst1'', bp_buyerAccountHash = ''H0xab'',
                    bp_encryptedBuyer = ''H0xab'', bp_encryptedSeller = ''Hseller'',
                    bp_price = 20000000, bp_txHash = Some ''0xtx''\<rparr>"

definition ex_db_large :: db where
  \<comment> \<open>an account that holds 33554432.00000010\<close>
  "ex_db_large = ex_db\<lparr>poolBalances :=
      [''H0xab'' \<mapsto> \<lparr>pb_encryptedOwner = ''H0xab'', pb_balance = 3355443200000010,
                       pb_totalDeposited = 3355443200000010, pb_totalSpent = 0\<rparr>]\<rparr>"

definition ex_ops :: "ledgerOp list" where
  \<comment> \<open>a new account: deposit 1.0, sale proceeds 0.2, mint payment 0.3, withdrawal 0.4\<close>
  "ex_ops = [Update ''Hnew'' ''Hnew'' 100000000 deposit,
             Update ''Hnew'' ''Hnew'' 20000000 nft_sale,
             Update ''Hnew'' ''Hnew'' 30000000 mint_payment,
             Update ''Hnew'' ''Hnew'' 40000000 withdraw]"

definition ex_ops_withdraw :: "ledgerOp list" where
  "ex_ops_withdraw = [Update ''Hnew'' ''Hnew'' 100000000 deposit,
                      Update ''Hnew'' ''Hnew'' 40000000 withdraw]"

definition ex_db_huge :: db where
  \<comment> \<open>the account holds 67108864.00000001\<close>
  "ex_db_huge = ex_db\<lparr>poolBalances :=
     [''H0xab'' \<mapsto> \<lparr>pb_encryptedOwner = ''H0xab'', pb_balance = 6710886400000001,
                      pb_totalDeposited = 6710886400000001, pb_totalSpent = 0\<rparr>]\<rparr>"

definition ex_ops_overdraft :: "ledgerOp list" where
  \<comment> \<open>from 0.50000000: a withdrawal of 0.60000000, a deposit of 0.10000000, the withdrawal again\<close>
  "ex_ops_overdraft = [Update ''H0xab'' ''H0xab'' 60000000 withdraw,
                       Update ''H0xab'' ''H0xab'' 10000000 deposit,
                       Update ''H0xab'' ''H0xab'' 60000000 withdraw]"

definition ex_signedRequest_long :: signedRequest where
  \<comment> \<open>the same request, signed to expire an hour later\<close>
  "ex_signedRequest_long =
     \<lparr>sr_data = \<lparr>sd_action = ''buy'', sd_fields = [''nft1'', ''0.2''], sd_nonce = 41,
                  sd_expiresAt = 1700003600\<rparr>,
      sr_signature = ''0xsig'', sr_signer = ''0xAb''\<rparr>"

definition ex_authRequest_long :: authRequest where
  "ex_authRequest_long = \<lparr>ar_now = 1700000000000, ar_signedRequest = ex_signedRequest_long,
                           ar_expectedAccountHash = ''H0xab''\<rparr>"

section \<open>Rounding: how far the double arithmetic is exact\<close>

lemma round_half_even_error: "\<bar>of_int (round_half_even m) - m\<bar> \<le> 1 / 2"
proof -
  have "of_int \<lfloor>m\<rfloor> \<le> m" "m < of_int \<lfloor>m\<rfloor> + 1" by linarith+
  then show ?thesis
    by (auto simp: round_half_even_def Let_def)
qed

lemma round_half_even_nonneg: "0 \<le> m \<Longrightarrow> 0 \<le> round_half_even m"
  by (auto simp: round_half_even_def Let_def)

lemma binexp_le:
  assumes "0 < x"
  shows "2 powi (binexp x) \<le> x"
proof -
  obtain p q where pq: "quotient_of x = (p, q)" by (cases "quotient_of x")
  have q: "0 < q" using pq by (rule quotient_of_denom_pos)
  have x: "x = of_int p / of_int q" using pq by (rule quotient_of_div)
  have p: "0 < p" using assms q unfolding x by (simp add: zero_less_divide_iff)
  let ?k = "bitlen p - bitlen q"
  show ?thesis
  proof (cases "2 powi ?k \<le> x")
    case True
    then show ?thesis by (simp add: binexp_def pq)
  next
    case False
    then have e: "binexp x = ?k - 1" by (simp add: binexp_def pq)
    have bp: "2 ^ nat (bitlen p - 1) \<le> p" using bitlen_bounds [OF p] by simp
    have bq: "q < 2 ^ nat (bitlen q)" using bitlen_bounds [OF q] by simp
    have bp1: "1 \<le> bitlen p" using p by (simp add: bitlen_alt_def)
    have bq0: "0 \<le> bitlen q" by (rule bitlen_nonneg)
    have P: "(2::rat) powi (bitlen p - 1) \<le> of_int p"
    proof -
      have "(of_int (2 ^ nat (bitlen p - 1)) :: rat) \<le> of_int p"
        using bp by (simp only: of_int_le_iff)
      then show ?thesis using bp1 by (simp add: power_int_def)
    qed
    have Q: "of_int q \<le> (2::rat) powi (bitlen q)"
    proof -
      have "(of_int q :: rat) \<le> of_int (2 ^ nat (bitlen q))"
        using bq by (simp only: of_int_le_iff)
      then show ?thesis using bq0 by (simp add: power_int_def)
    qed
    have "(2::rat) powi (?k - 1) = 2 powi (bitlen p - 1) / 2 powi (bitlen q)"
      by (simp add: power_int_diff)
    also have "\<dots> \<le> of_int p / 2 powi (bitlen q)"
      using P by (simp add: divide_right_mono)
    also have "\<dots> \<le> of_int p / of_int q"
      using Q p q by (simp add: divide_left_mono)
    finally have "(2::rat) powi (?k - 1) \<le> of_int p / of_int q" .
    then have "(2::rat) powi (?k - 1) \<le> x" by (simp only: x)
    then show ?thesis by (simp only: e)
  qed
qed


lemma to_double_error:
  assumes "x \<noteq> 0"
  shows "\<bar>to_double x - x\<bar> \<le> 2 powi (binexp \<bar>x\<bar> - 53)"
proof -
  let ?u = "(2::rat) powi (binexp \<bar>x\<bar> - 52)"
  let ?m = "\<bar>x\<bar> / ?u"
  have u: "0 < ?u" by simp
  have td: "to_double x = sgn x * (of_int (round_half_even ?m) * ?u)"
    using assms by (simp add: to_double_def Let_def mult.assoc)
  have xs: "x = sgn x * (?m * ?u)" using u by (simp add: sgn_mult_abs)
  have "to_double x - x = sgn x * ((of_int (round_half_even ?m) - ?m) * ?u)"
    by (subst td, subst (3) xs) (simp only: left_diff_distrib right_diff_distrib)
  then have "\<bar>to_double x - x\<bar> = \<bar>of_int (round_half_even ?m) - ?m\<bar> * ?u"
    using assms u by (simp add: abs_mult abs_sgn_eq)
  also have "\<dots> \<le> (1 / 2) * ?u"
    using round_half_even_error [of ?m] u by (intro mult_right_mono) auto
  also have "\<dots> = 2 powi (binexp \<bar>x\<bar> - 53)"
  proof -
    have "(2::rat) powi (binexp \<bar>x\<bar> - 52) = 2 powi (binexp \<bar>x\<bar> - 53 + 1)" by simp
    also have "\<dots> = 2 powi (binexp \<bar>x\<bar> - 53) * 2"
      by (subst power_int_add) simp_all
    finally show ?thesis by simp
  qed
  finally show ?thesis .
qed

lemma to_double_error_bound:
  assumes "\<bar>x\<bar> < 2 powi k"
  shows "\<bar>to_double x - x\<bar> \<le> 2 powi (k - 54)"
proof (cases "x = 0")
  case True
  then show ?thesis by (simp add: to_double_def)
next
  case False
  then have "0 < \<bar>x\<bar>" by simp
  from binexp_le [OF this] assms have lt: "(2::rat) powi (binexp \<bar>x\<bar>) < 2 powi k" by simp
  have "binexp \<bar>x\<bar> < k"
  proof (rule ccontr)
    assume "\<not> binexp \<bar>x\<bar> < k"
    then have "k \<le> binexp \<bar>x\<bar>" by simp
    then have "(2::rat) powi k \<le> 2 powi (binexp \<bar>x\<bar>)"
      by (intro power_int_increasing) simp_all
    with lt show False by simp
  qed
  then have "binexp \<bar>x\<bar> - 53 \<le> k - 54" by simp
  then have "(2::rat) powi (binexp \<bar>x\<bar> - 53) \<le> 2 powi (k - 54)"
    by (intro power_int_increasing) simp_all
  with to_double_error [OF False] show ?thesis by simp
qed

lemma to_double_nonneg: "0 \<le> x \<Longrightarrow> 0 \<le> to_double x"
  by (auto simp: to_double_def Let_def intro!: mult_nonneg_nonneg round_half_even_nonneg
        divide_nonneg_nonneg)

lemma to_double_zero [simp]: "to_double 0 = 0"
  by (simp add: to_double_def)

lemma toFixed8_nonneg: "0 \<le> x \<Longrightarrow> 0 \<le> toFixed8 x"
  by (simp add: toFixed8_def)

lemma toFixed8_near:
  assumes "\<bar>r - of_int n / 10 ^ 8\<bar> < 1 / (2 * 10 ^ 8)"
  shows "toFixed8 r = n"
proof -
  have d: "\<bar>r * 10 ^ 8 - of_int n\<bar> < 1 / 2"
    using assms by (simp add: abs_less_iff field_simps)
  then have "r * 10 ^ 8 - of_int n < 1 / 2 \<and> - (r * 10 ^ 8 - of_int n) < 1 / 2"
    by (simp only: abs_less_iff)
  then have d1: "r * 10 ^ 8 - of_int n < 1 / 2" and d2: "of_int n - r * 10 ^ 8 < 1 / 2"
    by linarith+
  show ?thesis
  proof (cases "r < 0")
    case True
    have "\<lfloor>- r * 10 ^ 8 + 1 / 2\<rfloor> = - n"
    proof (rule floor_unique)
      have "- of_int n \<le> - r * 10 ^ 8 + (1 / 2 :: rat)" using d1 by linarith
      then show "of_int (- n) \<le> - r * 10 ^ 8 + (1 / 2 :: rat)" by simp
      have "- r * 10 ^ 8 + (1 / 2 :: rat) < - of_int n + 1" using d2 by linarith
      then show "- r * 10 ^ 8 + (1 / 2 :: rat) < of_int (- n) + 1" by simp
    qed
    with True show ?thesis by (simp add: toFixed8_def)
  next
    case False
    have "\<lfloor>r * 10 ^ 8 + 1 / 2\<rfloor> = n"
    proof (rule floor_unique)
      show "of_int n \<le> r * 10 ^ 8 + (1 / 2 :: rat)" using d2 by linarith
      show "r * 10 ^ 8 + (1 / 2 :: rat) < of_int n + 1" using d1 by linarith
    qed
    with False show ?thesis by (simp add: toFixed8_def)
  qed
qed

lemma pow2_values:
  "(2::rat) powi (- 30) = 1 / 1073741824"
  "(2::rat) powi (- 29) = 1 / 536870912"
  "(2::rat) powi 24 = 16777216"
  "(2::rat) powi 25 = 33554432"
  by (simp_all add: power_int_minus_divide)

lemma parseFloat_error:
  assumes "\<bar>a\<bar> \<le> exact_limit"
  shows "\<bar>parseFloat a - of_int a / 10 ^ 8\<bar> \<le> 2 powi (- 30)"
proof -
  have "\<bar>(of_int a :: rat)\<bar> \<le> of_int exact_limit"
    using assms by (simp only: of_int_abs [symmetric] of_int_le_iff)
  then have "\<bar>(of_int a :: rat) / 10 ^ 8\<bar> \<le> 10 ^ 7"
    by (simp add: exact_limit_def abs_divide field_simps)
  also have "(10 ^ 7 :: rat) < 2 powi 24" by (simp add: pow2_values)
  finally have "\<bar>to_double (of_int a / 10 ^ 8) - of_int a / 10 ^ 8\<bar> \<le> 2 powi (24 - 54)"
    by (rule to_double_error_bound)
  then show ?thesis by (simp add: parseFloat_def)
qed

lemma parseFloat_bound:
  assumes "\<bar>a\<bar> \<le> exact_limit"
  shows "\<bar>parseFloat a\<bar> \<le> 10 ^ 7 + 2 powi (- 30)"
proof -
  have "\<bar>(of_int a :: rat)\<bar> \<le> of_int exact_limit"
    using assms by (simp only: of_int_abs [symmetric] of_int_le_iff)
  then have "\<bar>(of_int a :: rat) / 10 ^ 8\<bar> \<le> 10 ^ 7"
    by (simp add: exact_limit_def abs_divide field_simps)
  with parseFloat_error [OF assms] show ?thesis by linarith
qed

lemma abs_error_sum:
  fixes t :: rat
  assumes "\<bar>t - (x + y)\<bar> \<le> e1" "\<bar>x - x'\<bar> \<le> e2" "\<bar>y - y'\<bar> \<le> e2"
  shows "\<bar>t - (x' + y')\<bar> \<le> e1 + 2 * e2"
  using assms by linarith

lemma double_sum_error:
  assumes "\<bar>x - x'\<bar> \<le> 2 powi (- 30)" "\<bar>y - y'\<bar> \<le> 2 powi (- 30)"
      and "\<bar>x\<bar> \<le> 10 ^ 7 + 2 powi (- 30)" "\<bar>y\<bar> \<le> 10 ^ 7 + 2 powi (- 30)"
  shows "\<bar>to_double (x + y) - (x' + y')\<bar> < 1 / (2 * 10 ^ 8)"
proof -
  have "\<bar>x + y\<bar> \<le> 2 * 10 ^ 7 + 2 * 2 powi (- 30)" using assms(3,4) by linarith
  also have "\<dots> < (2::rat) powi 25" by (simp add: pow2_values)
  finally have "\<bar>to_double (x + y) - (x + y)\<bar> \<le> 2 powi (25 - 54)"
    by (rule to_double_error_bound)
  then have "\<bar>to_double (x + y) - (x + y)\<bar> \<le> 1 / 536870912"
    by (simp only: pow2_values [symmetric]) simp
  then have "\<bar>to_double (x + y) - (x' + y')\<bar> \<le> 1 / 536870912 + 2 * 2 powi (- 30)"
    using assms(1,2) by (rule abs_error_sum)
  also have "\<dots> < (1 / (2 * 10 ^ 8) :: rat)" by (simp add: pow2_values)
  finally show ?thesis .
qed


lemma exact_fadd:
  assumes "\<bar>a\<bar> \<le> exact_limit" "\<bar>b\<bar> \<le> exact_limit"
  shows "toFixed8 (fadd (parseFloat a) (parseFloat b)) = a + b"
proof -
  have "\<bar>to_double (parseFloat a + parseFloat b) - (of_int a / 10 ^ 8 + of_int b / 10 ^ 8)\<bar>
          < 1 / (2 * 10 ^ 8)"
    by (intro double_sum_error parseFloat_error parseFloat_bound assms)
  then have "\<bar>fadd (parseFloat a) (parseFloat b) - of_int (a + b) / 10 ^ 8\<bar> < 1 / (2 * 10 ^ 8)"
    by (simp add: fadd_def add_divide_distrib)
  then show ?thesis by (rule toFixed8_near)
qed

lemma fsub_error:
  assumes "\<bar>a\<bar> \<le> exact_limit" "\<bar>b\<bar> \<le> exact_limit"
  shows "\<bar>fsub (parseFloat a) (parseFloat b) - of_int (a - b) / 10 ^ 8\<bar> < 1 / (2 * 10 ^ 8)"
proof -
  have e: "\<bar>- parseFloat b - - (of_int b / 10 ^ 8)\<bar> \<le> 2 powi (- 30)"
    using parseFloat_error [OF assms(2)] by (simp only: abs_minus_commute minus_diff_minus abs_minus)
  have m: "\<bar>- parseFloat b\<bar> \<le> 10 ^ 7 + 2 powi (- 30)"
    using parseFloat_bound [OF assms(2)] by (simp only: abs_minus)
  have "\<bar>to_double (parseFloat a + - parseFloat b)
          - (of_int a / 10 ^ 8 + - (of_int b / 10 ^ 8))\<bar> < 1 / (2 * 10 ^ 8)"
    by (intro double_sum_error parseFloat_error parseFloat_bound assms e m)
  then show ?thesis
    by (simp add: fsub_def diff_divide_distrib)
qed

lemma exact_fsub:
  assumes "\<bar>a\<bar> \<le> exact_limit" "\<bar>b\<bar> \<le> exact_limit"
  shows "toFixed8 (fsub (parseFloat a) (parseFloat b)) = a - b"
  using fsub_error [OF assms] by (rule toFixed8_near)

lemma exact_roundtrip:
  assumes "\<bar>a\<bar> \<le> exact_limit"
  shows "toFixed8 (parseFloat a) = a"
proof -
  have "(2::rat) powi (- 30) < 1 / (2 * 10 ^ 8)" by (simp add: pow2_values)
  with parseFloat_error [OF assms] show ?thesis
    by (intro toFixed8_near) linarith
qed

lemma unit_gap:
  assumes "a < b"
  shows "(of_int a :: rat) / 10 ^ 8 + 1 / 10 ^ 8 \<le> of_int b / 10 ^ 8"
proof -
  from assms have "a + 1 \<le> b" by simp
  then have "(of_int (a + 1) :: rat) \<le> of_int b" by (simp only: of_int_le_iff)
  then show ?thesis by (simp add: field_simps)
qed

lemma gap_less:
  fixes p q :: rat
  assumes "\<bar>p - x\<bar> \<le> e" "\<bar>q - y\<bar> \<le> e" "x + g \<le> y" "2 * e < g"
  shows "p < q"
  using assms by linarith

lemma gap_sign:
  fixes t :: rat
  assumes "\<bar>t - (x - y)\<bar> < h" "h \<le> g"
  shows "x + g \<le> y \<Longrightarrow> t < 0" and "y + g \<le> x \<Longrightarrow> 0 < t"
  using assms by linarith+

lemma parseFloat_less_iff:
  assumes "\<bar>a\<bar> \<le> exact_limit" "\<bar>b\<bar> \<le> exact_limit"
  shows "parseFloat a < parseFloat b \<longleftrightarrow> a < b"
proof -
  have e: "2 * (2::rat) powi (- 30) < 1 / 10 ^ 8" by (simp add: pow2_values)
  have lt: "parseFloat x < parseFloat y"
    if "x < y" "\<bar>x\<bar> \<le> exact_limit" "\<bar>y\<bar> \<le> exact_limit" for x y
    using parseFloat_error [OF that(2)] parseFloat_error [OF that(3)] unit_gap [OF that(1)] e
    by (rule gap_less)
  show ?thesis
  proof (cases a b rule: linorder_cases)
    case less
    with lt [OF less assms] show ?thesis by simp
  next
    case equal
    then show ?thesis by simp
  next
    case greater
    with lt [OF greater assms(2,1)] show ?thesis by simp
  qed
qed

lemma fsub_neg_iff:
  assumes "\<bar>a\<bar> \<le> exact_limit" "\<bar>b\<bar> \<le> exact_limit"
  shows "fsub (parseFloat a) (parseFloat b) < 0 \<longleftrightarrow> a < b"
proof -
  have d: "(of_int (a - b) :: rat) / 10 ^ 8 = of_int a / 10 ^ 8 - of_int b / 10 ^ 8"
    by (simp add: diff_divide_distrib)
  have err: "\<bar>fsub (parseFloat a) (parseFloat b) - (of_int a / 10 ^ 8 - of_int b / 10 ^ 8)\<bar>
               < 1 / (2 * 10 ^ 8)"
    using fsub_error [OF assms] by (simp only: d)
  have h: "(1 / (2 * 10 ^ 8) :: rat) \<le> 1 / 10 ^ 8" by simp
  show ?thesis
  proof (cases a b rule: linorder_cases)
    case less
    from gap_sign(1) [OF err h unit_gap [OF less]] less show ?thesis by simp
  next
    case equal
    then show ?thesis by (simp add: fsub_def)
  next
    case greater
    from gap_sign(2) [OF err h unit_gap [OF greater]] greater show ?thesis by simp
  qed
qed

section \<open>The public buy route\<close>

lemma buyRoute_cases:
  "buyRoute e b a =
     (case getNftById (app_db a) (bb_nftId b) of
        None \<Rightarrow> reply a [] 404 (ErrorBody ''NFT not found'')
      | Some nft \<Rightarrow>
          (case getListingByNftId (app_db a) (bb_nftId b) of
             None \<Rightarrow> reply a [] 400 (ErrorBody ''NFT is not listed for sale'')
           | Some listing \<Rightarrow>
               if \<not> l_isActive listing \<or> l_id listing \<noteq> bb_listingId b
               then reply a [] 400 (ErrorBody ''NFT is not listed for sale'')
               else
                 (case deployedAddress (getCollectionById (app_db a) (n_collectionId nft)) of
                    Some contractAddress \<Rightarrow>
                      if \<not> ocs_isListed (checkOnChainListingStatus e contractAddress (n_tokenId nft))
                      then reply (a\<lparr>app_db := deactivateListing (l_id listing) (app_db a)\<rparr>)
                             [CheckOnChainListingStatus contractAddress (n_tokenId nft)] 400
                             (ErrorBody ''NFT is no longer listed for sale. The listing has been updated.'')
                      else if n_encryptedOwner nft = bb_encryptedBuyer b
                      then reply a [CheckOnChainListingStatus contractAddress (n_tokenId nft)] 400
                             (ErrorBody ''You already own this NFT'')
                      else reply (a\<lparr>app_db := deactivateListing (bb_listingId b)
                               (updateNftOwner (bb_nftId b) (bb_encryptedBuyer b)
                                 (createTrade \<lparr>t_nftId = bb_nftId b,
                                     t_encryptedBuyer = bb_encryptedBuyer b,
                                     t_encryptedSeller = l_encryptedSeller listing,
                                     t_price = l_price listing\<rparr> (app_db a)))\<rparr>)
                             [CheckOnChainListingStatus contractAddress (n_tokenId nft)] 200
                             (Purchased (l_price listing))
                  | None \<Rightarrow>
                      if n_encryptedOwner nft = bb_encryptedBuyer b
                      then reply a [] 400 (ErrorBody ''You already own this NFT'')
                      else reply (a\<lparr>app_db := deactivateListing (bb_listingId b)
                               (updateNftOwner (bb_nftId b) (bb_encryptedBuyer b)
                                 (createTrade \<lparr>t_nftId = bb_nftId b,
                                     t_encryptedBuyer = bb_encryptedBuyer b,
                                     t_encryptedSeller = l_encryptedSeller listing,
                                     t_price = l_price listing\<rparr> (app_db a)))\<rparr>)
                             [] 200 (Purchased (l_price listing)))))"
  unfolding buyRoute_def Let_def
  by (simp split: option.split)


lemma getNftById_updateNftOwner:
  "getNftById (updateNftOwner i w s) i = map_option (\<lambda>n. n\<lparr>n_encryptedOwner := w\<rparr>) (getNftById s i)"
proof -
  have "find (\<lambda>n. n_id n = i) (map (\<lambda>n. if n_id n = i then n\<lparr>n_encryptedOwner := w\<rparr> else n) xs)
        = map_option (\<lambda>n. n\<lparr>n_encryptedOwner := w\<rparr>) (find (\<lambda>n. n_id n = i) xs)"
    for xs :: "nft list"
    by (induction xs) auto
  then show ?thesis by (simp add: getNftById_def updateNftOwner_def)
qed

lemma getNftById_frame [simp]:
  "getNftById (deactivateListing i s) = getNftById s"
  "getNftById (createTrade t s) = getNftById s"
  by (simp_all add: getNftById_def deactivateListing_def createTrade_def fun_eq_iff)

lemma getListingByNftId_active:
  "getListingByNftId s n = Some l \<Longrightarrow> l_isActive l \<and> l_nftId l = n \<and> l \<in> set (listings s)"
  by (auto simp: getListingByNftId_def find_Some_iff)

text \<open>
  C10. A successful \<^verbatim>\<open>POST /api/buy\<close> (status 200) found the asset, its active listing
  with the id of the request, and an owner other than the buyer; it appends one Trade
  record, sets the ownership pointer of the asset to the buyer, deactivates the listing,
  and leaves every pool balance, the pool transaction history and the nonce store as they
  were. The handler takes no signed request, and its result does not depend on the
  signature primitives.
\<close>

theorem buy_route_success:
  assumes ok: "rr_status (buyRoute e b a) = 200"
  shows "\<exists>nft listing.
           getNftById (app_db a) (bb_nftId b) = Some nft
         \<and> getListingByNftId (app_db a) (bb_nftId b) = Some listing
         \<and> l_id listing = bb_listingId b
         \<and> n_encryptedOwner nft \<noteq> bb_encryptedBuyer b
         \<and> trades (app_db (rr_app (buyRoute e b a))) =
             trades (app_db a) @
               [\<lparr>t_nftId = bb_nftId b, t_encryptedBuyer = bb_encryptedBuyer b,
                 t_encryptedSeller = l_encryptedSeller listing, t_price = l_price listing\<rparr>]
         \<and> getNftById (app_db (rr_app (buyRoute e b a))) (bb_nftId b) =
             Some (nft\<lparr>n_encryptedOwner := bb_encryptedBuyer b\<rparr>)
         \<and> listings (app_db (rr_app (buyRoute e b a))) =
             listings (deactivateListing (bb_listingId b) (app_db a))
         \<and> poolBalances (app_db (rr_app (buyRoute e b a))) = poolBalances (app_db a)
         \<and> poolTransactions (app_db (rr_app (buyRoute e b a))) = poolTransactions (app_db a)
         \<and> app_nonces (rr_app (buyRoute e b a)) = app_nonces a
         \<and> (\<forall>k r. buyRoute (e\<lparr>e_keccak := k, e_recover := r\<rparr>) b a = buyRoute e b a)"
proof -
  have c: "checkOnChainListingStatus (e\<lparr>e_keccak := k, e_recover := r\<rparr>) =
           checkOnChainListingStatus e" for k r
    by (auto simp: fun_eq_iff checkOnChainListingStatus_def split: option.splits)
  have indep: "buyRoute (e\<lparr>e_keccak := k, e_recover := r\<rparr>) b a = buyRoute e b a" for k r
    unfolding buyRoute_cases c ..
  obtain nft where nft: "getNftById (app_db a) (bb_nftId b) = Some nft"
    using ok by (cases "getNftById (app_db a) (bb_nftId b)") (simp_all add: buyRoute_cases reply_def)
  obtain listing where listing: "getListingByNftId (app_db a) (bb_nftId b) = Some listing"
    using ok nft by (cases "getListingByNftId (app_db a) (bb_nftId b)")
                    (simp_all add: buyRoute_cases reply_def)
  have lid: "l_id listing = bb_listingId b"
    using ok nft listing by (simp add: buyRoute_cases reply_def split: if_splits)
  have act: "l_isActive listing"
    using listing by (simp add: getListingByNftId_active)
  have own: "n_encryptedOwner nft \<noteq> bb_encryptedBuyer b"
    using ok nft listing lid act
    by (simp add: buyRoute_cases reply_def split: if_splits option.splits)
  let ?s3 = "deactivateListing (bb_listingId b)
               (updateNftOwner (bb_nftId b) (bb_encryptedBuyer b)
                  (createTrade \<lparr>t_nftId = bb_nftId b, t_encryptedBuyer = bb_encryptedBuyer b,
                     t_encryptedSeller = l_encryptedSeller listing, t_price = l_price listing\<rparr>
                     (app_db a)))"
  have r: "rr_app (buyRoute e b a) = a\<lparr>app_db := ?s3\<rparr>"
    using ok nft listing lid act own
    by (simp add: buyRoute_cases reply_def split: if_splits option.splits)
  have g: "getNftById ?s3 (bb_nftId b) = Some (nft\<lparr>n_encryptedOwner := bb_encryptedBuyer b\<rparr>)"
    using nft by (simp add: getNftById_updateNftOwner)
  have t: "trades ?s3 = trades (app_db a) @
               [\<lparr>t_nftId = bb_nftId b, t_encryptedBuyer = bb_encryptedBuyer b,
                 t_encryptedSeller = l_encryptedSeller listing, t_price = l_price listing\<rparr>]"
    by (simp add: deactivateListing_def updateNftOwner_def createTrade_def)
  have l: "listings ?s3 = listings (deactivateListing (bb_listingId b) (app_db a))"
    by (simp add: deactivateListing_def updateNftOwner_def createTrade_def)
  have p: "poolBalances ?s3 = poolBalances (app_db a)"
          "poolTransactions ?s3 = poolTransactions (app_db a)"
    by (simp_all add: deactivateListing_def updateNftOwner_def createTrade_def)
  show ?thesis
    using nft listing lid own g t l p indep by (simp add: r)
qed

theorem buy_route_success_witness:
  "rr_status (buyRoute ex_env ex_buyBody ex_app) = 200
   \<and> trades (app_db (rr_app (buyRoute ex_env ex_buyBody ex_app))) =
       [\<lparr>t_nftId = ''nft1'', t_encryptedBuyer = ''Hbuyer'', t_encryptedSeller = ''Hseller'',
         t_price = 20000000\<rparr>]
   \<and> getNftById (app_db (rr_app (buyRoute ex_env ex_buyBody ex_app))) ''nft1'' =
       Some (ex_nft\<lparr>n_encryptedOwner := ''Hbuyer''\<rparr>)
   \<and> listings (app_db (rr_app (buyRoute ex_env ex_buyBody ex_app))) =
       [ex_listing\<lparr>l_isActive := False\<rparr>]
   \<and> poolBalances (app_db (rr_app (buyRoute ex_env ex_buyBody ex_app))) = poolBalances ex_db"
proof -
  have ok: "rr_status (buyRoute ex_env ex_buyBody ex_app) = 200"
    by (simp add: buyRoute_cases reply_def ex_env_def ex_buyBody_def ex_app_def ex_db_def
          ex_nft_def ex_listing_def getNftById_def getListingByNftId_def getCollectionById_def
          deployedAddress_def checkOnChainListingStatus_def)
  have g: "getNftById ex_db ''nft1'' = Some ex_nft"
          "getListingByNftId ex_db ''nft1'' = Some ex_listing"
    by (simp_all add: ex_db_def ex_nft_def ex_listing_def getNftById_def getListingByNftId_def)
  show ?thesis
    using ok buy_route_success [OF ok] g
    by (simp add: ex_buyBody_def ex_app_def deactivateListing_def)
       (simp add: ex_db_def ex_listing_def)
qed


section \<open>Authorization and replay\<close>

lemma verify_outcomes:
  "verifySignedRequest keccak recover now sr h ns =
     (if keccak (toLowerCase (sr_signer sr)) \<noteq> h then (Inl AccountHashMismatch, ns)
      else if \<not> verifySignature recover now sr (sr_signer sr) then (Inl InvalidSignature, ns)
      else if sd_expiresAt (sr_data sr) \<noteq> 0 \<and> now > 1000 * sd_expiresAt (sr_data sr)
      then (Inl RequestExpired, ns)
      else if nonceUsed ns (nonceKey sr) then (Inl ReplayDetected, ns)
      else (Inr (sr_signer sr),
            ns\<lparr>usedNonces := (usedNonces ns)(fst (nonceKey sr) \<mapsto>
                   insert (snd (nonceKey sr))
                     (case usedNonces ns (fst (nonceKey sr)) of None \<Rightarrow> {} | Some used \<Rightarrow> used)),
               nonceTimestamps :=
                 map_set (fst (nonceKey sr) @ '':'' @ snd (nonceKey sr)) now (nonceTimestamps ns)\<rparr>))"
  by (auto simp: verifySignedRequest_def nonceUsed_def nonceKey_def Let_def split: option.splits)

lemma verify_keeps_used:
  "nonceUsed ns k \<Longrightarrow> nonceUsed (snd (verifySignedRequest keccak recover now sr h ns)) k"
  by (auto simp: verify_outcomes nonceUsed_def split: option.splits)

lemma verify_success_uses:
  assumes "authorized (fst (verifySignedRequest keccak recover now sr h ns))"
  shows "\<not> nonceUsed ns (nonceKey sr)"
    and "nonceUsed (snd (verifySignedRequest keccak recover now sr h ns)) (nonceKey sr)"
  using assms by (auto simp: verify_outcomes authorized_def nonceUsed_def split: if_splits)

lemma verify_replay:
  assumes "nonceUsed ns (nonceKey sr)"
  shows "verifySignedRequest keccak recover now sr h ns =
           (Inl (if keccak (toLowerCase (sr_signer sr)) \<noteq> h then AccountHashMismatch
                 else if \<not> verifySignature recover now sr (sr_signer sr) then InvalidSignature
                 else if sd_expiresAt (sr_data sr) \<noteq> 0 \<and> now > 1000 * sd_expiresAt (sr_data sr)
                 then RequestExpired else ReplayDetected), ns)"
  using assms by (simp add: verify_outcomes)

lemma ex_auth:
  "verifySignedRequest (e_keccak ex_env) (e_recover ex_env) (e_now ex_env) ex_signedRequest
     ''H0xab'' \<lparr>usedNonces = Map.empty, nonceTimestamps = []\<rparr> =
   (Inr ''0xAb'', \<lparr>usedNonces = [''0xab'' \<mapsto> {''41''}],
                   nonceTimestamps = [(''0xab:41'', 1700000000000)]\<rparr>)"
  by (simp add: verifySignedRequest_def verifySignature_def isSignatureExpired_def
        getTypeName_def toLowerCase_def ex_env_def ex_signedRequest_def Let_def
        String_number.simps)


lemma ex_first:
  "verifySignedRequest (e_keccak ex_env) (e_recover ex_env) 1700000000000 ex_signedRequest
     ''H0xab'' initialStore =
   (Inr ''0xAb'', \<lparr>usedNonces = [''0xab'' \<mapsto> {''41''}],
                   nonceTimestamps = [(''0xab:41'', 1700000000000)]\<rparr>)"
  using ex_auth by (simp add: initialStore_def ex_env_def)

lemma ex_key: "nonceKey ex_signedRequest = (''0xab'', ''41'')"
  by (simp add: nonceKey_def ex_signedRequest_def toLowerCase_def String_number.simps)

text \<open>
  The sweep forgets a pair only through a key of \<^verbatim>\<open>nonceTimestamps\<close> that is older than
  twice \<^verbatim>\<open>NONCE_EXPIRY_MS\<close>. The keys are written by authorized requests only, whose
  signer is the recovered address and whose nonce is a number, so each key splits at its
  one colon into the pair it was written for; and a pair that was recorded at \<open>t0\<close> stays
  recorded through every request and every sweep up to ten minutes after \<open>t0\<close>.
\<close>

lemma colon_toLowerCase: "CHR '':'' \<in> set (toLowerCase s) \<longleftrightarrow> CHR '':'' \<in> set s"
proof -
  have f: "(case map_of (zip ''ABCDEFGHIJKLMNOPQRSTUVWXYZ'' ''abcdefghijklmnopqrstuvwxyz'') c of
              Some l \<Rightarrow> l | None \<Rightarrow> c) = CHR '':'' \<longleftrightarrow> c = CHR '':''" for c
    by (simp split: option.split)
  let ?g = "\<lambda>c. case map_of (zip ''ABCDEFGHIJKLMNOPQRSTUVWXYZ'' ''abcdefghijklmnopqrstuvwxyz'') c of
              Some l \<Rightarrow> l | None \<Rightarrow> c"
  have "CHR '':'' \<in> ?g ` set s \<longleftrightarrow> CHR '':'' \<in> set s"
  proof
    assume "CHR '':'' \<in> ?g ` set s"
    then obtain c where c: "c \<in> set s" "?g c = CHR '':''" by (auto simp only: image_iff)
    from c(2) have "c = CHR '':''" by (simp only: f)
    with c(1) show "CHR '':'' \<in> set s" by simp
  next
    assume a: "CHR '':'' \<in> set s"
    have "?g (CHR '':'') = CHR '':''" by (simp only: f)
    with a show "CHR '':'' \<in> ?g ` set s" by (metis (no_types, lifting) image_eqI)
  qed
  then show ?thesis
    unfolding toLowerCase_def by (simp only: set_map)
qed

lemma colon_String_number: "CHR '':'' \<notin> set (String_number n)"
proof (induction n rule: String_number.induct)
  case (1 n)
  have d: "CHR '':'' \<noteq> ''0123456789'' ! m" if "m < 10" for m
  proof -
    from that have "''0123456789'' ! m \<in> set ''0123456789''" by (intro nth_mem) simp
    then show ?thesis by auto
  qed
  show ?case
  proof (cases "n < 10")
    case True
    then show ?thesis by (subst String_number.simps) (simp add: d)
  next
    case False
    then have "CHR '':'' \<notin> set (String_number (n div 10))" by (rule 1)
    with False show ?thesis by (subst String_number.simps) (simp add: d)
  qed
qed

lemma split_colon_free: "CHR '':'' \<notin> set b \<Longrightarrow> split_colon b = [b]"
  by (induction b) auto

lemma split_colon_key:
  "CHR '':'' \<notin> set a \<Longrightarrow> CHR '':'' \<notin> set b \<Longrightarrow> split_colon (a @ CHR '':'' # b) = [a, b]"
  by (induction a) (auto simp: split_colon_free)

lemma forgetNonce_timestamps:
  "nonceTimestamps (forgetNonce key ns) = filter (\<lambda>(k, t). k \<noteq> key) (nonceTimestamps ns)"
  by (simp add: forgetNonce_def Let_def split: list.splits option.splits)

lemma forgetNonce_used:
  assumes "key = a @ '':'' @ b" "CHR '':'' \<notin> set a" "CHR '':'' \<notin> set b"
      and "nonceUsed ns k" "k \<noteq> (a, b)"
  shows "nonceUsed (forgetNonce key ns) k"
  using assms(4,5)
  by (cases k)
     (auto simp: forgetNonce_def Let_def assms(1) split_colon_key [OF assms(2,3)] nonceUsed_def
           split: option.splits)

lemma fold_forget_timestamps:
  "nonceTimestamps (fold forgetNonce keys ns) =
     filter (\<lambda>(k, t). k \<notin> set keys) (nonceTimestamps ns)"
proof (induction keys arbitrary: ns)
  case Nil
  then show ?case by simp
next
  case (Cons key keys)
  have "filter (\<lambda>(k, t). k \<notin> set keys) (filter (\<lambda>(k, t). k \<noteq> key) xs) =
        filter (\<lambda>(k, t). k \<notin> set (key # keys)) xs" for xs :: "(string \<times> nat) list"
    by (induction xs) auto
  then show ?case by (simp add: Cons.IH forgetNonce_timestamps)
qed

lemma fold_forget_used:
  assumes "\<forall>key \<in> set keys. key \<noteq> fst k @ '':'' @ snd k
             \<and> (\<exists>sg n. key = sg @ '':'' @ n \<and> CHR '':'' \<notin> set sg \<and> CHR '':'' \<notin> set n)"
      and "nonceUsed ns k"
  shows "nonceUsed (fold forgetNonce keys ns) k"
  using assms
proof (induction keys arbitrary: ns)
  case Nil
  then show ?case by simp
next
  case (Cons key keys)
  then obtain sg n where key: "key = sg @ '':'' @ n" "CHR '':'' \<notin> set sg" "CHR '':'' \<notin> set n"
    and ne: "key \<noteq> fst k @ '':'' @ snd k"
    by auto
  from key(1) ne have "k \<noteq> (sg, n)" by auto
  from forgetNonce_used [OF key Cons.prems(2) this]
  have "nonceUsed (forgetNonce key ns) k" .
  with Cons show ?case by simp
qed

lemma cleanup_timestamps:
  "\<exists>P. nonceTimestamps (cleanupNonces now ns) = filter P (nonceTimestamps ns)"
  unfolding cleanupNonces_def Let_def fold_forget_timestamps by blast

lemma cleanup_keyed: "storeKeyed ns \<Longrightarrow> storeKeyed (cleanupNonces now ns)"
proof -
  assume k: "storeKeyed ns"
  obtain P where P: "nonceTimestamps (cleanupNonces now ns) = filter P (nonceTimestamps ns)"
    using cleanup_timestamps by blast
  from k have "distinct (map fst (filter P (nonceTimestamps ns)))"
    unfolding storeKeyed_def by (intro distinct_map_filter) simp
  with k show ?thesis
    unfolding storeKeyed_def P by auto
qed

lemma cleanup_recorded:
  assumes k: "storeKeyed ns" and r: "recordedSince k t0 ns"
      and t: "now \<le> t0 + 2 * NONCE_EXPIRY_MS"
  shows "recordedSince k t0 (cleanupNonces now ns)"
proof -
  let ?keys = "map fst (filter (\<lambda>(nonceKey, timestamp).
                   int now - int timestamp > int (NONCE_EXPIRY_MS * 2)) (nonceTimestamps ns))"
  have keys: "\<forall>key \<in> set ?keys. key \<noteq> fst k @ '':'' @ snd k
             \<and> (\<exists>sg n. key = sg @ '':'' @ n \<and> CHR '':'' \<notin> set sg \<and> CHR '':'' \<notin> set n)"
  proof
    fix key assume "key \<in> set ?keys"
    then obtain ts where e: "(key, ts) \<in> set (nonceTimestamps ns)"
      "int now - int ts > int (NONCE_EXPIRY_MS * 2)" by auto
    have "key \<noteq> fst k @ '':'' @ snd k"
    proof
      assume "key = fst k @ '':'' @ snd k"
      with e(1) r have "t0 \<le> ts" by (simp add: recordedSince_def)
      with t e(2) show False by simp
    qed
    moreover from e(1) k
    have "\<exists>sg n. key = sg @ '':'' @ n \<and> CHR '':'' \<notin> set sg \<and> CHR '':'' \<notin> set n"
      unfolding storeKeyed_def by force
    ultimately show "key \<noteq> fst k @ '':'' @ snd k
             \<and> (\<exists>sg n. key = sg @ '':'' @ n \<and> CHR '':'' \<notin> set sg \<and> CHR '':'' \<notin> set n)" ..
  qed
  from r have u: "nonceUsed ns k" by (simp add: recordedSince_def)
  have "nonceUsed (cleanupNonces now ns) k"
    unfolding cleanupNonces_def Let_def by (rule fold_forget_used [OF keys u])
  moreover obtain P where "nonceTimestamps (cleanupNonces now ns) = filter P (nonceTimestamps ns)"
    using cleanup_timestamps by blast
  ultimately show ?thesis
    using r by (simp add: recordedSince_def)
qed

lemma map_set_subset: "set (map_set k v xs) \<subseteq> insert (k, v) (set xs)"
  by (induction k v xs rule: map_set.induct) auto

lemma map_set_keys: "set (map fst (map_set k v xs)) = insert k (set (map fst xs))"
  by (induction k v xs rule: map_set.induct) auto

lemma map_set_distinct: "distinct (map fst xs) \<Longrightarrow> distinct (map fst (map_set k v xs))"
proof (induction k v xs rule: map_set.induct)
  case (1 k v)
  then show ?case by simp
next
  case (2 k v k' v' rest)
  have "set (map fst (map_set k v rest)) = insert k (set (map fst rest))"
    by (rule map_set_keys)
  with 2 show ?case by auto
qed

lemma map_set_value:
  "distinct (map fst xs) \<Longrightarrow> (k, t) \<in> set (map_set k v xs) \<Longrightarrow> t = v"
proof (induction k v xs rule: map_set.induct)
  case (1 k v)
  then show ?case by simp
next
  case (2 k v k' v' rest)
  show ?case
  proof (cases "k' = k")
    case True
    with 2(2) have "k \<notin> fst ` set rest" by simp
    then have "(k, t) \<notin> set rest" by (metis fst_conv image_eqI)
    with 2(3) True show ?thesis by simp
  next
    case False
    with 2 show ?thesis by simp
  qed
qed

lemma authorized_signer:
  assumes "recoversAddresses recover" "verifySignature recover now sr x"
  shows "CHR '':'' \<notin> set (toLowerCase (sr_signer sr))"
proof -
  from assms(2) obtain t a where a: "recover t (sr_data sr) (sr_signature sr) = Some a"
    "toLowerCase a = toLowerCase (sr_signer sr)"
    by (auto simp: verifySignature_def Let_def split: if_splits option.splits)
  from assms(1) a(1) have "CHR '':'' \<notin> set a" unfolding recoversAddresses_def by blast
  then have "CHR '':'' \<notin> set (toLowerCase a)" by (simp add: colon_toLowerCase)
  then show ?thesis by (simp add: a(2))
qed

lemma verify_keyed:
  assumes "recoversAddresses recover" "storeKeyed ns"
  shows "storeKeyed (snd (verifySignedRequest keccak recover now sr h ns))"
proof (cases "authorized (fst (verifySignedRequest keccak recover now sr h ns))")
  case False
  then show ?thesis
    using assms(2) by (auto simp: verify_outcomes authorized_def split: if_splits)
next
  case True
  then have v: "verifySignature recover now sr (sr_signer sr)"
    by (auto simp: verify_outcomes authorized_def split: if_splits)
  let ?key = "fst (nonceKey sr) @ '':'' @ snd (nonceKey sr)"
  have s: "nonceTimestamps (snd (verifySignedRequest keccak recover now sr h ns)) =
             map_set ?key now (nonceTimestamps ns)"
    using True by (auto simp: verify_outcomes authorized_def split: if_splits)
  have wf: "CHR '':'' \<notin> set (fst (nonceKey sr))" "CHR '':'' \<notin> set (snd (nonceKey sr))"
    using authorized_signer [OF assms(1) v] by (simp_all add: nonceKey_def colon_String_number)
  show ?thesis
    using assms(2) wf unfolding storeKeyed_def s map_set_keys
    by (auto simp: map_set_distinct)
qed

lemma verify_recorded_keep:
  assumes "recordedSince k t0 ns" "t0 \<le> now"
  shows "recordedSince k t0 (snd (verifySignedRequest keccak recover now sr h ns))"
proof -
  from assms(1) have "nonceUsed ns k" by (simp add: recordedSince_def)
  then have u: "nonceUsed (snd (verifySignedRequest keccak recover now sr h ns)) k"
    by (rule verify_keeps_used)
  have "set (nonceTimestamps (snd (verifySignedRequest keccak recover now sr h ns))) \<subseteq>
          insert (fst (nonceKey sr) @ '':'' @ snd (nonceKey sr), now) (set (nonceTimestamps ns))"
    using map_set_subset [of "fst (nonceKey sr) @ '':'' @ snd (nonceKey sr)" now "nonceTimestamps ns"]
    by (auto simp: verify_outcomes)
  with assms u show ?thesis
    unfolding recordedSince_def by auto
qed

lemma verify_recorded_new:
  assumes "authorized (fst (verifySignedRequest keccak recover now sr h ns))" "storeKeyed ns"
  shows "recordedSince (nonceKey sr) now (snd (verifySignedRequest keccak recover now sr h ns))"
proof -
  let ?key = "fst (nonceKey sr) @ '':'' @ snd (nonceKey sr)"
  have s: "nonceTimestamps (snd (verifySignedRequest keccak recover now sr h ns)) =
             map_set ?key now (nonceTimestamps ns)"
    using assms(1) by (auto simp: verify_outcomes authorized_def split: if_splits)
  from assms(2) have d: "distinct (map fst (nonceTimestamps ns))" by (simp add: storeKeyed_def)
  show ?thesis
    unfolding recordedSince_def s
    using verify_success_uses(2) [OF assms(1)] map_set_value [OF d] by auto
qed

lemma serve_append:
  "serve keccak recover (xs @ ys) ns = serve keccak recover ys (serve keccak recover xs ns)"
  by (induction xs arbitrary: ns) simp_all

lemma serve_keyed:
  assumes "recoversAddresses recover"
  shows "storeKeyed ns \<Longrightarrow> storeKeyed (serve keccak recover evs ns)"
proof (induction evs arbitrary: ns)
  case Nil
  then show ?case by simp
next
  case (Cons ev evs)
  then show ?case
    by (cases ev) (simp_all add: verify_keyed [OF assms] cleanup_keyed)
qed

lemma serve_recorded:
  assumes "recoversAddresses recover"
  shows "storeKeyed ns \<Longrightarrow> recordedSince k t0 ns \<Longrightarrow>
         \<forall>ev \<in> set evs. t0 \<le> eventTime ev \<and> eventTime ev \<le> t0 + 2 * NONCE_EXPIRY_MS \<Longrightarrow>
         recordedSince k t0 (serve keccak recover evs ns)"
proof (induction evs arbitrary: ns)
  case Nil
  then show ?case by simp
next
  case (Cons ev evs)
  show ?case
  proof (cases ev)
    case (Request q)
    let ?ns = "snd (verifySignedRequest keccak recover (ar_now q) (ar_signedRequest q)
                      (ar_expectedAccountHash q) ns)"
    from Cons.prems(3) Request have "t0 \<le> ar_now q" by (simp add: eventTime_def)
    from verify_recorded_keep [OF Cons.prems(2) this]
    have r: "recordedSince k t0 ?ns" .
    have k: "storeKeyed ?ns" using Cons.prems(1) by (rule verify_keyed [OF assms])
    from Cons.IH [OF k r] Cons.prems(3) show ?thesis by (simp add: Request)
  next
    case (Sweep now)
    from Cons.prems(3) Sweep have "now \<le> t0 + 2 * NONCE_EXPIRY_MS" by (simp add: eventTime_def)
    from cleanup_recorded [OF Cons.prems(1,2) this]
    have r: "recordedSince k t0 (cleanupNonces now ns)" .
    have k: "storeKeyed (cleanupNonces now ns)" using Cons.prems(1) by (rule cleanup_keyed)
    from Cons.IH [OF k r] Cons.prems(3) show ?thesis by (simp add: Sweep)
  qed
qed

lemma expired_not_replay:
  assumes "1000 * sd_expiresAt (sr_data sr) < now" "1000 \<le> now"
  shows "\<exists>err. verifySignedRequest keccak recover now sr h ns = (Inl err, ns)
             \<and> err \<noteq> ReplayDetected"
    and "\<not> passesChecks keccak recover now sr h"
proof -
  have v: "\<not> verifySignature recover now sr (sr_signer sr)" if "sd_expiresAt (sr_data sr) = 0"
  proof -
    from assms(2) have "0 < now div 1000" by (simp add: div_greater_zero_iff)
    with that have "isSignatureExpired now (sd_expiresAt (sr_data sr))"
      by (simp add: isSignatureExpired_def)
    then show ?thesis by (simp add: verifySignature_def Let_def)
  qed
  show "\<exists>err. verifySignedRequest keccak recover now sr h ns = (Inl err, ns)
             \<and> err \<noteq> ReplayDetected"
    using assms(1) v by (auto simp: verify_outcomes)
  show "\<not> passesChecks keccak recover now sr h"
    using assms(1) v by (auto simp: passesChecks_def)
qed

lemma verifySignature_later:
  assumes "verifySignature recover t0 sr x" "t \<le> 1000 * sd_expiresAt (sr_data sr)"
  shows "verifySignature recover t sr x"
proof -
  from assms(2) have "t div 1000 \<le> sd_expiresAt (sr_data sr)"
    by (simp add: div_le_mono2 div_le_dividend less_eq_div_iff_mult_less_eq)
  then have "\<not> isSignatureExpired t (sd_expiresAt (sr_data sr))"
    by (simp add: isSignatureExpired_def)
  with assms(1) show ?thesis
    by (auto simp: verifySignature_def Let_def split: if_splits)
qed

text \<open>
  C2, as the code has it. The store starts empty; requests and sweeps follow one another
  in time. Once a request of a (signer, nonce) pair has been authorized, at \<open>t0\<close>, every
  later request of the pair whose \<^verbatim>\<open>expiresAt\<close> is at most ten minutes (twice
  \<^verbatim>\<open>NONCE_EXPIRY_MS\<close>) after \<open>t0\<close> is rejected, whatever requests and sweeps came in
  between, and leaves the store as it is; the error is the replay error exactly when the
  request passes the account-hash, signature and expiry checks, which come before the
  look-up of the nonce; so it is for the same request presented again, with the same
  account hash, up to its \<^verbatim>\<open>expiresAt\<close>.
\<close>

theorem replay_rejected:
  assumes order: "sorted (map eventTime (evs1 @ Request q0 # evs2 @ [Request q]))"
      and addr: "recoversAddresses recover"
      and first: "authorized (fst (verifySignedRequest keccak recover (ar_now q0)
                    (ar_signedRequest q0) (ar_expectedAccountHash q0)
                    (serve keccak recover evs1 initialStore)))"
      and same: "nonceKey (ar_signedRequest q) = nonceKey (ar_signedRequest q0)"
      and expiry: "1000 * sd_expiresAt (sr_data (ar_signedRequest q))
                     \<le> ar_now q0 + 2 * NONCE_EXPIRY_MS"
  shows "\<exists>err. verifySignedRequest keccak recover (ar_now q) (ar_signedRequest q)
                 (ar_expectedAccountHash q)
                 (serve keccak recover (evs1 @ Request q0 # evs2) initialStore)
               = (Inl err, serve keccak recover (evs1 @ Request q0 # evs2) initialStore)
             \<and> (err = ReplayDetected \<longleftrightarrow>
                  passesChecks keccak recover (ar_now q) (ar_signedRequest q)
                    (ar_expectedAccountHash q))
             \<and> (ar_signedRequest q = ar_signedRequest q0
                  \<and> ar_expectedAccountHash q = ar_expectedAccountHash q0
                  \<and> ar_now q \<le> 1000 * sd_expiresAt (sr_data (ar_signedRequest q))
                \<longrightarrow> err = ReplayDetected)"
proof -
  let ?ns1 = "serve keccak recover evs1 initialStore"
  let ?v0 = "verifySignedRequest keccak recover (ar_now q0) (ar_signedRequest q0)
               (ar_expectedAccountHash q0) ?ns1"
  let ?ns = "serve keccak recover (evs1 @ Request q0 # evs2) initialStore"
  let ?k = "nonceKey (ar_signedRequest q0)"
  have ns: "?ns = serve keccak recover evs2 (snd ?v0)"
    by (simp add: serve_append)
  have k0: "storeKeyed initialStore" by (simp add: storeKeyed_def initialStore_def)
  have k1: "storeKeyed ?ns1" using k0 by (rule serve_keyed [OF addr])
  have k2: "storeKeyed (snd ?v0)" using k1 by (rule verify_keyed [OF addr])
  have r2: "recordedSince ?k (ar_now q0) (snd ?v0)"
    using first k1 by (rule verify_recorded_new)
  from order have o: "\<forall>ev \<in> set evs2. ar_now q0 \<le> eventTime ev \<and> eventTime ev \<le> ar_now q"
    and o2: "ar_now q0 \<le> ar_now q"
    by (auto simp: sorted_append eventTime_def)
  have byte: "passesChecks keccak recover (ar_now q) (ar_signedRequest q)
                (ar_expectedAccountHash q)"
    if "ar_signedRequest q = ar_signedRequest q0"
       "ar_expectedAccountHash q = ar_expectedAccountHash q0"
       "ar_now q \<le> 1000 * sd_expiresAt (sr_data (ar_signedRequest q))"
  proof -
    from first have p: "keccak (toLowerCase (sr_signer (ar_signedRequest q0))) =
                          ar_expectedAccountHash q0"
      "verifySignature recover (ar_now q0) (ar_signedRequest q0) (sr_signer (ar_signedRequest q0))"
      by (auto simp: verify_outcomes authorized_def split: if_splits)
    from verifySignature_later [OF p(2)] that(1,3)
    have "verifySignature recover (ar_now q) (ar_signedRequest q) (sr_signer (ar_signedRequest q))"
      by simp
    with p(1) that show ?thesis by (simp add: passesChecks_def)
  qed
  show ?thesis
  proof (cases "ar_now q \<le> ar_now q0 + 2 * NONCE_EXPIRY_MS")
    case True
    with o have "\<forall>ev \<in> set evs2. ar_now q0 \<le> eventTime ev
                   \<and> eventTime ev \<le> ar_now q0 + 2 * NONCE_EXPIRY_MS"
      by auto
    from serve_recorded [OF addr k2 r2 this] have "recordedSince ?k (ar_now q0) ?ns"
      by (simp only: ns)
    then have "nonceUsed ?ns (nonceKey (ar_signedRequest q))"
      by (simp add: recordedSince_def same)
    then have v: "\<exists>err. verifySignedRequest keccak recover (ar_now q) (ar_signedRequest q)
                 (ar_expectedAccountHash q) ?ns = (Inl err, ?ns)
             \<and> (err = ReplayDetected \<longleftrightarrow>
                  passesChecks keccak recover (ar_now q) (ar_signedRequest q)
                    (ar_expectedAccountHash q))"
      by (simp add: verify_replay passesChecks_def)
    with byte show ?thesis by blast
  next
    case False
    with expiry have e: "1000 * sd_expiresAt (sr_data (ar_signedRequest q)) < ar_now q"
      "1000 \<le> ar_now q"
      by (simp_all add: NONCE_EXPIRY_MS_def)
    from expired_not_replay [OF e] byte e(1) show ?thesis
      by (metis not_less)
  qed
qed

theorem replay_rejected_witness:
  "sorted (map eventTime ([] @ Request ex_authRequest # [Sweep 1700000060000]
                            @ [Request (ex_authRequest\<lparr>ar_now := 1700000120000\<rparr>)]))
   \<and> recoversAddresses (e_recover ex_env)
   \<and> authorized (fst (verifySignedRequest (e_keccak ex_env) (e_recover ex_env) 1700000000000
                        ex_signedRequest ''H0xab''
                        (serve (e_keccak ex_env) (e_recover ex_env) [] initialStore)))
   \<and> 1000 * sd_expiresAt (sr_data ex_signedRequest) \<le> 1700000000000 + 2 * NONCE_EXPIRY_MS
   \<and> 1700000120000 \<le> 1000 * sd_expiresAt (sr_data ex_signedRequest)
   \<and> fst (verifySignedRequest (e_keccak ex_env) (e_recover ex_env) 1700000120000
            ex_signedRequest ''H0xab''
            (serve (e_keccak ex_env) (e_recover ex_env)
               [Request ex_authRequest, Sweep 1700000060000] initialStore)) = Inl ReplayDetected"
proof -
  let ?q = "ex_authRequest\<lparr>ar_now := 1700000120000\<rparr>"
  have order: "sorted (map eventTime ([] @ Request ex_authRequest # [Sweep 1700000060000]
                                        @ [Request ?q]))"
    by (simp add: eventTime_def ex_authRequest_def)
  have addr: "recoversAddresses (e_recover ex_env)"
    by (simp add: recoversAddresses_def ex_env_def)
  have first: "authorized (fst (verifySignedRequest (e_keccak ex_env) (e_recover ex_env)
                 (ar_now ex_authRequest) (ar_signedRequest ex_authRequest)
                 (ar_expectedAccountHash ex_authRequest)
                 (serve (e_keccak ex_env) (e_recover ex_env) [] initialStore)))"
    by (simp add: ex_authRequest_def ex_first authorized_def)
  have same: "nonceKey (ar_signedRequest ?q) = nonceKey (ar_signedRequest ex_authRequest)"
    by simp
  have expiry: "1000 * sd_expiresAt (sr_data (ar_signedRequest ?q))
                  \<le> ar_now ex_authRequest + 2 * NONCE_EXPIRY_MS"
    by (simp add: ex_authRequest_def ex_signedRequest_def NONCE_EXPIRY_MS_def)
  have before: "ar_now ?q \<le> 1000 * sd_expiresAt (sr_data (ar_signedRequest ?q))"
    by (simp add: ex_authRequest_def ex_signedRequest_def)
  from replay_rejected [OF order addr first same expiry] before
  have "fst (verifySignedRequest (e_keccak ex_env) (e_recover ex_env) (ar_now ?q)
               (ar_signedRequest ?q) (ar_expectedAccountHash ?q)
               (serve (e_keccak ex_env) (e_recover ex_env)
                  ([] @ Request ex_authRequest # [Sweep 1700000060000]) initialStore))
          = Inl ReplayDetected"
    by auto
  with order addr first expiry before show ?thesis
    by (simp add: ex_authRequest_def)
qed

lemma ex_long_first:
  "verifySignedRequest (e_keccak ex_env) (e_recover ex_env) 1700000000000 ex_signedRequest_long
     ''H0xab'' initialStore =
   (Inr ''0xAb'', \<lparr>usedNonces = [''0xab'' \<mapsto> {''41''}],
                   nonceTimestamps = [(''0xab:41'', 1700000000000)]\<rparr>)"
  by (simp add: verifySignedRequest_def verifySignature_def isSignatureExpired_def
        getTypeName_def toLowerCase_def ex_env_def ex_signedRequest_long_def Let_def
        String_number.simps initialStore_def)

lemma ex_sweep:
  "cleanupNonces 1700000660000
     \<lparr>usedNonces = [''0xab'' \<mapsto> {''41''}], nonceTimestamps = [(''0xab:41'', 1700000000000)]\<rparr>
   = initialStore"
  by (simp add: cleanupNonces_def forgetNonce_def NONCE_EXPIRY_MS_def Let_def initialStore_def)

text \<open>
  C2, as stated, fails: the sweep forgets a pair ten minutes after it was recorded, and the
  server puts no bound on \<^verbatim>\<open>expiresAt\<close>. A request signed to expire an hour later is
  authorized, and after the sweep eleven minutes later the same request, byte for byte,
  is authorized again.
\<close>

theorem replay_after_sweep:
  "fst (verifySignedRequest (e_keccak ex_env) (e_recover ex_env) 1700000000000
          ex_signedRequest_long ''H0xab'' initialStore) = Inr ''0xAb''
   \<and> fst (verifySignedRequest (e_keccak ex_env) (e_recover ex_env) 1700000661000
            ex_signedRequest_long ''H0xab''
            (serve (e_keccak ex_env) (e_recover ex_env)
               [Request ex_authRequest_long, Sweep 1700000660000] initialStore)) = Inr ''0xAb''"
proof -
  have again: "verifySignedRequest (e_keccak ex_env) (e_recover ex_env) 1700000661000
      ex_signedRequest_long ''H0xab'' initialStore =
      (Inr ''0xAb'', \<lparr>usedNonces = [''0xab'' \<mapsto> {''41''}],
                      nonceTimestamps = [(''0xab:41'', 1700000661000)]\<rparr>)"
    by (simp add: verifySignedRequest_def verifySignature_def isSignatureExpired_def
          getTypeName_def toLowerCase_def ex_env_def ex_signedRequest_long_def Let_def
          String_number.simps initialStore_def)
  show ?thesis by (simp add: ex_authRequest_long_def ex_long_first ex_sweep again)
qed

text \<open>
  A request that has expired is always rejected and the nonce store is left as it is; once
  a whole second has passed since \<^verbatim>\<open>expiresAt\<close>, \<^verbatim>\<open>verifySignature\<close> is what rejects it,
  so the reported error is the invalid signature.
\<close>

lemma expired_request_rejected:
  assumes "0 < sd_expiresAt (sr_data sr)" "1000 * sd_expiresAt (sr_data sr) < now"
  shows "\<exists>err. verifySignedRequest keccak recover now sr h ns = (Inl err, ns)
             \<and> err \<noteq> ReplayDetected
             \<and> (keccak (toLowerCase (sr_signer sr)) = h
                  \<and> 1000 * (sd_expiresAt (sr_data sr) + 1) \<le> now \<longrightarrow> err = InvalidSignature)"
proof -
  have "isSignatureExpired now (sd_expiresAt (sr_data sr))"
    if "1000 * (sd_expiresAt (sr_data sr) + 1) \<le> now"
    using that by (simp add: isSignatureExpired_def less_eq_div_iff_mult_less_eq Suc_le_eq [symmetric])
  then have "\<not> verifySignature recover now sr (sr_signer sr)"
    if "1000 * (sd_expiresAt (sr_data sr) + 1) \<le> now"
    using that by (simp add: verifySignature_def Let_def)
  then show ?thesis
    using assms by (auto simp: verify_outcomes)
qed

section \<open>The pool ledger\<close>

text \<open>
  Within the exact range \<^verbatim>\<open>createOrUpdatePoolBalance\<close> and \<^verbatim>\<open>atomicPoolBuy\<close> compute
  what decimal arithmetic would: \<open>update_in_range\<close> and \<open>atomicPoolBuy_in_range\<close> state their
  results in closed form. For a buyer and a seller that are different accounts,
  \<open>atomicPoolBuy_cases\<close> lists the exits of \<^verbatim>\<open>atomicPoolBuy\<close> in the arithmetic of the code.
\<close>

lemma update_in_range:
  assumes row: "poolBalances s h = Some r"
      and rng: "rowInRange (Some r)" "\<bar>a\<bar> \<le> exact_limit"
  shows "createOrUpdatePoolBalance h ow a t s =
           (if t = deposit \<or> t = nft_sale then
              Inr (r\<lparr>pb_balance := pb_balance r + a,
                      pb_totalDeposited := (if t = deposit then pb_totalDeposited r + a
                                            else pb_totalDeposited r)\<rparr>,
                   s\<lparr>poolBalances := (poolBalances s)(h \<mapsto>
                        r\<lparr>pb_balance := pb_balance r + a,
                          pb_totalDeposited := (if t = deposit then pb_totalDeposited r + a
                                                else pb_totalDeposited r)\<rparr>)\<rparr>)
            else if pb_balance r < a then
              Inl (if t = withdraw then InsufficientBalance else InsufficientBalanceForPayment)
            else
              Inr (r\<lparr>pb_balance := pb_balance r - a,
                      pb_totalSpent := (if t = withdraw then pb_totalSpent r
                                        else pb_totalSpent r + a)\<rparr>,
                   s\<lparr>poolBalances := (poolBalances s)(h \<mapsto>
                        r\<lparr>pb_balance := pb_balance r - a,
                          pb_totalSpent := (if t = withdraw then pb_totalSpent r
                                            else pb_totalSpent r + a)\<rparr>)\<rparr>))"
proof -
  have b: "\<bar>pb_balance r\<bar> \<le> exact_limit" and d: "\<bar>pb_totalDeposited r\<bar> \<le> exact_limit"
    and sp: "\<bar>pb_totalSpent r\<bar> \<le> exact_limit"
    using rng(1) by (simp_all add: rowInRange_def)
  note ex = exact_fadd [OF b rng(2)] exact_fsub [OF b rng(2)] exact_fadd [OF d rng(2)]
    exact_fadd [OF sp rng(2)] exact_roundtrip [OF d] exact_roundtrip [OF sp]
    fsub_neg_iff [OF b rng(2)]
  show ?thesis
    by (cases t) (simp_all add: createOrUpdatePoolBalance_def row Let_def ex)
qed


lemma atomicPoolBuy_cases:
  assumes distinct: "bp_buyerAccountHash p \<noteq> bp_encryptedSeller p"
  shows "atomicPoolBuy p s =
           (case poolBalances s (bp_buyerAccountHash p) of
              None \<Rightarrow> Inl NoPoolBalanceFound
            | Some rb \<Rightarrow>
                if parseFloat (pb_balance rb) < parseFloat (bp_price p)
                then Inl (InsufficientPoolBalance (toFixed8 (parseFloat (pb_balance rb)))
                            (toFixed8 (parseFloat (bp_price p))))
                else if \<not> (numericFits (pb_balance (debitedRow p rb))
                             \<and> numericFits (pb_totalSpent (debitedRow p rb))
                             \<and> numericFits (pb_balance (creditedRow p s))
                             \<and> numericFits (bp_price p))
                then Inl NumericFieldOverflow
                else if getNftById s (bp_nftId p) = None then Inl ForeignKeyViolation
                else Inr (\<lparr>br_trade = settledTrade p,
                            br_buyerBalance = Some (debitedRow p rb),
                            br_sellerBalance = Some (creditedRow p s)\<rparr>,
                          deactivateListing (bp_listingId p)
                            (updateNftOwner (bp_nftId p) (bp_encryptedBuyer p)
                               (s\<lparr>poolBalances := (poolBalances s)
                                      (bp_buyerAccountHash p \<mapsto> debitedRow p rb,
                                       bp_encryptedSeller p \<mapsto> creditedRow p s),
                                  poolTransactions := poolTransactions s @
                                    [\<lparr>pt_accountHash = bp_buyerAccountHash p,
                                      pt_type = nft_purchase,
                                      pt_amount = bp_price p, pt_txHash = bp_txHash p,
                                      pt_nftId = Some (bp_nftId p)\<rparr>,
                                     \<lparr>pt_accountHash = bp_encryptedSeller p, pt_type = nft_sale,
                                      pt_amount = bp_price p, pt_txHash = bp_txHash p,
                                      pt_nftId = Some (bp_nftId p)\<rparr>],
                                  trades := trades s @ [settledTrade p]\<rparr>))))"
proof (cases "poolBalances s (bp_buyerAccountHash p)")
  case None
  then show ?thesis by (simp add: atomicPoolBuy_def)
next
  case buyer: (Some rb)
  show ?thesis
  proof (cases "poolBalances s (bp_encryptedSeller p)")
    case None
    then show ?thesis
      using distinct
      by (simp add: atomicPoolBuy_def buyer updatePoolRow_def Let_def debitedRow_def
            creditedRow_def settledTrade_def updateNftOwner_def deactivateListing_def)
  next
    case (Some rs)
    then show ?thesis
      using distinct
      by (simp add: atomicPoolBuy_def buyer updatePoolRow_def Let_def debitedRow_def
            creditedRow_def settledTrade_def updateNftOwner_def deactivateListing_def)
  qed
qed

lemma fits_in_range:
  "\<bar>a\<bar> \<le> exact_limit \<Longrightarrow> numericFits a"
  "\<bar>a\<bar> \<le> exact_limit \<Longrightarrow> \<bar>b\<bar> \<le> exact_limit \<Longrightarrow> numericFits (a + b)"
  "\<bar>a\<bar> \<le> exact_limit \<Longrightarrow> \<bar>b\<bar> \<le> exact_limit \<Longrightarrow> numericFits (a - b)"
  by (simp_all add: numericFits_def exact_limit_def)

lemma atomicPoolBuy_in_range:
  assumes buyer: "poolBalances s (bp_buyerAccountHash p) = Some rb"
      and rng: "\<bar>pb_balance rb\<bar> \<le> exact_limit" "\<bar>pb_totalSpent rb\<bar> \<le> exact_limit"
               "\<bar>bp_price p\<bar> \<le> exact_limit"
      and seller: "rowInRange (poolBalances s (bp_encryptedSeller p))"
      and distinct: "bp_buyerAccountHash p \<noteq> bp_encryptedSeller p"
  shows "atomicPoolBuy p s =
           (if pb_balance rb < bp_price p
            then Inl (InsufficientPoolBalance (pb_balance rb) (bp_price p))
            else if getNftById s (bp_nftId p) = None then Inl ForeignKeyViolation
            else Inr (\<lparr>br_trade = settledTrade p,
                        br_buyerBalance = Some (rb\<lparr>pb_balance := pb_balance rb - bp_price p,
                                                   pb_totalSpent := pb_totalSpent rb + bp_price p\<rparr>),
                        br_sellerBalance = Some (settledSeller p s)\<rparr>,
                      deactivateListing (bp_listingId p)
                        (updateNftOwner (bp_nftId p) (bp_encryptedBuyer p)
                           (s\<lparr>poolBalances := (poolBalances s)
                                  (bp_buyerAccountHash p \<mapsto>
                                     rb\<lparr>pb_balance := pb_balance rb - bp_price p,
                                        pb_totalSpent := pb_totalSpent rb + bp_price p\<rparr>,
                                   bp_encryptedSeller p \<mapsto> settledSeller p s),
                              poolTransactions := poolTransactions s @
                                [\<lparr>pt_accountHash = bp_buyerAccountHash p, pt_type = nft_purchase,
                                  pt_amount = bp_price p, pt_txHash = bp_txHash p,
                                  pt_nftId = Some (bp_nftId p)\<rparr>,
                                 \<lparr>pt_accountHash = bp_encryptedSeller p, pt_type = nft_sale,
                                  pt_amount = bp_price p, pt_txHash = bp_txHash p,
                                  pt_nftId = Some (bp_nftId p)\<rparr>],
                              trades := trades s @ [settledTrade p]\<rparr>))))"
proof -
  note ex = exact_fsub [OF rng(1,3)] exact_fadd [OF rng(2,3)] exact_roundtrip [OF rng(1)]
    exact_roundtrip [OF rng(3)] parseFloat_less_iff [OF rng(1,3)]
  have d: "debitedRow p rb = rb\<lparr>pb_balance := pb_balance rb - bp_price p,
                                 pb_totalSpent := pb_totalSpent rb + bp_price p\<rparr>"
    by (simp add: debitedRow_def ex)
  have c: "creditedRow p s = settledSeller p s"
  proof (cases "poolBalances s (bp_encryptedSeller p)")
    case None
    then show ?thesis by (simp add: creditedRow_def settledSeller_def)
  next
    case (Some rs)
    with seller have "\<bar>pb_balance rs\<bar> \<le> exact_limit" by (simp add: rowInRange_def)
    from exact_fadd [OF this rng(3)] Some show ?thesis
      by (simp add: creditedRow_def settledSeller_def)
  qed
  have fc: "numericFits (pb_balance (settledSeller p s))"
  proof (cases "poolBalances s (bp_encryptedSeller p)")
    case None
    then show ?thesis by (simp add: settledSeller_def fits_in_range(1) [OF rng(3)])
  next
    case (Some rs)
    with seller have "\<bar>pb_balance rs\<bar> \<le> exact_limit" by (simp add: rowInRange_def)
    from fits_in_range(2) [OF this rng(3)] Some show ?thesis
      by (simp add: settledSeller_def)
  qed
  note fits = fits_in_range(3) [OF rng(1,3)] fits_in_range(2) [OF rng(2,3)]
    fits_in_range(1) [OF rng(3)] fc
  show ?thesis
    unfolding atomicPoolBuy_cases [OF distinct] buyer option.case d c
    by (simp add: ex fits)
qed

lemma ex_small:
  "\<bar>50000000 :: int\<bar> \<le> exact_limit" "\<bar>20000000 :: int\<bar> \<le> exact_limit"
  "\<bar>0 :: int\<bar> \<le> exact_limit" "\<bar>1 :: int\<bar> \<le> exact_limit" "\<bar>2 :: int\<bar> \<le> exact_limit"
  by (simp_all add: exact_limit_def)

lemma drift_values:
  "toFixed8 (fsub (parseFloat 3355443200000010) (parseFloat 2)) = 3355443200000007"
  "toFixed8 (fadd (parseFloat 3355443200000010) (parseFloat 1)) = 3355443200000010"
  "\<not> parseFloat 3355443200000010 < parseFloat 2"
  by code_simp+

lemma atomicPoolBuy_success:
  assumes ok: "atomicPoolBuy p s = Inr (res, s')"
      and distinct: "bp_buyerAccountHash p \<noteq> bp_encryptedSeller p"
  obtains rb where
    "poolBalances s (bp_buyerAccountHash p) = Some rb"
    "\<not> parseFloat (pb_balance rb) < parseFloat (bp_price p)"
    "getNftById s (bp_nftId p) \<noteq> None"
    "br_trade res = settledTrade p"
    "s' = deactivateListing (bp_listingId p)
            (updateNftOwner (bp_nftId p) (bp_encryptedBuyer p)
               (s\<lparr>poolBalances := (poolBalances s)
                      (bp_buyerAccountHash p \<mapsto> debitedRow p rb,
                       bp_encryptedSeller p \<mapsto> creditedRow p s),
                  poolTransactions := poolTransactions s @
                    [\<lparr>pt_accountHash = bp_buyerAccountHash p, pt_type = nft_purchase,
                      pt_amount = bp_price p, pt_txHash = bp_txHash p,
                      pt_nftId = Some (bp_nftId p)\<rparr>,
                     \<lparr>pt_accountHash = bp_encryptedSeller p, pt_type = nft_sale,
                      pt_amount = bp_price p, pt_txHash = bp_txHash p,
                      pt_nftId = Some (bp_nftId p)\<rparr>],
                  trades := trades s @ [settledTrade p]\<rparr>))"
proof -
  note c = ok [unfolded atomicPoolBuy_cases [OF distinct]]
  obtain rb where rb: "poolBalances s (bp_buyerAccountHash p) = Some rb"
    using c by (cases "poolBalances s (bp_buyerAccountHash p)") simp_all
  note c' = c [unfolded rb option.case]
  have enough: "\<not> parseFloat (pb_balance rb) < parseFloat (bp_price p)"
    using c' by (auto split: if_splits)
  have asset: "getNftById s (bp_nftId p) \<noteq> None"
    using c' enough by (auto split: if_splits)
  show ?thesis
    using c' enough asset
    by (intro that [OF rb enough asset]) (auto split: if_splits)
qed

lemma atomicPoolBuy_succeeds:
  assumes "getNftById s (bp_nftId p) \<noteq> None"
      and "poolBalances s (bp_buyerAccountHash p) = Some rb"
      and "bp_price p \<le> pb_balance rb"
      and "rowInRange (Some rb)" "\<bar>bp_price p\<bar> \<le> exact_limit"
      and "rowInRange (poolBalances s (bp_encryptedSeller p))"
      and "bp_buyerAccountHash p \<noteq> bp_encryptedSeller p"
  shows "\<exists>res s'. atomicPoolBuy p s = Inr (res, s')"
proof -
  from assms(4) have b: "\<bar>pb_balance rb\<bar> \<le> exact_limit" "\<bar>pb_totalSpent rb\<bar> \<le> exact_limit"
    by (simp_all add: rowInRange_def)
  show ?thesis
    using assms(1,3)
    by (simp add: atomicPoolBuy_in_range [OF assms(2) b assms(5,6,7)])
qed

text \<open>
  C1, as the code has it. For every settlement that \<^verbatim>\<open>atomicPoolBuy\<close> commits, in which
  the seller's account is not the buyer's own and the price and the stored balances of the
  two accounts are within the exact range (at most 10,000,000): the buyer held at least
  the price, and the buyer's balance is afterwards lower by exactly the price; the
  seller's balance (0 for a seller without an account, which is then created) is higher by
  exactly the price; no other account has changed; exactly one Trade record has been
  appended, for that asset, which has a row, and at that price; the listings are those
  before with the listing of that id deactivated; and the ownership pointer of the asset
  is the buyer.
\<close>

theorem atomicPoolBuy_settles:
  assumes ok: "atomicPoolBuy p s = Inr (res, s')"
      and distinct: "bp_buyerAccountHash p \<noteq> bp_encryptedSeller p"
      and rng: "\<bar>bp_price p\<bar> \<le> exact_limit"
               "balanceInRange s (bp_buyerAccountHash p)"
               "balanceInRange s (bp_encryptedSeller p)"
  shows "\<exists>b. balanceOf s (bp_buyerAccountHash p) = Some b \<and> bp_price p \<le> b
           \<and> balanceOf s' (bp_buyerAccountHash p) = Some (b - bp_price p)
           \<and> balanceOf s' (bp_encryptedSeller p) =
               Some ((case balanceOf s (bp_encryptedSeller p) of Some b \<Rightarrow> b | None \<Rightarrow> 0)
                     + bp_price p)
           \<and> (\<forall>h. h \<noteq> bp_buyerAccountHash p \<and> h \<noteq> bp_encryptedSeller p \<longrightarrow>
                  poolBalances s' h = poolBalances s h)
           \<and> trades s' = trades s @ [settledTrade p] \<and> br_trade res = settledTrade p
           \<and> t_nftId (settledTrade p) = bp_nftId p \<and> t_price (settledTrade p) = bp_price p
           \<and> getNftById s (bp_nftId p) \<noteq> None
           \<and> listings s' = listings (deactivateListing (bp_listingId p) s)
           \<and> (\<forall>l \<in> set (listings s'). l_id l = bp_listingId p \<longrightarrow> \<not> l_isActive l)
           \<and> getNftById s' (bp_nftId p) =
               map_option (\<lambda>n. n\<lparr>n_encryptedOwner := bp_encryptedBuyer p\<rparr>)
                 (getNftById s (bp_nftId p))"
proof -
  from ok distinct obtain rb where
    rb: "poolBalances s (bp_buyerAccountHash p) = Some rb"
    and enough: "\<not> parseFloat (pb_balance rb) < parseFloat (bp_price p)"
    and asset: "getNftById s (bp_nftId p) \<noteq> None"
    and tr: "br_trade res = settledTrade p"
    and s': "s' = deactivateListing (bp_listingId p)
            (updateNftOwner (bp_nftId p) (bp_encryptedBuyer p)
               (s\<lparr>poolBalances := (poolBalances s)
                      (bp_buyerAccountHash p \<mapsto> debitedRow p rb,
                       bp_encryptedSeller p \<mapsto> creditedRow p s),
                  poolTransactions := poolTransactions s @
                    [\<lparr>pt_accountHash = bp_buyerAccountHash p, pt_type = nft_purchase,
                      pt_amount = bp_price p, pt_txHash = bp_txHash p,
                      pt_nftId = Some (bp_nftId p)\<rparr>,
                     \<lparr>pt_accountHash = bp_encryptedSeller p, pt_type = nft_sale,
                      pt_amount = bp_price p, pt_txHash = bp_txHash p,
                      pt_nftId = Some (bp_nftId p)\<rparr>],
                  trades := trades s @ [settledTrade p]\<rparr>))"
    by (rule atomicPoolBuy_success)
  let ?s1 = "s\<lparr>poolBalances := poolBalances s', poolTransactions := poolTransactions s',
              trades := trades s @ [settledTrade p]\<rparr>"
  have b: "\<bar>pb_balance rb\<bar> \<le> exact_limit"
    using rng(2) by (simp add: balanceInRange_def balanceOf_def rb)
  have le: "bp_price p \<le> pb_balance rb"
    using enough by (simp add: parseFloat_less_iff [OF b rng(1)])
  have b0: "balanceOf s (bp_buyerAccountHash p) = Some (pb_balance rb)"
    by (simp add: balanceOf_def rb)
  have b1: "balanceOf s' (bp_buyerAccountHash p) = Some (pb_balance rb - bp_price p)"
    using distinct
    by (simp add: s' balanceOf_def deactivateListing_def updateNftOwner_def debitedRow_def
          exact_fsub [OF b rng(1)])
  have b2: "balanceOf s' (bp_encryptedSeller p) =
              Some ((case balanceOf s (bp_encryptedSeller p) of Some b \<Rightarrow> b | None \<Rightarrow> 0)
                    + bp_price p)"
  proof (cases "poolBalances s (bp_encryptedSeller p)")
    case None
    then show ?thesis
      by (simp add: s' balanceOf_def deactivateListing_def updateNftOwner_def creditedRow_def)
  next
    case (Some rs)
    with rng(3) have "\<bar>pb_balance rs\<bar> \<le> exact_limit"
      by (simp add: balanceInRange_def balanceOf_def)
    note ex = exact_fadd [OF this rng(1)]
    show ?thesis
      by (simp add: s' balanceOf_def deactivateListing_def updateNftOwner_def creditedRow_def
            Some ex)
  qed
  have b3: "\<forall>h. h \<noteq> bp_buyerAccountHash p \<and> h \<noteq> bp_encryptedSeller p \<longrightarrow>
                  poolBalances s' h = poolBalances s h"
    by (simp add: s' deactivateListing_def updateNftOwner_def)
  have t: "trades s' = trades s @ [settledTrade p]"
    by (simp add: s' deactivateListing_def updateNftOwner_def)
  have ls: "listings s' = listings (deactivateListing (bp_listingId p) s)"
    by (simp add: s' deactivateListing_def updateNftOwner_def)
  have l: "\<forall>l \<in> set (listings s'). l_id l = bp_listingId p \<longrightarrow> \<not> l_isActive l"
    unfolding ls by (auto simp: deactivateListing_def)
  have n: "nfts s' = nfts (updateNftOwner (bp_nftId p) (bp_encryptedBuyer p) s)"
    by (simp add: s' deactivateListing_def updateNftOwner_def)
  have g: "getNftById s' (bp_nftId p) =
             map_option (\<lambda>n. n\<lparr>n_encryptedOwner := bp_encryptedBuyer p\<rparr>)
               (getNftById s (bp_nftId p))"
    using getNftById_updateNftOwner [of "bp_nftId p" "bp_encryptedBuyer p" s]
    by (simp add: getNftById_def n)
  have tt: "t_nftId (settledTrade p) = bp_nftId p \<and> t_price (settledTrade p) = bp_price p"
    by (simp add: settledTrade_def)
  show ?thesis
    using b0 le b1 b2 b3 t tr tt asset ls l g by blast
qed

lemma ex_buy:
  "atomicPoolBuy ex_buyParams ex_db =
     Inr (\<lparr>br_trade = settledTrade ex_buyParams,
           br_buyerBalance = Some \<lparr>pb_encryptedOwner = ''H0xab'', pb_balance = 30000000,
                                   pb_totalDeposited = 50000000, pb_totalSpent = 20000000\<rparr>,
           br_sellerBalance = Some \<lparr>pb_encryptedOwner = ''Hseller'', pb_balance = 20000000,
                                    pb_totalDeposited = 0, pb_totalSpent = 0\<rparr>\<rparr>,
          \<lparr>collections = [\<lparr>c_id = ''col1'', c_contractAddress = Some ''0xc0''\<rparr>],
           nfts = [ex_nft\<lparr>n_encryptedOwner := ''H0xab''\<rparr>],
           listings = [ex_listing\<lparr>l_isActive := False\<rparr>],
           trades = [settledTrade ex_buyParams],
           poolBalances =
             [''H0xab'' \<mapsto> \<lparr>pb_encryptedOwner = ''H0xab'', pb_balance = 30000000,
                               pb_totalDeposited = 50000000, pb_totalSpent = 20000000\<rparr>,
              ''Hseller'' \<mapsto> \<lparr>pb_encryptedOwner = ''Hseller'', pb_balance = 20000000,
                                pb_totalDeposited = 0, pb_totalSpent = 0\<rparr>],
           poolTransactions =
             [\<lparr>pt_accountHash = ''H0xab'', pt_type = nft_purchase, pt_amount = 20000000,
               pt_txHash = Some ''0xtx'', pt_nftId = Some ''nft1''\<rparr>,
              \<lparr>pt_accountHash = ''Hseller'', pt_type = nft_sale, pt_amount = 20000000,
               pt_txHash = Some ''0xtx'', pt_nftId = Some ''nft1''\<rparr>]\<rparr>)"
proof -
  let ?rb = "\<lparr>pb_encryptedOwner = ''H0xab'', pb_balance = 50000000,
              pb_totalDeposited = 50000000, pb_totalSpent = 0\<rparr>"
  have buyer: "poolBalances ex_db (bp_buyerAccountHash ex_buyParams) = Some ?rb"
    by (simp add: ex_db_def ex_buyParams_def)
  have rng: "\<bar>pb_balance ?rb\<bar> \<le> exact_limit" "\<bar>pb_totalSpent ?rb\<bar> \<le> exact_limit"
            "\<bar>bp_price ex_buyParams\<bar> \<le> exact_limit"
    by (simp_all add: ex_buyParams_def exact_limit_def)
  have seller: "rowInRange (poolBalances ex_db (bp_encryptedSeller ex_buyParams))"
    by (simp add: rowInRange_def ex_db_def ex_buyParams_def)
  have distinct: "bp_buyerAccountHash ex_buyParams \<noteq> bp_encryptedSeller ex_buyParams"
    by (simp add: ex_buyParams_def)
  show ?thesis
    unfolding atomicPoolBuy_in_range [OF buyer rng seller distinct]
    by (simp add: ex_buyParams_def ex_db_def ex_nft_def ex_listing_def getNftById_def
          settledSeller_def settledTrade_def deactivateListing_def updateNftOwner_def)
qed

theorem atomicPoolBuy_settles_witness:
  "bp_buyerAccountHash ex_buyParams \<noteq> bp_encryptedSeller ex_buyParams
   \<and> \<bar>bp_price ex_buyParams\<bar> \<le> exact_limit
   \<and> balanceInRange ex_db (bp_buyerAccountHash ex_buyParams)
   \<and> balanceInRange ex_db (bp_encryptedSeller ex_buyParams)
   \<and> balanceOf ex_db ''H0xab'' = Some 50000000
   \<and> buyOutcome (atomicPoolBuy ex_buyParams ex_db) ''H0xab'' = Some 30000000
   \<and> buyOutcome (atomicPoolBuy ex_buyParams ex_db) ''Hseller'' = Some 20000000
   \<and> (case atomicPoolBuy ex_buyParams ex_db of
         Inl err \<Rightarrow> None
       | Inr (res, s') \<Rightarrow> Some (trades s', map l_isActive (listings s'))) =
       Some ([\<lparr>t_nftId = ''nft1'', t_encryptedBuyer = ''H0xab'', t_encryptedSeller = ''Hseller'',
               t_price = 20000000\<rparr>], [False])"
proof -
  have distinct: "bp_buyerAccountHash ex_buyParams \<noteq> bp_encryptedSeller ex_buyParams"
    by (simp add: ex_buyParams_def)
  have rng: "\<bar>bp_price ex_buyParams\<bar> \<le> exact_limit"
            "balanceInRange ex_db (bp_buyerAccountHash ex_buyParams)"
            "balanceInRange ex_db (bp_encryptedSeller ex_buyParams)"
    by (simp_all add: ex_buyParams_def exact_limit_def balanceInRange_def balanceOf_def ex_db_def)
  from atomicPoolBuy_settles [OF ex_buy distinct rng] distinct rng show ?thesis
    by (simp add: ex_buy buyOutcome_def)
       (simp add: ex_buyParams_def balanceOf_def ex_db_def settledTrade_def ex_listing_def)
qed

text \<open>
  C1, as stated, fails in two ways. When the seller's account is the buyer's own, the
  credit is computed from the balance read before the debit and overwrites it: the balance
  goes from 0.50000000 up to 0.70000000 for a price of 0.20000000. And beyond the exact
  range the doubles drift: from 33554432.00000010 a price of 0.00000002 takes 0.00000003.
\<close>

theorem atomicPoolBuy_counterexample:
  "buyOutcome (atomicPoolBuy (ex_buyParams\<lparr>bp_encryptedSeller := ''H0xab''\<rparr>) ex_db) ''H0xab''
     = Some 70000000
   \<and> buyOutcome (atomicPoolBuy (ex_buyParams\<lparr>bp_price := 2\<rparr>) ex_db_large) ''H0xab''
     = Some 3355443200000007"
proof -
  note ex = exact_fsub [OF ex_small(1,2)] exact_fadd [OF ex_small(3,2)]
    exact_fadd [OF ex_small(1,2)] parseFloat_less_iff [OF ex_small(1,2)]
    exact_fadd [OF ex_small(3,5)]
  have a: "buyOutcome (atomicPoolBuy (ex_buyParams\<lparr>bp_encryptedSeller := ''H0xab''\<rparr>) ex_db)
             ''H0xab'' = Some 70000000"
    by (simp add: buyOutcome_def atomicPoolBuy_def updatePoolRow_def Let_def ex_buyParams_def
          ex_db_def ex balanceOf_def updateNftOwner_def deactivateListing_def getNftById_def
          ex_nft_def numericFits_def)
  have b: "buyOutcome (atomicPoolBuy (ex_buyParams\<lparr>bp_price := 2\<rparr>) ex_db_large) ''H0xab''
     = Some 3355443200000007"
    by (simp add: buyOutcome_def atomicPoolBuy_def updatePoolRow_def Let_def ex_buyParams_def
          ex_db_large_def ex_db_def ex drift_values balanceOf_def updateNftOwner_def
          deactivateListing_def getNftById_def ex_nft_def numericFits_def)
  from a b show ?thesis ..
qed

section \<open>The private buy route\<close>

lemma privateBuyRoute_reconciled:
  assumes cfg: "e_relayerConfigured e" "e_serverFhevmConfigured e"
      and valid: "isEthereumAddress (pv_buyerAddress d)"
                 "sd_action (sr_data (pv_signedRequest d)) = ''buy''"
      and auth: "verifySignedRequest (e_keccak e) (e_recover e) (e_now e) (pv_signedRequest d)
                   (pv_accountHash d) (app_nonces a) = (Inr signer, ns)"
      and nft: "getNftById (app_db a) (pv_nftId d) = Some nft"
      and col: "deployedAddress (getCollectionById (app_db a) (n_collectionId nft)) = Some addr"
      and lst: "getListingByNftId (app_db a) (pv_nftId d) = Some listing"
  shows "privateBuyRoute e d a =
           (if ocs_isListed (checkOnChainListingStatus e addr (n_tokenId nft))
            then privateBuySettle e d nft addr listing
                   [CheckOnChainListingStatus addr (n_tokenId nft)] (a\<lparr>app_nonces := ns\<rparr>)
            else reply (a\<lparr>app_nonces := ns,
                            app_db := deactivateListing (l_id listing) (app_db a)\<rparr>)
                   [CheckOnChainListingStatus addr (n_tokenId nft)] 400
                   (ErrorBody ''NFT is no longer listed for sale. The listing has been updated.''))"
proof -
  have act: "l_isActive listing"
    using lst by (simp add: getListingByNftId_active)
  show ?thesis
    using cfg valid nft col lst act
    by (simp add: privateBuyRoute_def auth Let_def)
qed

lemma privateBuyRoute_calls:
  assumes "rr_calls (privateBuyRoute e d a) \<noteq> []"
  shows "\<exists>signer ns nft addr listing.
           e_relayerConfigured e \<and> e_serverFhevmConfigured e
         \<and> isEthereumAddress (pv_buyerAddress d)
         \<and> sd_action (sr_data (pv_signedRequest d)) = ''buy''
         \<and> verifySignedRequest (e_keccak e) (e_recover e) (e_now e) (pv_signedRequest d)
               (pv_accountHash d) (app_nonces a) = (Inr signer, ns)
         \<and> getNftById (app_db a) (pv_nftId d) = Some nft
         \<and> deployedAddress (getCollectionById (app_db a) (n_collectionId nft)) = Some addr
         \<and> getListingByNftId (app_db a) (pv_nftId d) = Some listing"
proof -
  have cfg: "e_relayerConfigured e" "e_serverFhevmConfigured e"
    using assms by (auto simp: privateBuyRoute_def reply_def split: if_splits)
  have valid: "isEthereumAddress (pv_buyerAddress d)"
              "sd_action (sr_data (pv_signedRequest d)) = ''buy''"
    using assms cfg by (auto simp: privateBuyRoute_def reply_def split: if_splits)
  obtain res ns where v: "verifySignedRequest (e_keccak e) (e_recover e) (e_now e)
       (pv_signedRequest d) (pv_accountHash d) (app_nonces a) = (res, ns)"
    by (cases "verifySignedRequest (e_keccak e) (e_recover e) (e_now e)
       (pv_signedRequest d) (pv_accountHash d) (app_nonces a)") auto
  obtain signer where res: "res = Inr signer"
    using assms cfg valid v by (cases res) (simp_all add: privateBuyRoute_def reply_def)
  obtain nft where nft: "getNftById (app_db a) (pv_nftId d) = Some nft"
    using assms cfg valid v res
    by (cases "getNftById (app_db a) (pv_nftId d)") (simp_all add: privateBuyRoute_def reply_def)
  obtain addr where col:
    "deployedAddress (getCollectionById (app_db a) (n_collectionId nft)) = Some addr"
    using assms cfg valid v res nft
    by (cases "deployedAddress (getCollectionById (app_db a) (n_collectionId nft))")
       (simp_all add: privateBuyRoute_def reply_def)
  obtain listing where lst: "getListingByNftId (app_db a) (pv_nftId d) = Some listing"
    using assms cfg valid v res nft col
    by (cases "getListingByNftId (app_db a) (pv_nftId d)")
       (simp_all add: privateBuyRoute_def reply_def)
  show ?thesis using cfg valid v res nft col lst by blast
qed

lemma privateBuySettle_failed_buy:
  assumes "BuyNFTViaRelayer rq \<in> set (rr_calls (privateBuySettle e d nft addr listing calls a))"
      and "BuyNFTViaRelayer rq \<notin> set calls"
      and "\<not> rb_success (buyNFTViaRelayer e rq)"
  shows "privateBuySettle e d nft addr listing calls a =
           reply a (calls @ [CreateServerEncryptedAddressInput addr (pv_buyerAddress d),
                            BuyNFTViaRelayer rq]) 500
             (ErrorBody (case rb_error (buyNFTViaRelayer e rq) of
                           None \<Rightarrow> ''Private buy failed''
                         | Some m \<Rightarrow> if m = [] then ''Private buy failed'' else m))"
proof -
  have own: "n_encryptedOwner nft \<noteq> pv_encryptedBuyer d"
    using assms(1,2) by (auto simp: privateBuySettle_def reply_def)
  obtain bal where bal: "getPoolBalance (app_db a) (pv_accountHash d) = Some bal"
    using assms(1,2) own
    by (cases "getPoolBalance (app_db a) (pv_accountHash d)")
       (auto simp: privateBuySettle_def reply_def)
  have enough: "\<not> parseFloat (pb_balance bal) < parseFloat (l_price listing)"
    using assms(1,2) own bal by (auto simp: privateBuySettle_def reply_def Let_def)
  obtain h p where enc: "e_encryptedInput e addr (pv_buyerAddress d) = Inr (h, p)"
    using assms(1,2) own bal enough
    by (cases "e_encryptedInput e addr (pv_buyerAddress d)")
       (auto simp: privateBuySettle_def reply_def Let_def)
  let ?rq = "\<lparr>rq_collectionAddress = addr, rq_tokenId = n_tokenId nft,
              rq_price = l_price listing, rq_encryptedBuyer = h, rq_inputProof = p\<rparr>"
  have "set (rr_calls (privateBuySettle e d nft addr listing calls a)) =
          set calls \<union> {CreateServerEncryptedAddressInput addr (pv_buyerAddress d),
                       BuyNFTViaRelayer ?rq}"
    using own bal enough enc
    by (auto simp: privateBuySettle_def reply_def Let_def split: sum.splits prod.splits)
  with assms(1,2) have rq: "rq = ?rq" by auto
  show ?thesis
    using own bal enough enc assms(3) unfolding rq
    by (simp add: privateBuySettle_def reply_def Let_def)
qed

lemma deactivateListing_idem:
  "deactivateListing i (deactivateListing i s) = deactivateListing i s"
  by (simp add: deactivateListing_def comp_def)

lemma privateBuySettle_submitted:
  assumes own: "n_encryptedOwner nft \<noteq> pv_encryptedBuyer d"
      and bal: "getPoolBalance (app_db a) (pv_accountHash d) = Some bal"
      and enough: "\<not> parseFloat (pb_balance bal) < parseFloat (l_price listing)"
      and enc: "e_encryptedInput e addr (pv_buyerAddress d) = Inr (h, p)"
      and rq: "rq = \<lparr>rq_collectionAddress = addr, rq_tokenId = n_tokenId nft,
                     rq_price = l_price listing, rq_encryptedBuyer = h, rq_inputProof = p\<rparr>"
      and calls2: "calls2 = calls @ [CreateServerEncryptedAddressInput addr (pv_buyerAddress d),
                                    BuyNFTViaRelayer rq]"
  shows "privateBuySettle e d nft addr listing calls a =
           (if \<not> rb_success (buyNFTViaRelayer e rq)
            then reply a calls2 500
                   (ErrorBody (case rb_error (buyNFTViaRelayer e rq) of
                                 None \<Rightarrow> ''Private buy failed''
                               | Some m \<Rightarrow> if m = [] then ''Private buy failed'' else m))
            else (case atomicPoolBuy
                         \<lparr>bp_nftId = pv_nftId d, bp_listingId = l_id listing,
                          bp_buyerAccountHash = pv_accountHash d,
                          bp_encryptedBuyer = pv_encryptedBuyer d,
                          bp_encryptedSeller = l_encryptedSeller listing,
                          bp_price = l_price listing,
                          bp_txHash = rb_txHash (buyNFTViaRelayer e rq)\<rparr> (app_db a) of
                    Inl err \<Rightarrow> reply a calls2 500 (FailedPrivatelyStorage err)
                  | Inr (poolResult, s') \<Rightarrow>
                      reply (a\<lparr>app_db := s'\<rparr>) calls2 200
                        (PurchasedPrivately (rb_txHash (buyNFTViaRelayer e rq)) (l_price listing))))"
  using own bal enough enc unfolding rq calls2
  by (simp add: privateBuySettle_def Let_def split: sum.split prod.split)

lemma ex_floats:
  "\<not> parseFloat 50000000 < parseFloat 20000000"
  by code_simp

lemma ex_lookup:
  "getNftById (app_db ex_app) (pv_nftId ex_privateBuyBody) = Some ex_nft"
  "deployedAddress (getCollectionById (app_db ex_app) (n_collectionId ex_nft)) = Some ''0xc0''"
  "getListingByNftId (app_db ex_app) (pv_nftId ex_privateBuyBody) = Some ex_listing"
  by (simp_all add: ex_app_def ex_privateBuyBody_def ex_db_def ex_nft_def ex_listing_def
        getNftById_def getListingByNftId_def getCollectionById_def deployedAddress_def)

lemma ex_valid:
  "isEthereumAddress (pv_buyerAddress ex_privateBuyBody)"
  "sd_action (sr_data (pv_signedRequest ex_privateBuyBody)) = ''buy''"
  by (simp_all add: ex_privateBuyBody_def ex_signedRequest_def isEthereumAddress_def
        isHexDigit_def toLowerCase_def)

lemma ex_settle_pre:
  "n_encryptedOwner ex_nft \<noteq> pv_encryptedBuyer ex_privateBuyBody"
  "getPoolBalance (app_db (ex_app\<lparr>app_nonces := ns\<rparr>)) (pv_accountHash ex_privateBuyBody) =
       Some \<lparr>pb_encryptedOwner = ''H0xab'', pb_balance = 50000000,
             pb_totalDeposited = 50000000, pb_totalSpent = 0\<rparr>"
  "\<not> parseFloat (pb_balance \<lparr>pb_encryptedOwner = ''H0xab'', pb_balance = 50000000,
             pb_totalDeposited = 50000000, pb_totalSpent = 0\<rparr>) < parseFloat (l_price ex_listing)"
  "ex_request = \<lparr>rq_collectionAddress = ''0xc0'', rq_tokenId = n_tokenId ex_nft,
             rq_price = l_price ex_listing, rq_encryptedBuyer = ''0x01'',
             rq_inputProof = ''0x02''\<rparr>"
  using ex_floats
  by (simp_all add: ex_nft_def ex_privateBuyBody_def getPoolBalance_def ex_app_def ex_db_def
        ex_listing_def ex_request_def)

lemma ex_route_failing:
  "privateBuyRoute ex_env_failing ex_privateBuyBody ex_app =
     reply (ex_app\<lparr>app_nonces := \<lparr>usedNonces = [''0xab'' \<mapsto> {''41''}],
                   nonceTimestamps = [(''0xab:41'', 1700000000000)]\<rparr>\<rparr>)
       [CheckOnChainListingStatus ''0xc0'' 7,
        CreateServerEncryptedAddressInput ''0xc0'' ''0x00000000000000000000000000000000000000ab'',
        BuyNFTViaRelayer ex_request] 500 (ErrorBody ''execution reverted'')"
proof -
  have auth: "verifySignedRequest (e_keccak ex_env_failing) (e_recover ex_env_failing)
      (e_now ex_env_failing) (pv_signedRequest ex_privateBuyBody) (pv_accountHash ex_privateBuyBody)
      (app_nonces ex_app) =
       (Inr ''0xAb'', \<lparr>usedNonces = [''0xab'' \<mapsto> {''41''}],
                   nonceTimestamps = [(''0xab:41'', 1700000000000)]\<rparr>)"
    using ex_auth by (simp add: ex_env_failing_def ex_privateBuyBody_def ex_app_def)
  have cfg: "e_relayerConfigured ex_env_failing" "e_serverFhevmConfigured ex_env_failing"
    by (simp_all add: ex_env_failing_def ex_env_def)
  have st: "ocs_isListed (checkOnChainListingStatus ex_env_failing ''0xc0'' (n_tokenId ex_nft))"
    by (simp add: checkOnChainListingStatus_def ex_env_failing_def ex_env_def)
  have buy: "buyNFTViaRelayer ex_env_failing ex_request =
             \<lparr>rb_success = False, rb_txHash = None, rb_error = Some ''execution reverted''\<rparr>"
    by (simp add: buyNFTViaRelayer_def ex_env_failing_def ex_env_def ex_request_def)
  have enc: "e_encryptedInput ex_env_failing ''0xc0'' (pv_buyerAddress ex_privateBuyBody) =
               Inr (''0x01'', ''0x02'')"
    by (simp add: ex_env_failing_def ex_env_def)
  show ?thesis
    unfolding privateBuyRoute_reconciled [OF cfg ex_valid auth ex_lookup]
    using st
    by (simp add: privateBuySettle_submitted [OF ex_settle_pre(1,2,3) enc ex_settle_pre(4) refl] buy)
       (simp add: ex_privateBuyBody_def ex_nft_def)
qed

text \<open>
  C4. When \<^verbatim>\<open>POST /api/buy/private\<close> has called \<^verbatim>\<open>buyNFTViaRelayer\<close> and the call
  reports failure, the handler answers 500 with the relayer's error (or the default text),
  and the database is the one it started from: pool balances, trades, ownership pointers
  and listings alike. (The nonce of the request stays consumed: it was spent on
  authorization, before the ledger was called.)
\<close>

theorem chain_failure_leaves_database:
  assumes called: "BuyNFTViaRelayer rq \<in> set (rr_calls (privateBuyRoute e d a))"
      and failed: "\<not> rb_success (buyNFTViaRelayer e rq)"
  shows "rr_status (privateBuyRoute e d a) = 500
       \<and> rr_body (privateBuyRoute e d a) =
           ErrorBody (case rb_error (buyNFTViaRelayer e rq) of
                        None \<Rightarrow> ''Private buy failed''
                      | Some m \<Rightarrow> if m = [] then ''Private buy failed'' else m)
       \<and> app_db (rr_app (privateBuyRoute e d a)) = app_db a"
proof -
  from called have "rr_calls (privateBuyRoute e d a) \<noteq> []" by auto
  from privateBuyRoute_calls [OF this] obtain signer ns nft addr listing where
    h: "e_relayerConfigured e" "e_serverFhevmConfigured e"
       "isEthereumAddress (pv_buyerAddress d)"
       "sd_action (sr_data (pv_signedRequest d)) = ''buy''"
       "verifySignedRequest (e_keccak e) (e_recover e) (e_now e) (pv_signedRequest d)
               (pv_accountHash d) (app_nonces a) = (Inr signer, ns)"
       "getNftById (app_db a) (pv_nftId d) = Some nft"
       "deployedAddress (getCollectionById (app_db a) (n_collectionId nft)) = Some addr"
       "getListingByNftId (app_db a) (pv_nftId d) = Some listing"
    by blast
  note r = privateBuyRoute_reconciled [OF h]
  show ?thesis
  proof (cases "ocs_isListed (checkOnChainListingStatus e addr (n_tokenId nft))")
    case False
    with called show ?thesis by (simp add: r reply_def)
  next
    case True
    then have eq: "privateBuyRoute e d a =
        privateBuySettle e d nft addr listing
          [CheckOnChainListingStatus addr (n_tokenId nft)] (a\<lparr>app_nonces := ns\<rparr>)"
      by (simp add: r)
    have "privateBuySettle e d nft addr listing
            [CheckOnChainListingStatus addr (n_tokenId nft)] (a\<lparr>app_nonces := ns\<rparr>) =
          reply (a\<lparr>app_nonces := ns\<rparr>)
            ([CheckOnChainListingStatus addr (n_tokenId nft)] @
             [CreateServerEncryptedAddressInput addr (pv_buyerAddress d), BuyNFTViaRelayer rq]) 500
            (ErrorBody (case rb_error (buyNFTViaRelayer e rq) of
                          None \<Rightarrow> ''Private buy failed''
                        | Some m \<Rightarrow> if m = [] then ''Private buy failed'' else m))"
      using called failed unfolding eq
      by (intro privateBuySettle_failed_buy) auto
    then show ?thesis by (simp add: eq reply_def)
  qed
qed


theorem chain_failure_leaves_database_witness:
  "BuyNFTViaRelayer ex_request \<in> set (rr_calls (privateBuyRoute ex_env_failing ex_privateBuyBody ex_app))
   \<and> \<not> rb_success (buyNFTViaRelayer ex_env_failing ex_request)
   \<and> rr_status (privateBuyRoute ex_env_failing ex_privateBuyBody ex_app) = 500
   \<and> rr_body (privateBuyRoute ex_env_failing ex_privateBuyBody ex_app) =
        ErrorBody ''execution reverted''
   \<and> app_db (rr_app (privateBuyRoute ex_env_failing ex_privateBuyBody ex_app)) = ex_db"
proof -
  have f: "buyNFTViaRelayer ex_env_failing ex_request =
             \<lparr>rb_success = False, rb_txHash = None, rb_error = Some ''execution reverted''\<rparr>"
    by (simp add: buyNFTViaRelayer_def ex_env_failing_def ex_env_def ex_request_def)
  have c: "BuyNFTViaRelayer ex_request \<in>
             set (rr_calls (privateBuyRoute ex_env_failing ex_privateBuyBody ex_app))"
    by (simp add: ex_route_failing reply_def)
  have n: "\<not> rb_success (buyNFTViaRelayer ex_env_failing ex_request)"
    by (simp add: f)
  show ?thesis
    using c n chain_failure_leaves_database [OF c n]
    by (simp add: f ex_app_def)
qed


lemma privateBuySettle_early:
  assumes "\<not> (n_encryptedOwner nft \<noteq> pv_encryptedBuyer d
              \<and> (\<exists>bal. getPoolBalance (app_db a) (pv_accountHash d) = Some bal
                       \<and> \<not> parseFloat (pb_balance bal) < parseFloat (l_price listing))
              \<and> (\<exists>h p. e_encryptedInput e addr (pv_buyerAddress d) = Inr (h, p)))"
  shows "rr_status (privateBuySettle e d nft addr listing calls a) \<noteq> 200
       \<and> rr_app (privateBuySettle e d nft addr listing calls a) = a
       \<and> BuyNFTViaRelayer rq \<notin> set (rr_calls (privateBuySettle e d nft addr listing calls a))
            - set calls"
proof (cases "n_encryptedOwner nft = pv_encryptedBuyer d")
  case True
  then show ?thesis by (simp add: privateBuySettle_def reply_def)
next
  case own: False
  show ?thesis
  proof (cases "getPoolBalance (app_db a) (pv_accountHash d)")
    case None
    with own show ?thesis by (simp add: privateBuySettle_def reply_def)
  next
    case (Some bal)
    show ?thesis
    proof (cases "parseFloat (pb_balance bal) < parseFloat (l_price listing)")
      case True
      with own Some show ?thesis by (simp add: privateBuySettle_def reply_def Let_def)
    next
      case False
      with assms own Some obtain m where "e_encryptedInput e addr (pv_buyerAddress d) = Inl m"
        by (cases "e_encryptedInput e addr (pv_buyerAddress d)") auto
      with own Some False show ?thesis
        by (simp add: privateBuySettle_def reply_def Let_def)
    qed
  qed
qed

lemma privateBuySettle_late:
  assumes own: "n_encryptedOwner nft \<noteq> pv_encryptedBuyer d"
      and bal: "getPoolBalance (app_db a) (pv_accountHash d) = Some bal"
      and enough: "\<not> parseFloat (pb_balance bal) < parseFloat (l_price listing)"
      and enc: "e_encryptedInput e addr (pv_buyerAddress d) = Inr (h, p)"
      and rq: "rq = \<lparr>rq_collectionAddress = addr, rq_tokenId = n_tokenId nft,
                     rq_price = l_price listing, rq_encryptedBuyer = h, rq_inputProof = p\<rparr>"
      and bp: "bp = \<lparr>bp_nftId = pv_nftId d, bp_listingId = l_id listing,
                     bp_buyerAccountHash = pv_accountHash d,
                     bp_encryptedBuyer = pv_encryptedBuyer d,
                     bp_encryptedSeller = l_encryptedSeller listing,
                     bp_price = l_price listing,
                     bp_txHash = rb_txHash (buyNFTViaRelayer e rq)\<rparr>"
  shows "rr_calls (privateBuySettle e d nft addr listing calls a) =
           calls @ [CreateServerEncryptedAddressInput addr (pv_buyerAddress d),
                    BuyNFTViaRelayer rq]"
    and "rr_status (privateBuySettle e d nft addr listing calls a) = 200 \<longleftrightarrow>
           rb_success (buyNFTViaRelayer e rq) \<and> (\<exists>res s'. atomicPoolBuy bp (app_db a) = Inr (res, s'))"
    and "rr_app (privateBuySettle e d nft addr listing calls a) =
           (if rb_success (buyNFTViaRelayer e rq)
            then (case atomicPoolBuy bp (app_db a) of
                    Inl err \<Rightarrow> a
                  | Inr (res, s') \<Rightarrow> a\<lparr>app_db := s'\<rparr>)
            else a)"
  unfolding privateBuySettle_submitted [OF own bal enough enc rq refl] bp
  by (simp_all add: reply_def split: sum.split prod.split)

text \<open>
  C5. Once \<^verbatim>\<open>POST /api/buy/private\<close> has authorized the request and found the asset, its
  deployed collection and a locally active listing, it asks the ledger. If the ledger does
  not report the asset as listed, the handler answers 400 having made no other call to the
  relayer, the only change to the database is that the listing is deactivated (doing so
  again changes nothing), and no balance, trade or ownership pointer is touched. If the
  ledger confirms the listing, the settlement proceeds from the database, and so the
  listing, as they were: the handler answers 200 only if the buyer is not the owner, holds
  the price in the pool and the encrypted input was produced; when these hold, it has
  called the relayer's purchase of that token at the listing's price, it answers 200
  exactly when that call succeeded and \<^verbatim>\<open>atomicPoolBuy\<close> for the listing committed, and
  the database is then the committed one; in every other case the database, and with it
  the listing, is unchanged.
\<close>

theorem reconcile_before_settlement:
  assumes cfg: "e_relayerConfigured e" "e_serverFhevmConfigured e"
      and valid: "isEthereumAddress (pv_buyerAddress d)"
                 "sd_action (sr_data (pv_signedRequest d)) = ''buy''"
      and auth: "verifySignedRequest (e_keccak e) (e_recover e) (e_now e) (pv_signedRequest d)
                   (pv_accountHash d) (app_nonces a) = (Inr signer, ns)"
      and nft: "getNftById (app_db a) (pv_nftId d) = Some nft"
      and col: "deployedAddress (getCollectionById (app_db a) (n_collectionId nft)) = Some addr"
      and lst: "getListingByNftId (app_db a) (pv_nftId d) = Some listing"
  shows "if ocs_isListed (checkOnChainListingStatus e addr (n_tokenId nft))
         then (rr_status (privateBuyRoute e d a) = 200 \<longrightarrow>
                 n_encryptedOwner nft \<noteq> pv_encryptedBuyer d
               \<and> (\<exists>bal. getPoolBalance (app_db a) (pv_accountHash d) = Some bal
                        \<and> \<not> parseFloat (pb_balance bal) < parseFloat (l_price listing))
               \<and> (\<exists>h p. e_encryptedInput e addr (pv_buyerAddress d) = Inr (h, p)))
            \<and> (rr_status (privateBuyRoute e d a) \<noteq> 200 \<longrightarrow>
                 app_db (rr_app (privateBuyRoute e d a)) = app_db a)
            \<and> (\<forall>bal h p rq bp.
                  n_encryptedOwner nft \<noteq> pv_encryptedBuyer d
                \<and> getPoolBalance (app_db a) (pv_accountHash d) = Some bal
                \<and> \<not> parseFloat (pb_balance bal) < parseFloat (l_price listing)
                \<and> e_encryptedInput e addr (pv_buyerAddress d) = Inr (h, p)
                \<and> rq = \<lparr>rq_collectionAddress = addr, rq_tokenId = n_tokenId nft,
                         rq_price = l_price listing, rq_encryptedBuyer = h, rq_inputProof = p\<rparr>
                \<and> bp = \<lparr>bp_nftId = pv_nftId d, bp_listingId = l_id listing,
                         bp_buyerAccountHash = pv_accountHash d,
                         bp_encryptedBuyer = pv_encryptedBuyer d,
                         bp_encryptedSeller = l_encryptedSeller listing,
                         bp_price = l_price listing,
                         bp_txHash = rb_txHash (buyNFTViaRelayer e rq)\<rparr>
                \<longrightarrow> rr_calls (privateBuyRoute e d a) =
                      [CheckOnChainListingStatus addr (n_tokenId nft),
                       CreateServerEncryptedAddressInput addr (pv_buyerAddress d),
                       BuyNFTViaRelayer rq]
                  \<and> (rr_status (privateBuyRoute e d a) = 200 \<longleftrightarrow>
                       rb_success (buyNFTViaRelayer e rq)
                       \<and> (\<exists>res s'. atomicPoolBuy bp (app_db a) = Inr (res, s')))
                  \<and> (\<forall>res s'. rb_success (buyNFTViaRelayer e rq)
                              \<and> atomicPoolBuy bp (app_db a) = Inr (res, s')
                        \<longrightarrow> app_db (rr_app (privateBuyRoute e d a)) = s'))
         else rr_status (privateBuyRoute e d a) = 400
              \<and> rr_calls (privateBuyRoute e d a) = [CheckOnChainListingStatus addr (n_tokenId nft)]
              \<and> app_db (rr_app (privateBuyRoute e d a)) =
                  deactivateListing (l_id listing) (app_db a)
              \<and> poolBalances (app_db (rr_app (privateBuyRoute e d a))) = poolBalances (app_db a)
              \<and> poolTransactions (app_db (rr_app (privateBuyRoute e d a))) =
                  poolTransactions (app_db a)
              \<and> trades (app_db (rr_app (privateBuyRoute e d a))) = trades (app_db a)
              \<and> nfts (app_db (rr_app (privateBuyRoute e d a))) = nfts (app_db a)
              \<and> (\<forall>l \<in> set (listings (app_db (rr_app (privateBuyRoute e d a)))).
                    l_id l = l_id listing \<longrightarrow> \<not> l_isActive l)
              \<and> deactivateListing (l_id listing) (app_db (rr_app (privateBuyRoute e d a))) =
                  app_db (rr_app (privateBuyRoute e d a))"
proof (cases "ocs_isListed (checkOnChainListingStatus e addr (n_tokenId nft))")
  case True
  let ?a = "a\<lparr>app_nonces := ns\<rparr>"
  let ?calls = "[CheckOnChainListingStatus addr (n_tokenId nft)]"
  have eq: "privateBuyRoute e d a = privateBuySettle e d nft addr listing ?calls ?a"
    using True by (simp add: privateBuyRoute_reconciled [OF assms])
  have db: "app_db ?a = app_db a" by simp
  have checks: "n_encryptedOwner nft \<noteq> pv_encryptedBuyer d
               \<and> (\<exists>bal. getPoolBalance (app_db a) (pv_accountHash d) = Some bal
                        \<and> \<not> parseFloat (pb_balance bal) < parseFloat (l_price listing))
               \<and> (\<exists>h p. e_encryptedInput e addr (pv_buyerAddress d) = Inr (h, p))"
    if "rr_status (privateBuyRoute e d a) = 200"
    using that privateBuySettle_early [of nft d ?a listing e addr ?calls] unfolding eq db
    by blast
  have late: "rr_calls (privateBuyRoute e d a) =
                [CheckOnChainListingStatus addr (n_tokenId nft),
                 CreateServerEncryptedAddressInput addr (pv_buyerAddress d),
                 BuyNFTViaRelayer rq]
            \<and> (rr_status (privateBuyRoute e d a) = 200 \<longleftrightarrow>
                 rb_success (buyNFTViaRelayer e rq)
                 \<and> (\<exists>res s'. atomicPoolBuy bp (app_db a) = Inr (res, s')))
            \<and> (\<forall>res s'. rb_success (buyNFTViaRelayer e rq)
                        \<and> atomicPoolBuy bp (app_db a) = Inr (res, s')
                  \<longrightarrow> app_db (rr_app (privateBuyRoute e d a)) = s')"
    if h: "n_encryptedOwner nft \<noteq> pv_encryptedBuyer d"
          "getPoolBalance (app_db a) (pv_accountHash d) = Some bal"
          "\<not> parseFloat (pb_balance bal) < parseFloat (l_price listing)"
          "e_encryptedInput e addr (pv_buyerAddress d) = Inr (h, p)"
          "rq = \<lparr>rq_collectionAddress = addr, rq_tokenId = n_tokenId nft,
                 rq_price = l_price listing, rq_encryptedBuyer = h, rq_inputProof = p\<rparr>"
          "bp = \<lparr>bp_nftId = pv_nftId d, bp_listingId = l_id listing,
                 bp_buyerAccountHash = pv_accountHash d,
                 bp_encryptedBuyer = pv_encryptedBuyer d,
                 bp_encryptedSeller = l_encryptedSeller listing,
                 bp_price = l_price listing,
                 bp_txHash = rb_txHash (buyNFTViaRelayer e rq)\<rparr>"
    for bal h p rq bp
  proof -
    have b: "getPoolBalance (app_db ?a) (pv_accountHash d) = Some bal"
      using h(2) by simp
    note l = privateBuySettle_late [OF h(1) b h(3,4,5), of bp ?calls, unfolded db, OF h(6)]
    show ?thesis
      unfolding eq using l by (auto split: sum.splits)
  qed
  have unchanged: "app_db (rr_app (privateBuyRoute e d a)) = app_db a"
    if n: "rr_status (privateBuyRoute e d a) \<noteq> 200"
  proof (cases "n_encryptedOwner nft \<noteq> pv_encryptedBuyer d
               \<and> (\<exists>bal. getPoolBalance (app_db a) (pv_accountHash d) = Some bal
                        \<and> \<not> parseFloat (pb_balance bal) < parseFloat (l_price listing))
               \<and> (\<exists>h p. e_encryptedInput e addr (pv_buyerAddress d) = Inr (h, p))")
    case False
    then show ?thesis
      using privateBuySettle_early [of nft d ?a listing e addr ?calls] unfolding eq db
      by simp
  next
    case True
    then obtain bal h p where h:
      "n_encryptedOwner nft \<noteq> pv_encryptedBuyer d"
      "getPoolBalance (app_db ?a) (pv_accountHash d) = Some bal"
      "\<not> parseFloat (pb_balance bal) < parseFloat (l_price listing)"
      "e_encryptedInput e addr (pv_buyerAddress d) = Inr (h, p)"
      by auto
    note l = privateBuySettle_late [OF h refl refl, of ?calls, unfolded db]
    show ?thesis
      using n unfolding eq
      by (cases "rb_success (buyNFTViaRelayer e
                   \<lparr>rq_collectionAddress = addr, rq_tokenId = n_tokenId nft,
                    rq_price = l_price listing, rq_encryptedBuyer = h, rq_inputProof = p\<rparr>)")
         (auto simp: l split: sum.splits)
  qed
  from True checks unchanged late show ?thesis
    by (simp only: if_True) blast
next
  case False
  have r: "privateBuyRoute e d a =
             reply (a\<lparr>app_nonces := ns, app_db := deactivateListing (l_id listing) (app_db a)\<rparr>)
               [CheckOnChainListingStatus addr (n_tokenId nft)] 400
               (ErrorBody ''NFT is no longer listed for sale. The listing has been updated.'')"
    using False by (simp add: privateBuyRoute_reconciled [OF assms])
  have fr: "poolBalances (deactivateListing (l_id listing) (app_db a)) = poolBalances (app_db a)"
           "poolTransactions (deactivateListing (l_id listing) (app_db a)) =
              poolTransactions (app_db a)"
           "trades (deactivateListing (l_id listing) (app_db a)) = trades (app_db a)"
           "nfts (deactivateListing (l_id listing) (app_db a)) = nfts (app_db a)"
    by (simp_all add: deactivateListing_def)
  have off: "\<forall>l \<in> set (listings (deactivateListing (l_id listing) (app_db a))).
               l_id l = l_id listing \<longrightarrow> \<not> l_isActive l"
    by (auto simp: deactivateListing_def)
  show ?thesis
    using False fr off by (simp add: r reply_def deactivateListing_idem)
qed

lemma ex_route_buy:
  "buyNFTViaRelayer ex_env ex_request =
     \<lparr>rb_success = True, rb_txHash = Some ''0xtx'', rb_error = None\<rparr>"
  "ex_buyParams = \<lparr>bp_nftId = pv_nftId ex_privateBuyBody, bp_listingId = l_id ex_listing,
                    bp_buyerAccountHash = pv_accountHash ex_privateBuyBody,
                    bp_encryptedBuyer = pv_encryptedBuyer ex_privateBuyBody,
                    bp_encryptedSeller = l_encryptedSeller ex_listing,
                    bp_price = l_price ex_listing,
                    bp_txHash = rb_txHash (buyNFTViaRelayer ex_env ex_request)\<rparr>"
  "e_encryptedInput ex_env ''0xc0'' (pv_buyerAddress ex_privateBuyBody) = Inr (''0x01'', ''0x02'')"
  "ocs_isListed (checkOnChainListingStatus ex_env ''0xc0'' (n_tokenId ex_nft))"
proof -
  show b: "buyNFTViaRelayer ex_env ex_request =
     \<lparr>rb_success = True, rb_txHash = Some ''0xtx'', rb_error = None\<rparr>"
    by (simp add: buyNFTViaRelayer_def ex_env_def ex_request_def)
  show "ex_buyParams = \<lparr>bp_nftId = pv_nftId ex_privateBuyBody, bp_listingId = l_id ex_listing,
                    bp_buyerAccountHash = pv_accountHash ex_privateBuyBody,
                    bp_encryptedBuyer = pv_encryptedBuyer ex_privateBuyBody,
                    bp_encryptedSeller = l_encryptedSeller ex_listing,
                    bp_price = l_price ex_listing,
                    bp_txHash = rb_txHash (buyNFTViaRelayer ex_env ex_request)\<rparr>"
    by (simp add: b ex_buyParams_def ex_privateBuyBody_def ex_listing_def)
  show "e_encryptedInput ex_env ''0xc0'' (pv_buyerAddress ex_privateBuyBody) =
          Inr (''0x01'', ''0x02'')"
    by (simp add: ex_env_def)
  show "ocs_isListed (checkOnChainListingStatus ex_env ''0xc0'' (n_tokenId ex_nft))"
    by (simp add: checkOnChainListingStatus_def ex_env_def)
qed

theorem reconcile_before_settlement_witness:
  "\<not> ocs_isListed (checkOnChainListingStatus ex_env_unlisted ''0xc0'' (n_tokenId ex_nft))
   \<and> rr_status (privateBuyRoute ex_env_unlisted ex_privateBuyBody ex_app) = 400
   \<and> rr_calls (privateBuyRoute ex_env_unlisted ex_privateBuyBody ex_app) =
        [CheckOnChainListingStatus ''0xc0'' 7]
   \<and> listings (app_db (rr_app (privateBuyRoute ex_env_unlisted ex_privateBuyBody ex_app))) =
        [ex_listing\<lparr>l_isActive := False\<rparr>]
   \<and> poolBalances (app_db (rr_app (privateBuyRoute ex_env_unlisted ex_privateBuyBody ex_app))) =
        poolBalances ex_db
   \<and> ocs_isListed (checkOnChainListingStatus ex_env ''0xc0'' (n_tokenId ex_nft))
   \<and> rr_status (privateBuyRoute ex_env ex_privateBuyBody ex_app) = 200
   \<and> rr_calls (privateBuyRoute ex_env ex_privateBuyBody ex_app) =
        [CheckOnChainListingStatus ''0xc0'' 7,
         CreateServerEncryptedAddressInput ''0xc0'' ''0x00000000000000000000000000000000000000ab'',
         BuyNFTViaRelayer ex_request]
   \<and> rb_success (buyNFTViaRelayer ex_env ex_request)
   \<and> balanceOf (app_db (rr_app (privateBuyRoute ex_env ex_privateBuyBody ex_app))) ''H0xab'' =
        Some 30000000
   \<and> balanceOf (app_db (rr_app (privateBuyRoute ex_env ex_privateBuyBody ex_app))) ''Hseller'' =
        Some 20000000
   \<and> listings (app_db (rr_app (privateBuyRoute ex_env ex_privateBuyBody ex_app))) =
        [ex_listing\<lparr>l_isActive := False\<rparr>]
   \<and> trades (app_db (rr_app (privateBuyRoute ex_env ex_privateBuyBody ex_app))) =
        [settledTrade ex_buyParams]"
proof -
  have auth: "verifySignedRequest (e_keccak ex_env_unlisted) (e_recover ex_env_unlisted)
      (e_now ex_env_unlisted) (pv_signedRequest ex_privateBuyBody)
      (pv_accountHash ex_privateBuyBody) (app_nonces ex_app) =
       (Inr ''0xAb'', \<lparr>usedNonces = [''0xab'' \<mapsto> {''41''}],
                   nonceTimestamps = [(''0xab:41'', 1700000000000)]\<rparr>)"
    using ex_auth by (simp add: ex_env_unlisted_def ex_privateBuyBody_def ex_app_def)
  have cfg: "e_relayerConfigured ex_env_unlisted" "e_serverFhevmConfigured ex_env_unlisted"
    by (simp_all add: ex_env_unlisted_def ex_env_def)
  have st: "\<not> ocs_isListed (checkOnChainListingStatus ex_env_unlisted ''0xc0'' (n_tokenId ex_nft))"
    by (simp add: checkOnChainListingStatus_def ex_env_unlisted_def ex_env_def)
  have unlisted:
    "rr_status (privateBuyRoute ex_env_unlisted ex_privateBuyBody ex_app) = 400
   \<and> rr_calls (privateBuyRoute ex_env_unlisted ex_privateBuyBody ex_app) =
        [CheckOnChainListingStatus ''0xc0'' 7]
   \<and> listings (app_db (rr_app (privateBuyRoute ex_env_unlisted ex_privateBuyBody ex_app))) =
        [ex_listing\<lparr>l_isActive := False\<rparr>]
   \<and> poolBalances (app_db (rr_app (privateBuyRoute ex_env_unlisted ex_privateBuyBody ex_app))) =
        poolBalances ex_db"
    using st reconcile_before_settlement [OF cfg ex_valid auth ex_lookup]
    by (simp add: ex_nft_def)
       (simp add: deactivateListing_def ex_app_def ex_db_def ex_listing_def)
  have auth': "verifySignedRequest (e_keccak ex_env) (e_recover ex_env)
      (e_now ex_env) (pv_signedRequest ex_privateBuyBody)
      (pv_accountHash ex_privateBuyBody) (app_nonces ex_app) =
       (Inr ''0xAb'', \<lparr>usedNonces = [''0xab'' \<mapsto> {''41''}],
                   nonceTimestamps = [(''0xab:41'', 1700000000000)]\<rparr>)"
    using ex_auth by (simp add: ex_privateBuyBody_def ex_app_def)
  have cfg': "e_relayerConfigured ex_env" "e_serverFhevmConfigured ex_env"
    by (simp_all add: ex_env_def)
  have bal: "getPoolBalance (app_db ex_app) (pv_accountHash ex_privateBuyBody) =
       Some \<lparr>pb_encryptedOwner = ''H0xab'', pb_balance = 50000000,
             pb_totalDeposited = 50000000, pb_totalSpent = 0\<rparr>"
    using ex_settle_pre(2) [of "app_nonces ex_app"] by simp
  obtain res s' where commit: "atomicPoolBuy ex_buyParams ex_db = Inr (res, s')"
    using ex_buy by blast
  then have commit': "atomicPoolBuy ex_buyParams (app_db ex_app) = Inr (res, s')"
    by (simp add: ex_app_def)
  from reconcile_before_settlement [OF cfg' ex_valid auth' ex_lookup] ex_route_buy(4)
  have "rr_calls (privateBuyRoute ex_env ex_privateBuyBody ex_app) =
          [CheckOnChainListingStatus ''0xc0'' (n_tokenId ex_nft),
           CreateServerEncryptedAddressInput ''0xc0'' (pv_buyerAddress ex_privateBuyBody),
           BuyNFTViaRelayer ex_request]
      \<and> (rr_status (privateBuyRoute ex_env ex_privateBuyBody ex_app) = 200 \<longleftrightarrow>
           rb_success (buyNFTViaRelayer ex_env ex_request)
           \<and> (\<exists>res s'. atomicPoolBuy ex_buyParams (app_db ex_app) = Inr (res, s')))
      \<and> (\<forall>res s'. rb_success (buyNFTViaRelayer ex_env ex_request)
                  \<and> atomicPoolBuy ex_buyParams (app_db ex_app) = Inr (res, s')
            \<longrightarrow> app_db (rr_app (privateBuyRoute ex_env ex_privateBuyBody ex_app)) = s')"
    using ex_settle_pre(1) bal ex_settle_pre(3) ex_route_buy(3) ex_settle_pre(4) ex_route_buy(2)
    by (simp only: if_True) blast
  with commit' ex_route_buy(1)
  have listed:
    "rr_status (privateBuyRoute ex_env ex_privateBuyBody ex_app) = 200"
    "rr_calls (privateBuyRoute ex_env ex_privateBuyBody ex_app) =
          [CheckOnChainListingStatus ''0xc0'' (n_tokenId ex_nft),
           CreateServerEncryptedAddressInput ''0xc0'' (pv_buyerAddress ex_privateBuyBody),
           BuyNFTViaRelayer ex_request]"
    "app_db (rr_app (privateBuyRoute ex_env ex_privateBuyBody ex_app)) = s'"
    by auto
  have s': "poolBalances s' =
              [''H0xab'' \<mapsto> \<lparr>pb_encryptedOwner = ''H0xab'', pb_balance = 30000000,
                                pb_totalDeposited = 50000000, pb_totalSpent = 20000000\<rparr>,
               ''Hseller'' \<mapsto> \<lparr>pb_encryptedOwner = ''Hseller'', pb_balance = 20000000,
                                 pb_totalDeposited = 0, pb_totalSpent = 0\<rparr>]"
           "listings s' = [ex_listing\<lparr>l_isActive := False\<rparr>]"
           "trades s' = [settledTrade ex_buyParams]"
    using commit by (auto simp: ex_buy)
  show ?thesis
    using st unlisted ex_route_buy(4)
    by (simp add: listed ex_route_buy(1) s' balanceOf_def)
       (simp add: ex_nft_def ex_privateBuyBody_def)
qed

section \<open>Listings\<close>

lemma active_after_deactivate:
  "map l_nftId (filter l_isActive
      (map (\<lambda>l. if l_id l = i then l\<lparr>l_isActive := False\<rparr> else l) xs)) =
   map l_nftId (filter (\<lambda>l. l_id l \<noteq> i) (filter l_isActive xs))"
  by (induction xs) auto

text \<open>
  C7, as the code has it. For an asset that has a row and an active listing,
  \<^verbatim>\<open>createListing\<close> first deactivates that listing, so that no older listing of the
  asset stays active, and then inserts the new row (active unless the caller says
  otherwise). It has no error of its own and checks no price: the call fails only when the
  insert does, for a price that the price column cannot hold (10,000,000,000 or more in
  magnitude), and the listing it found is then already inactive. Either way a registry
  with at most one active listing per asset keeps that property, and nothing but the
  listings changes.
\<close>

theorem createListing_replaces:
  assumes inv: "oneActivePerNft s"
      and ex: "getListingByNftId s (il_nftId il) = Some existing"
      and asset: "getNftById s (il_nftId il) \<noteq> None"
  shows "(if numericFits (il_price il)
          then fst (createListing newId il s) =
                 Inr \<lparr>l_id = newId, l_nftId = il_nftId il,
                      l_encryptedSeller = il_encryptedSeller il, l_price = il_price il,
                      l_isActive = (case il_isActive il of Some b \<Rightarrow> b | None \<Rightarrow> True)\<rparr>
             \<and> listings (snd (createListing newId il s)) =
                 listings (deactivateListing (l_id existing) s) @
                   [\<lparr>l_id = newId, l_nftId = il_nftId il,
                     l_encryptedSeller = il_encryptedSeller il, l_price = il_price il,
                     l_isActive = (case il_isActive il of Some b \<Rightarrow> b | None \<Rightarrow> True)\<rparr>]
          else fst (createListing newId il s) = Inl NumericFieldOverflow
             \<and> listings (snd (createListing newId il s)) =
                 listings (deactivateListing (l_id existing) s))
       \<and> (\<forall>l \<in> set (listings (deactivateListing (l_id existing) s)).
             l_nftId l = il_nftId il \<longrightarrow> \<not> l_isActive l)
       \<and> oneActivePerNft (snd (createListing newId il s))
       \<and> (snd (createListing newId il s))\<lparr>listings := listings s\<rparr> = s"
proof -
  let ?row = "\<lparr>l_id = newId, l_nftId = il_nftId il, l_encryptedSeller = il_encryptedSeller il,
            l_price = il_price il,
            l_isActive = (case il_isActive il of Some b \<Rightarrow> b | None \<Rightarrow> True)\<rparr>"
  let ?d = "\<lambda>l. if l_id l = l_id existing then l\<lparr>l_isActive := False\<rparr> else l"
  let ?rest = "filter (\<lambda>l. l_id l \<noteq> l_id existing) (filter l_isActive (listings s))"
  have asset': "getNftById (deactivateListing (l_id existing) s) (il_nftId il) \<noteq> None"
    using asset by simp
  have c: "createListing newId il s =
             (if numericFits (il_price il)
              then (Inr ?row, (deactivateListing (l_id existing) s)
                       \<lparr>listings := listings (deactivateListing (l_id existing) s) @ [?row]\<rparr>)
              else (Inl NumericFieldOverflow, deactivateListing (l_id existing) s))"
    using asset' by (auto simp: createListing_def ex Let_def)
  have dl: "listings (deactivateListing (l_id existing) s) = map ?d (listings s)"
    by (simp add: deactivateListing_def)
  have e: "existing \<in> set (filter l_isActive (listings s))" "l_nftId existing = il_nftId il"
    using getListingByNftId_active [OF ex] by simp_all
  have inj: "inj_on l_nftId (set (filter l_isActive (listings s)))"
    using inv by (simp only: oneActivePerNft_def distinct_map)
  have fresh: "il_nftId il \<notin> l_nftId ` set ?rest"
  proof
    assume "il_nftId il \<in> l_nftId ` set ?rest"
    then obtain y where y: "y \<in> set (filter l_isActive (listings s))" "l_id y \<noteq> l_id existing"
      "l_nftId y = il_nftId il" by auto
    have "l_nftId y = l_nftId existing" by (simp add: y(3) e(2))
    with inj have "y = existing" using y(1) e(1) by (rule inj_onD)
    with y(2) show False by simp
  qed
  have act: "map l_nftId (filter l_isActive (map ?d (listings s))) = map l_nftId ?rest"
    by (rule active_after_deactivate)
  have off: "\<forall>l \<in> set (map ?d (listings s)). l_nftId l = il_nftId il \<longrightarrow> \<not> l_isActive l"
  proof (intro ballI impI notI)
    fix l assume l: "l \<in> set (map ?d (listings s))" "l_nftId l = il_nftId il" "l_isActive l"
    from l(1,3) have "l \<in> {x \<in> set (map ?d (listings s)). l_isActive x}" by blast
    then have "l \<in> set (filter l_isActive (map ?d (listings s)))" by (simp only: set_filter)
    then have "l_nftId l \<in> l_nftId ` set (filter l_isActive (map ?d (listings s)))"
      by (rule imageI)
    then have "l_nftId l \<in> set (map l_nftId (filter l_isActive (map ?d (listings s))))"
      by (simp only: set_map)
    then have "l_nftId l \<in> set (map l_nftId ?rest)" by (simp only: act)
    then have "il_nftId il \<in> l_nftId ` set ?rest" by (simp only: set_map l(2))
    with fresh show False by contradiction
  qed
  have d1: "distinct (map l_nftId ?rest)"
    using inv unfolding oneActivePerNft_def by (rule distinct_map_filter)
  have d2: "distinct (map l_nftId (filter l_isActive (map ?d (listings s))))"
    using d1 by (simp only: act)
  have fresh2: "il_nftId il \<notin> set (map l_nftId (filter l_isActive (map ?d (listings s))))"
    unfolding act set_map by (rule fresh)
  have d3: "distinct (map l_nftId (filter l_isActive (map ?d (listings s) @ [?row])))"
  proof (cases "l_isActive ?row")
    case True
    then have "filter l_isActive (map ?d (listings s) @ [?row]) =
                 filter l_isActive (map ?d (listings s)) @ [?row]"
      by (simp only: filter_append filter.simps if_True)
    then show ?thesis using d2 fresh2 by (simp only: map_append distinct_append) simp
  next
    case False
    then have "filter l_isActive (map ?d (listings s) @ [?row]) =
                 filter l_isActive (map ?d (listings s))"
      by (simp only: filter_append filter.simps if_False append_Nil2)
    then show ?thesis using d2 by (simp only:)
  qed
  have one: "oneActivePerNft (snd (createListing newId il s))"
  proof (cases "numericFits (il_price il)")
    case True
    with d3 show ?thesis by (simp add: oneActivePerNft_def c dl)
  next
    case False
    with d2 show ?thesis by (simp add: oneActivePerNft_def c dl)
  qed
  have offl: "\<forall>l \<in> set (listings (deactivateListing (l_id existing) s)).
                   l_nftId l = il_nftId il \<longrightarrow> \<not> l_isActive l"
    unfolding dl by (rule off)
  have res: "if numericFits (il_price il)
          then fst (createListing newId il s) = Inr ?row
             \<and> listings (snd (createListing newId il s)) =
                 listings (deactivateListing (l_id existing) s) @ [?row]
          else fst (createListing newId il s) = Inl NumericFieldOverflow
             \<and> listings (snd (createListing newId il s)) =
                 listings (deactivateListing (l_id existing) s)"
    by (simp add: c)
  have frame: "(snd (createListing newId il s))\<lparr>listings := listings s\<rparr> = s"
    by (simp add: c deactivateListing_def)
  from res offl one frame show ?thesis by blast
qed

theorem createListing_replaces_witness:
  "oneActivePerNft ex_db
   \<and> getListingByNftId ex_db ''nft1'' = Some ex_listing
   \<and> getNftById ex_db ''nft1'' = Some ex_nft
   \<and> numericFits (il_price ex_relistBody)
   \<and> fst (createListing ''lst2'' ex_relistBody ex_db) =
       Inr \<lparr>l_id = ''lst2'', l_nftId = ''nft1'', l_encryptedSeller = ''Hseller'', l_price = 0,
            l_isActive = True\<rparr>
   \<and> listings (snd (createListing ''lst2'' ex_relistBody ex_db)) =
       [ex_listing\<lparr>l_isActive := False\<rparr>,
        \<lparr>l_id = ''lst2'', l_nftId = ''nft1'', l_encryptedSeller = ''Hseller'', l_price = 0,
         l_isActive = True\<rparr>]
   \<and> oneActivePerNft (snd (createListing ''lst2'' ex_relistBody ex_db))
   \<and> \<not> numericFits (il_price ex_overpricedBody)
   \<and> fst (createListing ''lst2'' ex_overpricedBody ex_db) = Inl NumericFieldOverflow
   \<and> listings (snd (createListing ''lst2'' ex_overpricedBody ex_db)) =
       [ex_listing\<lparr>l_isActive := False\<rparr>]"
proof -
  have inv: "oneActivePerNft ex_db"
    by (simp add: oneActivePerNft_def ex_db_def)
  have ex: "getListingByNftId ex_db (il_nftId ex_relistBody) = Some ex_listing"
           "getListingByNftId ex_db (il_nftId ex_overpricedBody) = Some ex_listing"
    by (simp_all add: getListingByNftId_def ex_db_def ex_listing_def ex_relistBody_def
          ex_overpricedBody_def)
  have n: "getNftById ex_db ''nft1'' = Some ex_nft"
    by (simp add: getNftById_def ex_db_def ex_nft_def)
  have asset: "getNftById ex_db (il_nftId ex_relistBody) \<noteq> None"
              "getNftById ex_db (il_nftId ex_overpricedBody) \<noteq> None"
    by (simp_all add: n ex_relistBody_def ex_overpricedBody_def)
  have fits: "numericFits (il_price ex_relistBody)" "\<not> numericFits (il_price ex_overpricedBody)"
    by (simp_all add: numericFits_def ex_relistBody_def ex_overpricedBody_def)
  have d: "listings (deactivateListing (l_id ex_listing) ex_db) = [ex_listing\<lparr>l_isActive := False\<rparr>]"
    by (simp add: deactivateListing_def ex_db_def)
  show ?thesis
    using inv ex(1) n fits
      createListing_replaces [OF inv ex(1) asset(1), of "''lst2''"]
      createListing_replaces [OF inv ex(2) asset(2), of "''lst2''"]
    by (simp add: d) (simp add: ex_relistBody_def)
qed

text \<open>
  C7, as stated, fails: with \<open>lst1\<close> active for \<open>nft1\<close>, a second \<^verbatim>\<open>createListing\<close> for
  \<open>nft1\<close>, at price 0, returns the new listing \<open>lst2\<close>, which is then the active listing
  of the asset, and \<open>lst1\<close> has been deactivated.
\<close>

theorem createListing_counterexample:
  "getListingByNftId ex_db ''nft1'' = Some ex_listing
   \<and> fst (createListing ''lst2'' ex_relistBody ex_db) =
       Inr \<lparr>l_id = ''lst2'', l_nftId = ''nft1'', l_encryptedSeller = ''Hseller'', l_price = 0,
            l_isActive = True\<rparr>
   \<and> getListingByNftId (snd (createListing ''lst2'' ex_relistBody ex_db)) ''nft1'' =
       Some \<lparr>l_id = ''lst2'', l_nftId = ''nft1'', l_encryptedSeller = ''Hseller'', l_price = 0,
             l_isActive = True\<rparr>
   \<and> ex_listing\<lparr>l_isActive := False\<rparr> \<in> set (listings (snd (createListing ''lst2'' ex_relistBody ex_db)))"
  by (simp add: createListing_def getListingByNftId_def deactivateListing_def ex_db_def
        ex_listing_def ex_relistBody_def Let_def numericFits_def getNftById_def ex_nft_def)

text \<open>
  C6. A correctly signed request of account \<open>H0xab\<close> that expired two seconds ago is
  rejected and changes nothing, neither the database nor the nonce store; but the error is
  \<^verbatim>\<open>Invalid signature\<close>, from the expiry check inside \<^verbatim>\<open>verifySignature\<close>, and the
  branch of \<^verbatim>\<open>verifySignedRequest\<close> that answers \<^verbatim>\<open>Request expired\<close> is not reached.
\<close>

theorem expired_request_reported_invalid:
  "verifySignedRequest (e_keccak ex_env_late) (e_recover ex_env_late) (e_now ex_env_late)
     ex_signedRequest ''H0xab'' (app_nonces ex_app) = (Inl InvalidSignature, app_nonces ex_app)
   \<and> privateBuyRoute ex_env_late ex_privateBuyBody ex_app =
       reply ex_app [] 401 (AuthorizationFailed InvalidSignature)"
proof -
  have late: "\<not> verifySignature (e_recover ex_env_late) (e_now ex_env_late) ex_signedRequest
                  (sr_signer ex_signedRequest)"
    by (simp add: verifySignature_def isSignatureExpired_def ex_signedRequest_def ex_env_late_def)
  have h: "e_keccak ex_env_late (toLowerCase (sr_signer ex_signedRequest)) = ''H0xab''"
    by (simp add: ex_env_late_def ex_env_def ex_signedRequest_def toLowerCase_def)
  have v: "verifySignedRequest (e_keccak ex_env_late) (e_recover ex_env_late) (e_now ex_env_late)
     ex_signedRequest ''H0xab'' (app_nonces ex_app) = (Inl InvalidSignature, app_nonces ex_app)"
    using late h by (simp add: verify_outcomes)
  have cfg: "e_relayerConfigured ex_env_late" "e_serverFhevmConfigured ex_env_late"
    by (simp_all add: ex_env_late_def ex_env_def)
  have b: "pv_signedRequest ex_privateBuyBody = ex_signedRequest"
          "pv_accountHash ex_privateBuyBody = ''H0xab''"
    by (simp_all add: ex_privateBuyBody_def)
  show ?thesis
    using cfg ex_valid v by (simp add: privateBuyRoute_def b)
qed

section \<open>Sequences of ledger operations\<close>

lemma update_absent:
  assumes "poolBalances s h = None"
  shows "createOrUpdatePoolBalance h ow a t s =
           (if t \<noteq> deposit \<and> t \<noteq> nft_sale then Inl CannotSpendWithoutBalance
            else Inr (\<lparr>pb_encryptedOwner = ow, pb_balance = a,
                       pb_totalDeposited = (if t = deposit then a else 0), pb_totalSpent = 0\<rparr>,
                      s\<lparr>poolBalances := (poolBalances s)(h \<mapsto>
                          \<lparr>pb_encryptedOwner = ow, pb_balance = a,
                           pb_totalDeposited = (if t = deposit then a else 0),
                           pb_totalSpent = 0\<rparr>)\<rparr>))"
  by (simp add: createOrUpdatePoolBalance_def assms Let_def)

lemma update_other:
  assumes "h' \<noteq> h"
  shows "poolBalances (applyOp (Update h' ow a t) s) h = poolBalances s h"
proof (cases "createOrUpdatePoolBalance h' ow a t s")
  case (Inl e)
  then show ?thesis by (simp add: applyOp_def)
next
  case (Inr x)
  then show ?thesis
    using assms
    by (cases x)
       (auto simp: applyOp_def createOrUpdatePoolBalance_def Let_def
             split: option.splits if_splits)
qed

lemma net_update:
  assumes "rowInRange (poolBalances s h)" "\<bar>a\<bar> \<le> exact_limit"
  shows "net (poolBalances (applyOp (Update h' ow a t) s) h) =
           net (poolBalances s h) + proceedsOf h (Update h' ow a t) s
             - withdrawnOf h (Update h' ow a t) s"
proof (cases "h' = h")
  case False
  then show ?thesis
    by (simp add: update_other proceedsOf_def withdrawnOf_def)
next
  case True
  show ?thesis
  proof (cases "poolBalances s h")
    case None
    then show ?thesis
      unfolding True
      by (cases t)
         (simp_all add: applyOp_def succeeds_def proceedsOf_def withdrawnOf_def update_absent
            net_def)
  next
    case (Some r)
    with assms(1) have rr: "rowInRange (Some r)" by simp
    show ?thesis
      unfolding True
      by (cases t)
         (simp_all add: applyOp_def succeeds_def proceedsOf_def withdrawnOf_def
            update_in_range [OF Some rr assms(2)] net_def Some)
  qed
qed


lemma poolBuy_rows:
  assumes "bp_buyerAccountHash p \<noteq> bp_encryptedSeller p"
  shows "poolBalances (applyOp (PoolBuy p) s) =
           (if succeeds (PoolBuy p) s then
              (poolBalances s)
                (bp_buyerAccountHash p \<mapsto>
                   (case poolBalances s (bp_buyerAccountHash p) of
                      Some rb \<Rightarrow>
                        rb\<lparr>pb_balance :=
                             toFixed8 (fsub (parseFloat (pb_balance rb)) (parseFloat (bp_price p))),
                           pb_totalSpent :=
                             toFixed8 (fadd (parseFloat (pb_totalSpent rb))
                                            (parseFloat (bp_price p)))\<rparr>),
                 bp_encryptedSeller p \<mapsto>
                   (case poolBalances s (bp_encryptedSeller p) of
                      Some rs \<Rightarrow>
                        rs\<lparr>pb_balance :=
                             toFixed8 (fadd (parseFloat (pb_balance rs)) (parseFloat (bp_price p)))\<rparr>
                    | None \<Rightarrow>
                        \<lparr>pb_encryptedOwner = bp_encryptedSeller p, pb_balance = bp_price p,
                         pb_totalDeposited = 0, pb_totalSpent = 0\<rparr>))
            else poolBalances s)"
    and "succeeds (PoolBuy p) s \<Longrightarrow> poolBalances s (bp_buyerAccountHash p) \<noteq> None"
proof -
  show "succeeds (PoolBuy p) s \<Longrightarrow> poolBalances s (bp_buyerAccountHash p) \<noteq> None"
    by (cases "poolBalances s (bp_buyerAccountHash p)")
       (simp_all add: succeeds_def atomicPoolBuy_cases [OF assms])
  show "poolBalances (applyOp (PoolBuy p) s) =
           (if succeeds (PoolBuy p) s then
              (poolBalances s)
                (bp_buyerAccountHash p \<mapsto>
                   (case poolBalances s (bp_buyerAccountHash p) of
                      Some rb \<Rightarrow>
                        rb\<lparr>pb_balance :=
                             toFixed8 (fsub (parseFloat (pb_balance rb)) (parseFloat (bp_price p))),
                           pb_totalSpent :=
                             toFixed8 (fadd (parseFloat (pb_totalSpent rb))
                                            (parseFloat (bp_price p)))\<rparr>),
                 bp_encryptedSeller p \<mapsto>
                   (case poolBalances s (bp_encryptedSeller p) of
                      Some rs \<Rightarrow>
                        rs\<lparr>pb_balance :=
                             toFixed8 (fadd (parseFloat (pb_balance rs)) (parseFloat (bp_price p)))\<rparr>
                    | None \<Rightarrow>
                        \<lparr>pb_encryptedOwner = bp_encryptedSeller p, pb_balance = bp_price p,
                         pb_totalDeposited = 0, pb_totalSpent = 0\<rparr>))
            else poolBalances s)"
  proof (cases "poolBalances s (bp_buyerAccountHash p)")
    case None
    then show ?thesis by (simp add: applyOp_def succeeds_def atomicPoolBuy_cases [OF assms])
  next
    case (Some rb)
    then show ?thesis
      by (simp add: applyOp_def succeeds_def atomicPoolBuy_cases [OF assms] updateNftOwner_def
            deactivateListing_def)
         (simp add: debitedRow_def creditedRow_def)
  qed
qed

lemma net_poolBuy:
  assumes rng: "rowInRange (poolBalances s h)" "\<bar>bp_price p\<bar> \<le> exact_limit"
      and distinct: "bp_buyerAccountHash p \<noteq> bp_encryptedSeller p"
  shows "net (poolBalances (applyOp (PoolBuy p) s) h) =
           net (poolBalances s h) + proceedsOf h (PoolBuy p) s - withdrawnOf h (PoolBuy p) s"
proof (cases "succeeds (PoolBuy p) s")
  case False
  then show ?thesis
    by (simp add: poolBuy_rows(1) [OF distinct] proceedsOf_def withdrawnOf_def)
next
  case True
  from poolBuy_rows(2) [OF distinct True]
  obtain rb where rb: "poolBalances s (bp_buyerAccountHash p) = Some rb"
    by blast
  consider (buyer) "h = bp_buyerAccountHash p" | (seller) "h = bp_encryptedSeller p"
    | (other) "h \<noteq> bp_buyerAccountHash p" "h \<noteq> bp_encryptedSeller p"
    by blast
  then show ?thesis
  proof cases
    case buyer
    with rng(1) rb have r: "\<bar>pb_balance rb\<bar> \<le> exact_limit" "\<bar>pb_totalSpent rb\<bar> \<le> exact_limit"
      by (simp_all add: rowInRange_def)
    note ex = exact_fsub [OF r(1) rng(2)] exact_fadd [OF r(2) rng(2)]
    show ?thesis
      using distinct True
      by (simp add: poolBuy_rows(1) [OF distinct] buyer rb ex net_def proceedsOf_def
            withdrawnOf_def)
  next
    case seller
    show ?thesis
    proof (cases "poolBalances s (bp_encryptedSeller p)")
      case None
      then show ?thesis
        using True
        by (simp add: poolBuy_rows(1) [OF distinct] seller net_def proceedsOf_def
              withdrawnOf_def)
    next
      case (Some rs)
      with rng(1) seller have "\<bar>pb_balance rs\<bar> \<le> exact_limit"
        by (simp add: rowInRange_def)
      note ex = exact_fadd [OF this rng(2)]
      show ?thesis
        using True
        by (simp add: poolBuy_rows(1) [OF distinct] seller Some ex net_def proceedsOf_def
              withdrawnOf_def)
    qed
  next
    case other
    then show ?thesis
      using True
      by (simp add: poolBuy_rows(1) [OF distinct] proceedsOf_def withdrawnOf_def)
  qed
qed

lemma net_step:
  assumes "rowInRange (poolBalances s h)" "opInRange op"
  shows "net (poolBalances (applyOp op s) h) =
           net (poolBalances s h) + proceedsOf h op s - withdrawnOf h op s"
proof (cases op)
  case (Update h' ow a t)
  with assms show ?thesis by (simp add: net_update opInRange_def)
next
  case (PoolBuy p)
  with assms show ?thesis by (simp add: net_poolBuy opInRange_def)
qed

lemma net_run:
  "safeRun h s ops \<Longrightarrow>
     net (poolBalances (run s ops) h) = net (poolBalances s h) + proceeds h s ops - withdrawn h s ops"
proof (induction ops arbitrary: s)
  case Nil
  then show ?case by simp
next
  case (Cons op ops)
  then have "rowInRange (poolBalances s h)" "opInRange op" "safeRun h (applyOp op s) ops"
    by simp_all
  from net_step [OF this(1,2)] Cons.IH [OF this(3)] show ?case by simp
qed

lemma applyOp_update:
  assumes "rowInRange (poolBalances s h)" "\<bar>a\<bar> \<le> exact_limit"
  shows "applyOp (Update h ow a t) s =
           (case poolBalances s h of
              None \<Rightarrow>
                if t = deposit \<or> t = nft_sale
                then s\<lparr>poolBalances := (poolBalances s)(h \<mapsto>
                         \<lparr>pb_encryptedOwner = ow, pb_balance = a,
                          pb_totalDeposited = (if t = deposit then a else 0),
                          pb_totalSpent = 0\<rparr>)\<rparr>
                else s
            | Some r \<Rightarrow>
                if t = deposit \<or> t = nft_sale
                then s\<lparr>poolBalances := (poolBalances s)(h \<mapsto>
                         r\<lparr>pb_balance := pb_balance r + a,
                           pb_totalDeposited := (if t = deposit then pb_totalDeposited r + a
                                                 else pb_totalDeposited r)\<rparr>)\<rparr>
                else if pb_balance r < a then s
                else s\<lparr>poolBalances := (poolBalances s)(h \<mapsto>
                         r\<lparr>pb_balance := pb_balance r - a,
                           pb_totalSpent := (if t = withdraw then pb_totalSpent r
                                             else pb_totalSpent r + a)\<rparr>)\<rparr>)"
    and "succeeds (Update h ow a t) s =
           (case poolBalances s h of
              None \<Rightarrow> t = deposit \<or> t = nft_sale
            | Some r \<Rightarrow> t = deposit \<or> t = nft_sale \<or> \<not> pb_balance r < a)"
proof -
  show "applyOp (Update h ow a t) s =
           (case poolBalances s h of
              None \<Rightarrow>
                if t = deposit \<or> t = nft_sale
                then s\<lparr>poolBalances := (poolBalances s)(h \<mapsto>
                         \<lparr>pb_encryptedOwner = ow, pb_balance = a,
                          pb_totalDeposited = (if t = deposit then a else 0),
                          pb_totalSpent = 0\<rparr>)\<rparr>
                else s
            | Some r \<Rightarrow>
                if t = deposit \<or> t = nft_sale
                then s\<lparr>poolBalances := (poolBalances s)(h \<mapsto>
                         r\<lparr>pb_balance := pb_balance r + a,
                           pb_totalDeposited := (if t = deposit then pb_totalDeposited r + a
                                                 else pb_totalDeposited r)\<rparr>)\<rparr>
                else if pb_balance r < a then s
                else s\<lparr>poolBalances := (poolBalances s)(h \<mapsto>
                         r\<lparr>pb_balance := pb_balance r - a,
                           pb_totalSpent := (if t = withdraw then pb_totalSpent r
                                             else pb_totalSpent r + a)\<rparr>)\<rparr>)"
  proof (cases "poolBalances s h")
    case None
    then show ?thesis by (simp add: applyOp_def update_absent)
  next
    case (Some r)
    with assms(1) have "rowInRange (Some r)" by simp
    from update_in_range [OF Some this assms(2)] show ?thesis
      by (simp add: applyOp_def Some)
  qed
  show "succeeds (Update h ow a t) s =
           (case poolBalances s h of
              None \<Rightarrow> t = deposit \<or> t = nft_sale
            | Some r \<Rightarrow> t = deposit \<or> t = nft_sale \<or> \<not> pb_balance r < a)"
  proof (cases "poolBalances s h")
    case None
    then show ?thesis by (simp add: succeeds_def update_absent)
  next
    case (Some r)
    with assms(1) have "rowInRange (Some r)" by simp
    from update_in_range [OF Some this assms(2)] show ?thesis
      by (simp add: succeeds_def Some)
  qed
qed

lemma ex_ops_eval:
  "poolBalances ex_db ''Hnew'' = None"
  "safeRun ''Hnew'' ex_db ex_ops"
  "poolBalances (run ex_db ex_ops) ''Hnew'' =
     Some \<lparr>pb_encryptedOwner = ''Hnew'', pb_balance = 50000000,
           pb_totalDeposited = 100000000, pb_totalSpent = 30000000\<rparr>"
  "proceeds ''Hnew'' ex_db ex_ops = 20000000"
  "withdrawn ''Hnew'' ex_db ex_ops = 40000000"
  by (simp_all add: ex_ops_def applyOp_update rowInRange_def opInRange_def exact_limit_def
        ex_db_def proceedsOf_def withdrawnOf_def)

text \<open>
  C8, as the code has it. A withdrawal lowers the balance and is counted in neither
  \<^verbatim>\<open>totalDeposited\<close> nor \<^verbatim>\<open>totalSpent\<close>, so the identity has a fourth term. For an account
  that starts without a row, and a sequence of operations (deposits, withdrawals, mint
  payments, purchases, sale credits, on any accounts) during which the account's stored
  values and the amounts stay within the exact range and no purchase is from the buyer's
  own account, after the sequence the account has no row or its row satisfies
  balance = totalDeposited - totalSpent + proceeds received - withdrawals.
\<close>

theorem ledger_identity:
  assumes "safeRun h s ops" and "poolBalances s h = None"
  shows "case poolBalances (run s ops) h of
           None \<Rightarrow> True
         | Some r \<Rightarrow> pb_balance r =
             pb_totalDeposited r - pb_totalSpent r + proceeds h s ops - withdrawn h s ops"
  using net_run [OF assms(1)] assms(2)
  by (simp add: net_def split: option.splits)

theorem ledger_identity_witness:
  "safeRun ''Hnew'' ex_db ex_ops \<and> poolBalances ex_db ''Hnew'' = None
   \<and> map_option (\<lambda>r. (pb_balance r, pb_totalDeposited r, pb_totalSpent r))
        (poolBalances (run ex_db ex_ops) ''Hnew'') = Some (50000000, 100000000, 30000000)
   \<and> proceeds ''Hnew'' ex_db ex_ops = 20000000 \<and> withdrawn ''Hnew'' ex_db ex_ops = 40000000
   \<and> (50000000 :: int) = 100000000 - 30000000 + 20000000 - 40000000"
  using ledger_identity [OF ex_ops_eval(2,1)] by (simp add: ex_ops_eval)

text \<open>
  C8, as stated, fails on a withdrawal: after a deposit of 1.00000000 and a withdrawal of
  0.40000000 the row has balance 0.60000000, totalDeposited 1.00000000 and totalSpent 0,
  and the account has received no proceeds.
\<close>

theorem ledger_identity_counterexample:
  "map_option (\<lambda>r. (pb_balance r, pb_totalDeposited r, pb_totalSpent r))
     (poolBalances (run ex_db ex_ops_withdraw) ''Hnew'') = Some (60000000, 100000000, 0)
   \<and> proceeds ''Hnew'' ex_db ex_ops_withdraw = 0
   \<and> (60000000 :: int) \<noteq> 100000000 - 0 + 0"
  by (simp add: ex_ops_withdraw_def applyOp_update rowInRange_def opInRange_def exact_limit_def
        ex_db_def proceedsOf_def withdrawnOf_def)

text \<open>
  C9, as the code has it. For an existing account and \<open>n\<close> deposits of the amount \<open>x\<close>
  each, when the balance and the deposited total stay within the exact range (at most
  10,000,000) throughout, the balance and the deposited total are afterwards higher by
  exactly \<open>n\<close> times \<open>x\<close>; with \<open>n = 1\<close> this is one deposit, and 10,000 deposits of
  0.00000001 add exactly 0.00010000.
\<close>

theorem deposits_exact:
  assumes "poolBalances s h = Some r"
      and "\<bar>pb_balance r\<bar> + int n * \<bar>x\<bar> \<le> exact_limit"
      and "\<bar>pb_totalDeposited r\<bar> + int n * \<bar>x\<bar> \<le> exact_limit"
      and "\<bar>pb_totalSpent r\<bar> \<le> exact_limit"
  shows "poolBalances (run s (replicate n (Update h ow x deposit))) h =
           Some (r\<lparr>pb_balance := pb_balance r + int n * x,
                   pb_totalDeposited := pb_totalDeposited r + int n * x\<rparr>)"
  using assms
proof (induction n arbitrary: s r)
  case 0
  then show ?case by simp
next
  case (Suc n)
  have nn: "0 \<le> int n * \<bar>x\<bar>" by simp
  have sn: "int (Suc n) * \<bar>x\<bar> = \<bar>x\<bar> + int n * \<bar>x\<bar>" by (simp add: algebra_simps)
  have x: "\<bar>x\<bar> \<le> exact_limit"
    using Suc.prems(2) nn unfolding sn by linarith
  have b: "\<bar>pb_balance r\<bar> \<le> exact_limit" "\<bar>pb_totalDeposited r\<bar> \<le> exact_limit"
    using Suc.prems(2,3) nn unfolding sn by linarith+
  have rr: "rowInRange (poolBalances s h)"
    using b Suc.prems(4) by (simp add: rowInRange_def Suc.prems(1))
  let ?r1 = "r\<lparr>pb_balance := pb_balance r + x, pb_totalDeposited := pb_totalDeposited r + x\<rparr>"
  let ?s1 = "applyOp (Update h ow x deposit) s"
  have s1: "poolBalances ?s1 h = Some ?r1"
    by (simp add: applyOp_update(1) [OF rr x] Suc.prems(1))
  have r1: "\<bar>pb_balance ?r1\<bar> + int n * \<bar>x\<bar> \<le> exact_limit"
           "\<bar>pb_totalDeposited ?r1\<bar> + int n * \<bar>x\<bar> \<le> exact_limit"
           "\<bar>pb_totalSpent ?r1\<bar> \<le> exact_limit"
    using Suc.prems(2,3,4) unfolding sn by simp_all
  have "int (Suc n) * x = x + int n * x" by (simp add: algebra_simps)
  with Suc.IH [OF s1 r1] show ?case by (simp add: algebra_simps)
qed

theorem deposits_exact_witness:
  "\<bar>50000000\<bar> + int 10000 * \<bar>1\<bar> \<le> exact_limit
   \<and> balanceOf (run ex_db (replicate 10000 (Update ''H0xab'' ''H0xab'' 1 deposit))) ''H0xab''
       = Some 50010000"
proof -
  let ?r = "\<lparr>pb_encryptedOwner = ''H0xab'', pb_balance = 50000000,
             pb_totalDeposited = 50000000, pb_totalSpent = 0\<rparr>"
  have row: "poolBalances ex_db ''H0xab'' = Some ?r" by (simp add: ex_db_def)
  have rng: "\<bar>pb_balance ?r\<bar> + int 10000 * \<bar>1\<bar> \<le> exact_limit"
            "\<bar>pb_totalDeposited ?r\<bar> + int 10000 * \<bar>1\<bar> \<le> exact_limit"
            "\<bar>pb_totalSpent ?r\<bar> \<le> exact_limit"
    by (simp_all add: exact_limit_def)
  from deposits_exact [OF row rng, of "''H0xab''"] rng(1) show ?thesis
    by (simp add: balanceOf_def)
qed

text \<open>
  C9, as stated, fails beyond the exact range: a deposit of 0.00000001 to a balance of
  33554432.00000010, which the column can hold, leaves the balance as it was.
\<close>

theorem deposit_drift_counterexample:
  "balanceOf ex_db_large ''H0xab'' = Some 3355443200000010
   \<and> balanceOf (applyOp (Update ''H0xab'' ''H0xab'' 1 deposit) ex_db_large) ''H0xab''
       = Some 3355443200000010"
  by (simp add: balanceOf_def applyOp_def createOrUpdatePoolBalance_def ex_db_large_def
        Let_def drift_values)

text \<open>
  Credits and checked debits of amounts that are not negative keep a balance at least
  zero, whatever the magnitudes, including a purchase paid to the buyer's own account; and
  within the exact range a debit of more than the balance throws.
\<close>

lemma parseFloat_nonneg: "0 \<le> n \<Longrightarrow> 0 \<le> parseFloat n"
  by (simp add: parseFloat_def to_double_nonneg)

lemma fadd_nonneg: "0 \<le> a \<Longrightarrow> 0 \<le> b \<Longrightarrow> 0 \<le> toFixed8 (fadd a b)"
  by (simp add: fadd_def to_double_nonneg toFixed8_nonneg)

lemma fsub_checked_nonneg: "\<not> fsub a b < 0 \<Longrightarrow> 0 \<le> toFixed8 (fsub a b)"
  by (simp add: toFixed8_nonneg)

lemma fsub_le_nonneg: "\<not> a < b \<Longrightarrow> 0 \<le> toFixed8 (fsub a b)"
  by (simp add: fsub_def to_double_nonneg toFixed8_nonneg)

lemma nonneg_update:
  assumes "nonnegAt h s" "0 \<le> a"
  shows "nonnegAt h (applyOp (Update h' ow a t) s)"
proof (cases "h' = h")
  case False
  with assms(1) show ?thesis by (simp add: nonnegAt_def balanceOf_def update_other)
next
  case True
  show ?thesis
  proof (cases "poolBalances s h")
    case None
    then show ?thesis
      using assms(2) unfolding True
      by (simp add: nonnegAt_def balanceOf_def applyOp_def update_absent)
  next
    case (Some r)
    with assms(1) have b: "0 \<le> parseFloat (pb_balance r)"
      by (simp add: nonnegAt_def balanceOf_def parseFloat_nonneg)
    have a: "0 \<le> parseFloat a" using assms(2) by (rule parseFloat_nonneg)
    show ?thesis
      unfolding True using assms(1) Some
      by (cases t)
         (simp_all add: nonnegAt_def balanceOf_def applyOp_def createOrUpdatePoolBalance_def
            Let_def fadd_nonneg [OF b a] fsub_checked_nonneg)
  qed
qed

lemma atomicPoolBuy_own:
  assumes own: "bp_encryptedSeller p = bp_buyerAccountHash p"
      and rb: "poolBalances s (bp_buyerAccountHash p) = Some rb"
      and ok: "atomicPoolBuy p s = Inr (res, s')"
  shows "poolBalances s' = (poolBalances s)
           (bp_buyerAccountHash p \<mapsto>
              rb\<lparr>pb_balance := toFixed8 (fadd (parseFloat (pb_balance rb))
                                             (parseFloat (bp_price p))),
                 pb_totalSpent := toFixed8 (fadd (parseFloat (pb_totalSpent rb))
                                                (parseFloat (bp_price p)))\<rparr>)"
proof -
  have enough: "\<not> parseFloat (pb_balance rb) < parseFloat (bp_price p)"
    using ok by (auto simp: atomicPoolBuy_def rb Let_def split: if_splits)
  show ?thesis
    using ok enough
    by (simp add: atomicPoolBuy_def own rb updatePoolRow_def Let_def updateNftOwner_def
          deactivateListing_def split: if_splits)
       auto
qed

lemma nonneg_poolBuy:
  assumes "nonnegAt h s" "0 \<le> bp_price p"
  shows "nonnegAt h (applyOp (PoolBuy p) s)"
proof (cases "atomicPoolBuy p s")
  case (Inl err)
  with assms(1) show ?thesis by (simp add: applyOp_def)
next
  case (Inr x)
  obtain res s' where x: "x = (res, s')" by (cases x)
  note ok = Inr [unfolded x]
  have a: "0 \<le> parseFloat (bp_price p)" using assms(2) by (rule parseFloat_nonneg)
  have s: "0 \<le> parseFloat (pb_balance r)" if "poolBalances s h = Some r" for r
    using assms(1) that by (simp add: nonnegAt_def balanceOf_def parseFloat_nonneg)
  have ap: "applyOp (PoolBuy p) s = s'" by (simp add: applyOp_def ok)
  show ?thesis
  proof (cases "bp_buyerAccountHash p = bp_encryptedSeller p")
    case False
    from ok False obtain rb where rb: "poolBalances s (bp_buyerAccountHash p) = Some rb"
      and enough: "\<not> parseFloat (pb_balance rb) < parseFloat (bp_price p)"
      and s': "s' = deactivateListing (bp_listingId p)
            (updateNftOwner (bp_nftId p) (bp_encryptedBuyer p)
               (s\<lparr>poolBalances := (poolBalances s)
                      (bp_buyerAccountHash p \<mapsto> debitedRow p rb,
                       bp_encryptedSeller p \<mapsto> creditedRow p s),
                  poolTransactions := poolTransactions s @
                    [\<lparr>pt_accountHash = bp_buyerAccountHash p, pt_type = nft_purchase,
                      pt_amount = bp_price p, pt_txHash = bp_txHash p,
                      pt_nftId = Some (bp_nftId p)\<rparr>,
                     \<lparr>pt_accountHash = bp_encryptedSeller p, pt_type = nft_sale,
                      pt_amount = bp_price p, pt_txHash = bp_txHash p,
                      pt_nftId = Some (bp_nftId p)\<rparr>],
                  trades := trades s @ [settledTrade p]\<rparr>))"
      by (rule atomicPoolBuy_success)
    have pb: "poolBalances s' = (poolBalances s)
                (bp_buyerAccountHash p \<mapsto> debitedRow p rb,
                 bp_encryptedSeller p \<mapsto> creditedRow p s)"
      by (simp add: s' deactivateListing_def updateNftOwner_def)
    have d: "0 \<le> pb_balance (debitedRow p rb)"
      using enough by (simp add: debitedRow_def fsub_le_nonneg)
    have c: "0 \<le> pb_balance (creditedRow p s)" if "h = bp_encryptedSeller p"
    proof (cases "poolBalances s (bp_encryptedSeller p)")
      case None
      with assms(2) show ?thesis by (simp add: creditedRow_def)
    next
      case (Some rs)
      with that have "0 \<le> parseFloat (pb_balance rs)" by (simp add: s)
      from fadd_nonneg [OF this a] Some show ?thesis by (simp add: creditedRow_def)
    qed
    consider "h = bp_buyerAccountHash p" | "h = bp_encryptedSeller p"
      | "h \<noteq> bp_buyerAccountHash p" "h \<noteq> bp_encryptedSeller p" by blast
    then show ?thesis
    proof cases
      case 1
      with False d show ?thesis by (simp add: ap nonnegAt_def balanceOf_def pb)
    next
      case 2
      with c show ?thesis by (simp add: ap nonnegAt_def balanceOf_def pb)
    next
      case 3
      with assms(1) show ?thesis by (simp add: ap nonnegAt_def balanceOf_def pb)
    qed
  next
    case True
    obtain rb where rb: "poolBalances s (bp_buyerAccountHash p) = Some rb"
      using ok by (cases "poolBalances s (bp_buyerAccountHash p)") (simp_all add: atomicPoolBuy_def)
    note pb = atomicPoolBuy_own [OF True [symmetric] rb ok]
    show ?thesis
    proof (cases "h = bp_buyerAccountHash p")
      case h: True
      from s [of rb] rb h have "0 \<le> parseFloat (pb_balance rb)" by simp
      from fadd_nonneg [OF this a] h show ?thesis
        by (simp add: ap nonnegAt_def balanceOf_def pb)
    next
      case False
      with assms(1) show ?thesis by (simp add: ap nonnegAt_def balanceOf_def pb)
    qed
  qed
qed

lemma nonneg_run:
  "nonnegAt h s \<Longrightarrow> list_all opNonneg ops \<Longrightarrow> nonnegAt h (run s ops)"
proof (induction ops arbitrary: s)
  case Nil
  then show ?case by simp
next
  case (Cons op ops)
  from Cons.prems have "nonnegAt h (applyOp op s)"
    by (cases op) (simp_all add: opNonneg_def nonneg_update nonneg_poolBuy)
  with Cons show ?case by simp
qed

lemma overdraft_rejected:
  assumes "overdraws op s"
  shows "insufficient (failure op s) \<and> applyOp op s = s"
proof (cases op)
  case (Update h ow a t)
  with assms obtain r where r: "poolBalances s h = Some r" "rowInRange (Some r)"
      "pb_balance r < a" "\<bar>a\<bar> \<le> exact_limit" "t \<noteq> deposit" "t \<noteq> nft_sale"
    by (auto simp: overdraws_def split: option.splits)
  from update_in_range [OF r(1,2,4)] r(3,5,6) show ?thesis
    by (simp add: Update failure_def applyOp_def insufficient_def)
next
  case (PoolBuy p)
  with assms obtain r where r: "poolBalances s (bp_buyerAccountHash p) = Some r"
      "rowInRange (Some r)" "pb_balance r < bp_price p" "\<bar>bp_price p\<bar> \<le> exact_limit"
    by (auto simp: overdraws_def split: option.splits)
  from r(2) have b: "\<bar>pb_balance r\<bar> \<le> exact_limit" by (simp add: rowInRange_def)
  have "parseFloat (pb_balance r) < parseFloat (bp_price p)"
    using r(3) by (simp add: parseFloat_less_iff [OF b r(4)])
  then show ?thesis
    by (simp add: PoolBuy failure_def applyOp_def insufficient_def atomicPoolBuy_def r(1) Let_def)
qed

lemma ex_overdraft_eval:
  "nonnegAt ''H0xab'' ex_db"
  "list_all opNonneg ex_ops_overdraft"
  "run ex_db (take 1 ex_ops_overdraft) = ex_db"
  "balanceOf (run ex_db (take 2 ex_ops_overdraft)) ''H0xab'' = Some 60000000"
  "balanceOf (run ex_db ex_ops_overdraft) ''H0xab'' = Some 0"
  "overdraws (Update ''H0xab'' ''H0xab'' 60000000 withdraw) ex_db"
  "failure (Update ''H0xab'' ''H0xab'' 60000000 withdraw) ex_db = Some InsufficientBalance"
proof -
  have a: "\<bar>60000000 :: int\<bar> \<le> exact_limit" "\<bar>10000000 :: int\<bar> \<le> exact_limit"
    by (simp_all add: exact_limit_def)
  have row: "poolBalances ex_db ''H0xab'' =
      Some \<lparr>pb_encryptedOwner = ''H0xab'', pb_balance = 50000000,
             pb_totalDeposited = 50000000, pb_totalSpent = 0\<rparr>"
    by (simp add: ex_db_def)
  have rr: "rowInRange (poolBalances ex_db ''H0xab'')"
    by (simp add: row rowInRange_def exact_limit_def)
  show "nonnegAt ''H0xab'' ex_db" by (simp add: nonnegAt_def balanceOf_def row)
  show "list_all opNonneg ex_ops_overdraft" by (simp add: ex_ops_overdraft_def opNonneg_def)
  show 1: "run ex_db (take 1 ex_ops_overdraft) = ex_db"
    by (simp add: ex_ops_overdraft_def applyOp_update(1) [OF rr a(1)] row)
  show "balanceOf (run ex_db (take 2 ex_ops_overdraft)) ''H0xab'' = Some 60000000"
    by (simp add: ex_ops_overdraft_def applyOp_update(1) [OF rr a(1)]
          applyOp_update(1) [OF rr a(2)] row balanceOf_def)
  show "balanceOf (run ex_db ex_ops_overdraft) ''H0xab'' = Some 0"
    by (simp add: ex_ops_overdraft_def applyOp_update rowInRange_def exact_limit_def row
          balanceOf_def)
  show "overdraws (Update ''H0xab'' ''H0xab'' 60000000 withdraw) ex_db"
    by (simp add: overdraws_def row rowInRange_def exact_limit_def)
  from update_in_range [OF row _ a(1)] rr
  show "failure (Update ''H0xab'' ''H0xab'' 60000000 withdraw) ex_db = Some InsufficientBalance"
    by (simp add: failure_def row)
qed

lemma huge_values:
  "\<not> fsub (parseFloat 6710886400000001) (parseFloat 6710886400000002) < 0"
  "toFixed8 (fsub (parseFloat 6710886400000001) (parseFloat 6710886400000002)) = 0"
  by code_simp+

text \<open>
  C3, as the code has it. For every account whose balance is at least zero and every
  sequence of ledger operations (deposits, withdrawals, mint payments, purchases, sale
  credits, on any accounts) whose amounts are not negative, the balance of the account is
  at least zero after the sequence, hence after every step of it; and in the state reached,
  any debit of an existing account by more than its balance, both within the exact range
  (at most 10,000,000), fails with an insufficient-balance error and leaves the database
  unchanged.
\<close>

theorem balance_nonneg:
  assumes "nonnegAt h s" and "list_all opNonneg ops"
  shows "nonnegAt h (run s ops)
         \<and> (\<forall>op. overdraws op (run s ops)
                \<longrightarrow> insufficient (failure op (run s ops))
                    \<and> applyOp op (run s ops) = run s ops)"
  using nonneg_run [OF assms] overdraft_rejected by blast

theorem balance_nonneg_witness:
  "nonnegAt ''H0xab'' ex_db \<and> list_all opNonneg ex_ops_overdraft
   \<and> nonnegAt ''H0xab'' (run ex_db ex_ops_overdraft)
   \<and> balanceOf (run ex_db ex_ops_overdraft) ''H0xab'' = Some 0
   \<and> overdraws (Update ''H0xab'' ''H0xab'' 60000000 withdraw) (run ex_db [])
   \<and> failure (Update ''H0xab'' ''H0xab'' 60000000 withdraw) (run ex_db []) = Some InsufficientBalance
   \<and> applyOp (Update ''H0xab'' ''H0xab'' 60000000 withdraw) (run ex_db []) = run ex_db []"
  using balance_nonneg [OF ex_overdraft_eval(1,2)]
        balance_nonneg [OF ex_overdraft_eval(1), of "[]"]
  by (simp add: ex_overdraft_eval)

text \<open>
  C3, as stated, fails in two ways. \<^verbatim>\<open>createOrUpdatePoolBalance\<close> checks debits only and
  adds a deposit whatever its sign (\<^verbatim>\<open>POST /api/pool/deposit\<close> passes any string on as the
  amount): a deposit of -1.00000000 creates a new account with balance -1.00000000, and
  takes the balance of an account holding 0.50000000 to -0.50000000. And beyond the exact
  range two amounts can be the same double: from a balance of 67108864.00000001 a
  withdrawal of 67108864.00000002 does not fail, and leaves 0.00000000.
\<close>

theorem balance_negative_counterexample:
  "balanceOf (applyOp (Update ''Hnew'' ''Hnew'' (- 100000000) deposit) ex_db) ''Hnew''
     = Some (- 100000000)
   \<and> balanceOf (applyOp (Update ''H0xab'' ''H0xab'' (- 100000000) deposit) ex_db) ''H0xab''
     = Some (- 50000000)
   \<and> balanceOf ex_db_huge ''H0xab'' = Some 6710886400000001
   \<and> failure (Update ''H0xab'' ''H0xab'' 6710886400000002 withdraw) ex_db_huge = None
   \<and> balanceOf (applyOp (Update ''H0xab'' ''H0xab'' 6710886400000002 withdraw) ex_db_huge)
        ''H0xab'' = Some 0"
proof -
  have a: "\<bar>- 100000000 :: int\<bar> \<le> exact_limit" by (simp add: exact_limit_def)
  have r1: "rowInRange (poolBalances ex_db ''Hnew'')" "rowInRange (poolBalances ex_db ''H0xab'')"
    by (simp_all add: rowInRange_def ex_db_def exact_limit_def)
  have neg: "balanceOf (applyOp (Update ''Hnew'' ''Hnew'' (- 100000000) deposit) ex_db) ''Hnew''
     = Some (- 100000000)
   \<and> balanceOf (applyOp (Update ''H0xab'' ''H0xab'' (- 100000000) deposit) ex_db) ''H0xab''
     = Some (- 50000000)"
    by (simp add: applyOp_update(1) [OF r1(1) a] applyOp_update(1) [OF r1(2) a] balanceOf_def)
       (simp add: ex_db_def)
  have huge: "balanceOf ex_db_huge ''H0xab'' = Some 6710886400000001
   \<and> failure (Update ''H0xab'' ''H0xab'' 6710886400000002 withdraw) ex_db_huge = None
   \<and> balanceOf (applyOp (Update ''H0xab'' ''H0xab'' 6710886400000002 withdraw) ex_db_huge)
        ''H0xab'' = Some 0"
    by (simp add: balanceOf_def failure_def applyOp_def createOrUpdatePoolBalance_def
          ex_db_huge_def Let_def huge_values)
  from neg huge show ?thesis by simp
qed

end
